(* ===== verification/Prelude.thy ===== *)
theory Prelude
  imports Complex_Main "HOL-Library.AList" "HOL-Library.Word"
begin

text \<open>
  Shared vocabulary of the development: results as sums, the saturating and truncating
  operations of Rust's \<open>u64\<close>, time as natural numbers of nanoseconds, and the generic
  facts on lists and association lists that several components use.
\<close>

section \<open>Collections of facts\<close>

named_theorems sat_simps \<open>saturating 64 bit arithmetic\<close>
named_theorems alist_simps \<open>association lists standing for hash maps\<close>

section \<open>Results\<close>

text \<open>A Rust \<open>Result<T, E>\<close> is the sum \<open>'e + 'a\<close>: \<open>Inl\<close> is \<open>Err\<close>, \<open>Inr\<close> is \<open>Ok\<close>.\<close>

type_synonym ('a, 'e) result = "'e + 'a"

abbreviation Ok :: "'a \<Rightarrow> ('a, 'e) result" where
  "Ok \<equiv> Inr"

abbreviation Err :: "'e \<Rightarrow> ('a, 'e) result" where
  "Err \<equiv> Inl"

definition is_ok :: "('a, 'e) result \<Rightarrow> bool" where
  "is_ok r = (case r of Inl _ \<Rightarrow> False | Inr _ \<Rightarrow> True)"

lemma is_ok_simps [simp]: "is_ok (Ok x)" "\<not> is_ok (Err e)"
  by (simp_all add: is_ok_def)

text \<open>The \<open>?\<close> operator and \<open>Option::ok_or\<close>.\<close>

definition result_bind :: "('a, 'e) result \<Rightarrow> ('a \<Rightarrow> ('b, 'e) result) \<Rightarrow> ('b, 'e) result" where
  "result_bind r f = (case r of Inl e \<Rightarrow> Inl e | Inr x \<Rightarrow> f x)"

lemma result_bind_simps [simp]:
  "result_bind (Ok x) f = f x"
  "result_bind (Err e) f = Err e"
  by (simp_all add: result_bind_def)

lemma result_bind_eq_Ok:
  "result_bind r f = Ok y \<longleftrightarrow> (\<exists>x. r = Ok x \<and> f x = Ok y)"
  by (cases r) simp_all

definition ok_or :: "'a option \<Rightarrow> 'e \<Rightarrow> ('a, 'e) result" where
  "ok_or x e = (case x of None \<Rightarrow> Err e | Some y \<Rightarrow> Ok y)"

lemma ok_or_simps [simp]: "ok_or None e = Err e" "ok_or (Some y) e = Ok y"
  by (simp_all add: ok_or_def)

lemma ok_or_eq_Ok: "ok_or x e = Ok y \<longleftrightarrow> x = Some y"
  by (cases x) simp_all

section \<open>Unsigned 64 bit arithmetic\<close>

text \<open>
  Instants and durations are natural numbers of nanoseconds. Where the code keeps such a
  number in a \<open>u64\<close> the model applies the operation of the source: \<open>as u64\<close> truncates,
  \<open>saturating_add\<close> and \<open>saturating_mul\<close> stop at \<open>u64::MAX\<close>, \<open>saturating_sub\<close> stops at zero
  (which is subtraction on natural numbers).
\<close>

type_synonym nanos = nat

definition u64_max :: nat where
  "u64_max = 18446744073709551615"

definition as_u64 :: "nat \<Rightarrow> nat" where
  "as_u64 n = n mod (u64_max + 1)"

definition sat_add :: "nat \<Rightarrow> nat \<Rightarrow> nat" where
  "sat_add a b = min (a + b) u64_max"

definition sat_mul :: "nat \<Rightarrow> nat \<Rightarrow> nat" where
  "sat_mul a b = min (a * b) u64_max"

definition sat_sub :: "nat \<Rightarrow> nat \<Rightarrow> nat" where
  "sat_sub a b = a - b"

definition secs :: "nat \<Rightarrow> nanos" where
  "secs n = n * 1000000000"

lemma as_u64_id [sat_simps]: "n \<le> u64_max \<Longrightarrow> as_u64 n = n"
  by (simp add: as_u64_def)

lemma as_u64_le [simp]: "as_u64 n \<le> u64_max"
  by (simp add: as_u64_def less_Suc_eq_le [symmetric])

lemma sat_add_id [sat_simps]: "a + b \<le> u64_max \<Longrightarrow> sat_add a b = a + b"
  by (simp add: sat_add_def)

lemma sat_add_le [simp]: "sat_add a b \<le> u64_max" "sat_add a b \<le> a + b"
  by (simp_all add: sat_add_def)

lemma sat_mul_id [sat_simps]: "a * b \<le> u64_max \<Longrightarrow> sat_mul a b = a * b"
  by (simp add: sat_mul_def)

lemma sat_mul_le [simp]: "sat_mul a b \<le> u64_max" "sat_mul a b \<le> a * b"
  by (simp_all add: sat_mul_def)

lemma sat_mul_le_iff: "c < u64_max \<Longrightarrow> sat_mul a b \<le> c \<longleftrightarrow> a * b \<le> c"
  by (auto simp: sat_mul_def)

section \<open>Strings with separators\<close>

lemma append_sep_inj:
  "c \<notin> set a \<Longrightarrow> c \<notin> set b \<Longrightarrow> a @ c # x = b @ c # y \<longleftrightarrow> a = b \<and> x = y"
proof (induction a arbitrary: b)
  case Nil
  then show ?case by (cases b) auto
next
  case (Cons d a)
  then show ?case by (cases b) auto
qed

section \<open>Association lists standing for hash maps\<close>

text \<open>
  A hash map the code iterates over is an association list with distinct keys, in some
  iteration order. \<open>total_of f\<close> adds up a weight over its values; counters kept beside a map are
  such totals.
\<close>

definition total_of :: "('v \<Rightarrow> nat) \<Rightarrow> ('k \<times> 'v) list \<Rightarrow> nat" where
  "total_of f xs = sum_list (map (\<lambda>x. f (snd x)) xs)"

definition weight_at :: "('v \<Rightarrow> nat) \<Rightarrow> ('k \<times> 'v) list \<Rightarrow> 'k \<Rightarrow> nat" where
  "weight_at f xs k = (case map_of xs k of Some v \<Rightarrow> f v | None \<Rightarrow> 0)"

lemma total_simps [simp]: "total_of f [] = 0" "total_of f (x # xs) = f (snd x) + total_of f xs"
  by (simp_all add: total_of_def)

lemma total_append [simp]: "total_of f (xs @ ys) = total_of f xs + total_of f ys"
  by (simp add: total_of_def)

lemma total_update:
  assumes "distinct (map fst xs)"
  shows "total_of f (AList.update k v xs) + weight_at f xs k = total_of f xs + f v"
  using assms
proof (induction xs)
  case (Cons x xs)
  then show ?case
    by (cases "fst x = k") (auto simp: weight_at_def map_of_eq_None_iff split: prod.splits option.splits)
qed (simp add: weight_at_def)

lemma total_delete:
  assumes "distinct (map fst xs)"
  shows "total_of f (AList.delete k xs) + weight_at f xs k = total_of f xs"
  using assms
proof (induction xs)
  case (Cons x xs)
  then show ?case
    by (cases "fst x = k") (auto simp: weight_at_def map_of_eq_None_iff split: option.splits)
qed (simp add: weight_at_def)

lemma weight_at_le_total: "weight_at f xs k \<le> total_of f xs"
proof (induction xs)
  case (Cons x xs)
  then show ?case by (auto simp: weight_at_def split: option.splits)
qed (simp add: weight_at_def)

lemma total_eq_0: "total_of f xs = 0 \<longleftrightarrow> (\<forall>x \<in> set xs. f (snd x) = 0)"
  by (induction xs) auto

lemma total_pos_ex: "0 < total_of f xs \<Longrightarrow> \<exists>x \<in> set xs. 0 < f (snd x)"
  by (induction xs) auto

lemma weight_at_update [simp]:
  "weight_at f (AList.update k v xs) j = (if j = k then f v else weight_at f xs j)"
  by (simp add: weight_at_def AList.update_conv')

section \<open>Minimum and maximum by a key, stable sorting by a comparison\<close>

text \<open>\<open>Iterator::min_by_key\<close>: the first of the smallest elements.\<close>

fun min_by_key :: "('a \<Rightarrow> nat) \<Rightarrow> 'a list \<Rightarrow> 'a option" where
  "min_by_key f [] = None"
| "min_by_key f (x # xs) =
     (case min_by_key f xs of None \<Rightarrow> Some x | Some y \<Rightarrow> if f x \<le> f y then Some x else Some y)"

lemma min_by_key_None [simp]: "min_by_key f xs = None \<longleftrightarrow> xs = []"
  by (cases xs) (auto split: option.splits)

lemma min_by_key_Some:
  "min_by_key f xs = Some x \<Longrightarrow> x \<in> set xs \<and> (\<forall>y \<in> set xs. f x \<le> f y)"
proof (induction xs arbitrary: x)
  case (Cons a xs)
  then show ?case by (fastforce split: option.splits if_splits)
qed simp

text \<open>The entries and keys of an association list after an update or a deletion.\<close>

lemma set_alist_update: "set (AList.update p i xs) \<subseteq> insert (p, i) (set xs)"
  by (induction xs) auto

lemma set_alist_delete: "x \<in> set (AList.delete p xs) \<Longrightarrow> x \<in> set xs"
  by (auto simp: AList.delete_eq)

lemma alist_update_new: "k \<notin> fst ` set xs \<Longrightarrow> AList.update k v xs = xs @ [(k, v)]"
  by (induction xs) auto

lemma alist_update_mem:
  "distinct (map fst xs) \<Longrightarrow>
     (j, x) \<in> set (AList.update k v xs) \<longleftrightarrow> (if j = k then x = v else (j, x) \<in> set xs)"
  by (induction xs) (auto simp: rev_image_eqI)

lemma alist_update_keys: "fst ` set (AList.update k v xs) = insert k (fst ` set xs)"
  by (induction xs) auto

lemma alist_update_length: "k \<in> fst ` set xs \<Longrightarrow> length (AList.update k v xs) = length xs"
  by (induction xs) auto

end
