(* ===== verification/RateLimiter.thy ===== *)
theory RateLimiter
  imports Prelude
begin

text \<open>
  The generic cell rate algorithm of \<open>rpc/rate_limiter.rs\<close>: quotas, the per key limiter with
  its theoretical arrival times, and the limiter of the whole protocol family built from it.
\<close>

section \<open>Quotas and the per key limiter\<close>

text \<open>\<open>max_tokens\<close> is a \<open>NonZeroU64\<close> in the source.\<close>

record quota =
  replenish_all_every :: nanos
  max_tokens :: nat

definition one_every :: "nat \<Rightarrow> quota" where
  "one_every s = \<lparr>replenish_all_every = secs s, max_tokens = 1\<rparr>"

definition n_every :: "nat \<Rightarrow> nat \<Rightarrow> quota" where
  "n_every n s = \<lparr>replenish_all_every = secs s, max_tokens = n\<rparr>"

datatype rate_limited_err = TooLarge | TooSoon nanos

record 'k limiter =
  tau :: nanos
  tt :: nanos
  tat_per_key :: "'k \<rightharpoonup> nanos"

definition limiter_from_quota :: "quota \<Rightarrow> ('k limiter, string) result" where
  "limiter_from_quota q =
     (let tau_ns = replenish_all_every q in
      if tau_ns = 0 then Err ''Replenish time must be positive''
      else let t_ns = tau_ns div max_tokens q in
           if u64_max < t_ns then Err ''total replenish time is too long''
           else if u64_max < tau_ns then Err ''total replenish time is too long''
           else Ok \<lparr>tau = tau_ns, tt = t_ns, tat_per_key = Map.empty\<rparr>)"

definition limiter_allows ::
    "'k limiter \<Rightarrow> nanos \<Rightarrow> 'k \<Rightarrow> nat \<Rightarrow> (unit, rate_limited_err) result \<times> 'k limiter" where
  "limiter_allows l time_since_start key tokens =
     (let now = as_u64 time_since_start;
          additional_time = sat_mul (tt l) tokens in
      if tau l < additional_time then (Err TooLarge, l)
      else let tat = (case tat_per_key l key of Some x \<Rightarrow> x | None \<Rightarrow> now);
               earliest_time = sat_sub (sat_add tat additional_time) (tau l) in
           if now < earliest_time
           then (Err (TooSoon (sat_sub earliest_time now)),
                 l\<lparr>tat_per_key := (tat_per_key l)(key \<mapsto> tat)\<rparr>)
           else (Ok (),
                 l\<lparr>tat_per_key := (tat_per_key l)(key \<mapsto> sat_add (max now tat) additional_time)\<rparr>))"

definition limiter_prune :: "'k limiter \<Rightarrow> nanos \<Rightarrow> 'k limiter" where
  "limiter_prune l time_limit =
     (let lim = as_u64 time_limit in
      l\<lparr>tat_per_key := (\<lambda>k. case tat_per_key l k of
                               Some tat \<Rightarrow> if lim \<le> tat then Some tat else None
                             | None \<Rightarrow> None)\<rparr>)"

section \<open>Traces of a limiter\<close>

text \<open>
  A limiter is used by a sequence of calls: requests of several keys, interleaved with the
  periodic prune. \<open>limiter_run\<close> executes such a sequence and collects the answers.
\<close>

datatype 'k limiter_op = Allow (op_time: nanos) 'k nat | Prune (op_time: nanos)

fun limiter_run ::
    "'k limiter \<Rightarrow> 'k limiter_op list \<Rightarrow> (unit, rate_limited_err) result list \<times> 'k limiter" where
  "limiter_run l [] = ([], l)"
| "limiter_run l (Allow now key tokens # ops) =
     (let (r, l') = limiter_allows l now key tokens; (rs, l'') = limiter_run l' ops in (r # rs, l''))"
| "limiter_run l (Prune now # ops) = limiter_run (limiter_prune l now) ops"

text \<open>Tokens granted to one key over a sequence of calls.\<close>

fun granted :: "'k limiter \<Rightarrow> 'k limiter_op list \<Rightarrow> 'k \<Rightarrow> nat" where
  "granted l [] k = 0"
| "granted l (Allow now key tokens # ops) k =
     (let (r, l') = limiter_allows l now key tokens in
      (if is_ok r \<and> key = k then tokens else 0) + granted l' ops k)"
| "granted l (Prune now # ops) k = granted (limiter_prune l now) ops k"

text \<open>The calls come in the order of time and stay clear of the end of the 64 bit clock.\<close>

definition timely :: "nanos \<Rightarrow> nanos \<Rightarrow> nanos \<Rightarrow> 'k limiter_op list \<Rightarrow> bool" where
  "timely cap t0 t1 ops \<longleftrightarrow>
     sorted (map op_time ops) \<and> list_all (\<lambda>x. t0 \<le> op_time x \<and> op_time x \<le> t1) ops \<and>
     t1 + cap < u64_max"

section \<open>What the limiter grants\<close>

lemma allows_params [simp]:
  "tau (snd (limiter_allows l now k n)) = tau l"
  "tt (snd (limiter_allows l now k n)) = tt l"
  by (simp_all add: limiter_allows_def Let_def)

lemma prune_params [simp]:
  "tau (limiter_prune l now) = tau l"
  "tt (limiter_prune l now) = tt l"
  by (simp_all add: limiter_prune_def Let_def)

lemma timely_Cons:
  assumes "timely cap t0 t1 (x # ops)"
  shows "t0 \<le> op_time x" "op_time x \<le> t1" "t1 + cap < u64_max"
    "timely cap (op_time x) t1 ops"
  using assms by (auto simp: timely_def list_all_iff)

text \<open>The time at which the bucket of a key is full again, as seen at time \<open>now\<close>.\<close>

definition full_at :: "'k limiter \<Rightarrow> 'k \<Rightarrow> nanos \<Rightarrow> nanos" where
  "full_at l k now = (case tat_per_key l k of Some x \<Rightarrow> max now x | None \<Rightarrow> now)"

lemma full_at_mono: "a \<le> b \<Longrightarrow> full_at l k a \<le> full_at l k b"
  by (auto simp: full_at_def split: option.splits)

lemma full_at_prune: "t \<le> u64_max \<Longrightarrow> t \<le> now \<Longrightarrow> full_at (limiter_prune l t) k now = full_at l k now"
  by (auto simp: full_at_def limiter_prune_def sat_simps split: option.splits)

text \<open>One call, away from the end of the clock, in plain arithmetic.\<close>

lemma allows_cases:
  assumes "now + tau l < u64_max"
  obtains (large) "tau l < tt l * n" "limiter_allows l now k n = (Err TooLarge, l)"
  | (soon) l' where "tt l * n \<le> tau l" "now + tau l < full_at l k now + tt l * n"
      "fst (limiter_allows l now k n) =
        Err (TooSoon (sat_sub (sat_sub (sat_add (full_at l k now) (tt l * n)) (tau l)) now))"
      "snd (limiter_allows l now k n) = l' \<and> (\<forall>j t. now \<le> t \<longrightarrow> full_at l' j t = full_at l j t)"
  | (ok) l' where "tt l * n \<le> tau l" "full_at l k now + tt l * n \<le> now + tau l"
      "limiter_allows l now k n = (Ok (), l')" "full_at l' k now = full_at l k now + tt l * n"
      "\<forall>j t. j \<noteq> k \<longrightarrow> full_at l' j t = full_at l j t"
proof -
  define add where "add = sat_mul (tt l) n"
  define x where "x = (case tat_per_key l k of Some x \<Rightarrow> x | None \<Rightarrow> now)"
  have now: "as_u64 now = now" using assms by (simp add: sat_simps)
  have fx: "full_at l k now = max now x" by (auto simp: x_def full_at_def split: option.splits)
  have run: "limiter_allows l now k n =
    (if tau l < add then (Err TooLarge, l)
     else if now < sat_sub (sat_add x add) (tau l)
       then (Err (TooSoon (sat_sub (sat_sub (sat_add x add) (tau l)) now)),
             l\<lparr>tat_per_key := (tat_per_key l)(k \<mapsto> x)\<rparr>)
       else (Ok (), l\<lparr>tat_per_key := (tat_per_key l)(k \<mapsto> sat_add (max now x) add)\<rparr>))"
    by (simp add: limiter_allows_def Let_def now add_def x_def)
  show thesis
  proof (cases "tau l < add")
    case True
    then have "tau l < tt l * n"
      unfolding add_def by (metis le_trans linorder_not_less sat_mul_le(2))
    with True run show ?thesis by (intro large) simp_all
  next
    case False
    then have add: "add = tt l * n" "tt l * n \<le> tau l"
      using assms by (auto simp: add_def sat_mul_def)
    show ?thesis
    proof (cases "now < sat_sub (sat_add x add) (tau l)")
      case True
      then have lt: "now + tau l < x + add" by (auto simp: sat_sub_def sat_add_def)
      then have "full_at l k now = x" using add fx by auto
      then show ?thesis
        using add lt run True False
        by (intro soon [of "l\<lparr>tat_per_key := (tat_per_key l)(k \<mapsto> x)\<rparr>"])
          (auto simp: full_at_def x_def split: option.splits)
    next
      case ok': False
      then have le: "x + add \<le> now + tau l" using assms by (auto simp: sat_sub_def sat_add_def)
      then have "sat_add (max now x) add = max now x + add"
        using assms add by (auto simp: sat_add_def)
      then show ?thesis
        using add le run ok' False fx
        by (intro ok [of "l\<lparr>tat_per_key := (tat_per_key l)(k \<mapsto> sat_add (max now x) add)\<rparr>"])
          (auto simp: full_at_def)
    qed
  qed
qed

lemma allows_full_at:
  assumes "now + tau l < u64_max" "limiter_allows l now key n = (r, l')"
  shows "\<not> (is_ok r \<and> key = k) \<Longrightarrow> full_at l' k now = full_at l k now"
    and "is_ok r \<Longrightarrow> full_at l' key now = full_at l key now + tt l * n \<and> full_at l' key now \<le> now + tau l"
  using assms
  by (cases rule: allows_cases [where n = n and k = key]; auto simp: is_ok_def split: sum.splits)+

lemma granted_full_at:
  assumes "timely (tau l) t0 t1 ops"
  shows "granted l ops k = 0 \<or> full_at l k t0 + tt l * granted l ops k \<le> t1 + tau l"
  using assms
proof (induction l ops k arbitrary: t0 rule: granted.induct)
  case (2 l now key n ops k)
  note t = timely_Cons [OF "2.prems", simplified]
  obtain r l' where step: "limiter_allows l now key n = (r, l')" by fastforce
  have par: "tau l' = tau l" "tt l' = tt l" using allows_params [of l now key n] step by simp_all
  have IH: "granted l' ops k = 0 \<or> full_at l' k now + tt l * granted l' ops k \<le> t1 + tau l"
    using "2.IH" [OF step [symmetric] refl, of now] t(4) par by simp
  have mono: "full_at l k t0 \<le> full_at l k now" using t(1) by (rule full_at_mono)
  have bound: "now + tau l < u64_max" using t by simp
  show ?case
  proof (cases "is_ok r \<and> key = k")
    case False
    then show ?thesis using allows_full_at(1) [OF bound step, of k] IH mono step by auto
  next
    case True
    then have new: "full_at l' k now = full_at l k now + tt l * n" "full_at l' k now \<le> t1 + tau l"
      using allows_full_at(2) [OF bound step] t(2) by simp_all
    have "granted l (Allow now key n # ops) k = n + granted l' ops k" using True step by simp
    then show ?thesis using IH mono new by (auto simp: distrib_left)
  qed
next
  case (3 l now ops k)
  note t = timely_Cons [OF "3.prems", simplified]
  have "full_at l k t0 \<le> full_at (limiter_prune l now) k now"
    using full_at_mono [OF t(1), of l k] t by (simp add: full_at_prune)
  then show ?case using "3.IH" [of now] t(4) by auto
qed simp

section \<open>The bucket the limiter implements\<close>

text \<open>
  The specification: for every key the time its bucket is full, in unbounded arithmetic, with
  no entry to create and none to prune. \<open>B\<close> is total; a key never seen has a full bucket.
\<close>

definition bucket_allows ::
    "nanos \<Rightarrow> nanos \<Rightarrow> ('k \<Rightarrow> nanos) \<Rightarrow> nanos \<Rightarrow> 'k \<Rightarrow> nat \<Rightarrow>
     (unit, rate_limited_err) result \<times> ('k \<Rightarrow> nanos)" where
  "bucket_allows cap t B now k n =
     (if cap < t * n then (Err TooLarge, B)
      else if now + cap < B k + t * n then (Err (TooSoon (B k + t * n - cap - now)), B)
      else (Ok (), B(k := max now (B k) + t * n)))"

fun bucket_run ::
    "nanos \<Rightarrow> nanos \<Rightarrow> ('k \<Rightarrow> nanos) \<Rightarrow> 'k limiter_op list \<Rightarrow> (unit, rate_limited_err) result list" where
  "bucket_run cap t B [] = []"
| "bucket_run cap t B (Allow now k n # ops) =
     (let (r, B') = bucket_allows cap t B now k n in r # bucket_run cap t B' ops)"
| "bucket_run cap t B (Prune now # ops) = bucket_run cap t B ops"

text \<open>Seen from \<open>now\<close>, both states fill each bucket at the same time, within one capacity.\<close>

definition implements :: "'k limiter \<Rightarrow> ('k \<Rightarrow> nanos) \<Rightarrow> nanos \<Rightarrow> bool" where
  "implements l B now \<longleftrightarrow>
     (\<forall>k. full_at l k now = max now (B k)) \<and> (\<forall>k. B k \<le> now + tau l)"

lemma full_at_later: "a \<le> b \<Longrightarrow> full_at l k b = max b (full_at l k a)"
  by (auto simp: full_at_def split: option.splits)

lemma implements_later: "implements l B a \<Longrightarrow> a \<le> b \<Longrightarrow> implements l B b"
  unfolding implements_def full_at_later [of a b] by (metis add_le_mono1 le_trans max.absorb1 max.assoc)

lemma implements_empty: "tat_per_key l = Map.empty \<Longrightarrow> implements l (\<lambda>_. 0) 0"
  by (simp add: implements_def full_at_def)

lemma implements_prune:
  "implements l B now \<Longrightarrow> now \<le> u64_max \<Longrightarrow> implements (limiter_prune l now) B now"
  by (simp add: implements_def full_at_prune)

lemma allows_implements:
  assumes rel: "implements l B now" and clock: "now + 2 * tau l < u64_max"
  shows "fst (limiter_allows l now k n) = fst (bucket_allows (tau l) (tt l) B now k n)"
    and "implements (snd (limiter_allows l now k n)) (snd (bucket_allows (tau l) (tt l) B now k n)) now"
proof -
  have c: "now + tau l < u64_max" using clock by simp
  have f: "full_at l k now = max now (B k)" "full_at l k now \<le> now + tau l"
    using rel by (auto simp: implements_def)
  from c have "fst (limiter_allows l now k n) = fst (bucket_allows (tau l) (tt l) B now k n) \<and>
    implements (snd (limiter_allows l now k n)) (snd (bucket_allows (tau l) (tt l) B now k n)) now"
  proof (cases rule: allows_cases [where n = n and k = k])
    case large
    then show ?thesis using rel by (simp add: bucket_allows_def)
  next
    case (soon l')
    then have "full_at l k now = B k" using f by auto
    moreover have "full_at l k now + tt l * n \<le> u64_max" using f soon(1) clock by linarith
    ultimately show ?thesis using soon rel
      by (auto simp: bucket_allows_def sat_simps sat_sub_def implements_def)
  next
    case (ok l')
    then have "tau l' = tau l" by (metis allows_params(1) snd_conv)
    moreover have "\<not> now + tau l < B k + tt l * n" using f ok by linarith
    ultimately show ?thesis using ok rel f
      by (auto simp: bucket_allows_def implements_def)
  qed
  then show "fst (limiter_allows l now k n) = fst (bucket_allows (tau l) (tt l) B now k n)"
    and "implements (snd (limiter_allows l now k n)) (snd (bucket_allows (tau l) (tt l) B now k n)) now"
    by simp_all
qed

lemma run_implements:
  assumes "implements l B t0" "timely (tau l) t0 t1 ops" "t1 + 2 * tau l < u64_max"
  shows "fst (limiter_run l ops) = bucket_run (tau l) (tt l) B ops"
  using assms
proof (induction l ops arbitrary: t0 B rule: limiter_run.induct)
  case (2 l now key n ops)
  note t = timely_Cons [OF "2.prems"(2), simplified]
  obtain r l' where step: "limiter_allows l now key n = (r, l')" by fastforce
  obtain r' B' where spec: "bucket_allows (tau l) (tt l) B now key n = (r', B')" by fastforce
  have par: "tau l' = tau l" "tt l' = tt l" using allows_params [of l now key n] step by simp_all
  have rel: "implements l B now" using "2.prems"(1) t(1) by (rule implements_later)
  have "r = r'" "implements l' B' now"
    using allows_implements [OF rel, of key n] "2.prems"(3) t(2) step spec by simp_all
  then show ?case
    using "2.IH" [OF step [symmetric] refl, of B' now] t(4) par "2.prems"(3) step spec
    by (simp split: prod.splits) (metis fst_conv)
next
  case (3 l now ops)
  note t = timely_Cons [OF "3.prems"(2), simplified]
  have "implements (limiter_prune l now) B now"
    using implements_later [OF "3.prems"(1) t(1)] t(2) "3.prems"(3) by (intro implements_prune) auto
  then show ?case using "3.IH" [of B now] t(4) "3.prems"(3) by simp
qed simp

lemma allows_step_params:
  "limiter_allows l now k n = (r, l') \<Longrightarrow> tau l' = tau l \<and> tt l' = tt l"
  by (metis allows_params snd_conv)

lemma run_params [simp]:
  "tau (snd (limiter_run l ops)) = tau l" "tt (snd (limiter_run l ops)) = tt l"
  by (induction l ops rule: limiter_run.induct)
    (auto dest: allows_step_params split: prod.splits)

lemma run_implements_end:
  assumes "implements l B t0" "timely (tau l) t0 t1 ops" "t1 + 2 * tau l < u64_max" "t0 \<le> t1"
  shows "\<exists>B'. implements (snd (limiter_run l ops)) B' t1"
  using assms
proof (induction l ops arbitrary: t0 B rule: limiter_run.induct)
  case (1 l)
  then show ?case using implements_later [of l B t0 t1] by auto
next
  case (2 l now key n ops)
  note t = timely_Cons [OF "2.prems"(2), simplified]
  obtain r l' where step: "limiter_allows l now key n = (r, l')" by fastforce
  have par: "tau l' = tau l" using allows_params [of l now key n] step by simp
  have "implements l B now" using "2.prems"(1) t(1) by (rule implements_later)
  then have "\<exists>B'. implements l' B' now"
    using allows_implements(2) [of l B now key n] "2.prems"(3) t(2) step by auto
  then show ?case
    using "2.IH" [OF step [symmetric] refl] t(2,4) par "2.prems"(3) step
    by (auto split: prod.splits)
next
  case (3 l now ops)
  note t = timely_Cons [OF "3.prems"(2), simplified]
  have "implements (limiter_prune l now) B now"
    using implements_later [OF "3.prems"(1) t(1)] t(2) "3.prems"(3) by (intro implements_prune) auto
  then show ?case using "3.IH" [of B now] t(2,4) "3.prems"(3) by simp
qed

lemma from_quota_fields:
  assumes "limiter_from_quota q = Ok l"
  shows "tau l = replenish_all_every q" "tt l = replenish_all_every q div max_tokens q"
    "tat_per_key l = Map.empty" "0 < tau l"
  using assms by (auto simp: limiter_from_quota_def Let_def split: if_splits)

text \<open>The state of a limiter after a history of calls that ends by \<open>now\<close>.\<close>

lemma reachable_full_at:
  assumes "limiter_from_quota q = Ok l0" "timely (tau l0) 0 now ops" "now + 2 * tau l0 < u64_max"
  shows "full_at (snd (limiter_run l0 ops)) k now \<le> now + tau l0"
proof -
  have "implements l0 (\<lambda>_. 0) 0" using from_quota_fields(3) [OF assms(1)] by (rule implements_empty)
  then obtain B where "implements (snd (limiter_run l0 ops)) B now"
    using run_implements_end assms by blast
  then show ?thesis by (simp add: implements_def)
qed

lemma granted_window:
  assumes "timely (tau l) t0 t1 ops" "t0 \<le> t1"
  shows "tt l * granted l ops k \<le> t1 - t0 + tau l"
proof -
  have "t0 \<le> full_at l k t0" by (auto simp: full_at_def split: option.splits)
  then show ?thesis using granted_full_at [OF assms(1), of k] assms(2) by auto
qed

text \<open>Rounding the replenishing time down does not enlarge a bucket whose tokens are long enough.\<close>

lemma burst_fits:
  assumes "n * (R div m) \<le> R" "m * (m + 1) \<le> R" "0 < m"
  shows "n \<le> (m::nat)"
proof (rule ccontr)
  assume "\<not> n \<le> m"
  then have "(m + 1) * (R div m) \<le> R" using assms(1) le_trans [OF mult_le_mono1 [of "m + 1" n "R div m"]] by simp
  then have "m * (R div m) + R div m \<le> m * (R div m) + R mod m" by (simp add: algebra_simps)
  then have "R div m < m" using mod_less_divisor [OF assms(3), of R] by linarith
  moreover have "m * (m + 1) div m \<le> R div m" by (rule div_le_mono [OF assms(2)])
  ultimately show False using assms(3) by simp
qed

section \<open>Properties\<close>

text \<open>
  C2. The rate is kept in every window: after any history of calls, the tokens granted to one
  key between two instants, at the time each takes to replenish, cover at most the window plus
  one full bucket. This holds with requests of other keys and prunes interleaved.
\<close>

theorem rate_limit_window:
  assumes "limiter_from_quota q = Ok l0" "timely (replenish_all_every q) t0 t1 ops" "t0 \<le> t1"
  shows "granted (snd (limiter_run l0 history)) ops k * (replenish_all_every q div max_tokens q)
           \<le> t1 - t0 + replenish_all_every q"
  using granted_window [of "snd (limiter_run l0 history)" t0 t1 ops k] from_quota_fields [OF assms(1)] assms
  by (simp add: mult.commute)

theorem rate_limit_window_witness:
  "granted (snd (limiter_run \<lparr>tau = secs 10, tt = secs 5, tat_per_key = Map.empty\<rparr> [Allow 0 (2::nat) 1]))
     [Allow 0 2 1, Prune 3, Allow (secs 4) 2 1] 2 * secs 5 \<le> secs 4 - 0 + secs 10"
  using rate_limit_window [of "n_every 2 10" "\<lparr>tau = secs 10, tt = secs 5, tat_per_key = Map.empty\<rparr>"
      0 "secs 4" "[Allow 0 2 1, Prune 3, Allow (secs 4) 2 1]" "[Allow 0 2 1]" 2]
  by (simp add: limiter_from_quota_def n_every_def secs_def u64_max_def timely_def)

text \<open>
  C20. The limiter implements the token bucket: on every timely sequence of calls it answers
  exactly as the specification in unbounded arithmetic that keeps a bucket for every key and
  never prunes. Pruning, lazily created entries and saturation are invisible.
\<close>

theorem limiter_refines_bucket:
  assumes "limiter_from_quota q = Ok l0" "timely (replenish_all_every q) 0 t1 ops"
    "t1 + 2 * replenish_all_every q < u64_max"
  shows "fst (limiter_run l0 ops) =
    bucket_run (replenish_all_every q) (replenish_all_every q div max_tokens q) (\<lambda>_. 0) ops"
  using run_implements [of l0 "\<lambda>_. 0" 0 t1 ops] implements_empty [of l0]
    from_quota_fields [OF assms(1)] assms by simp

theorem limiter_refines_bucket_witness:
  "fst (limiter_run \<lparr>tau = secs 10, tt = secs 5, tat_per_key = Map.empty\<rparr>
      [Allow 0 (2::nat) 2, Prune (secs 1), Allow (secs 1) 2 1, Allow (secs 6) 2 1, Allow (secs 7) 2 3]) =
   [Ok (), Err (TooSoon (secs 4)), Ok (), Err TooLarge]"
  using limiter_refines_bucket [of "n_every 2 10" "\<lparr>tau = secs 10, tt = secs 5, tat_per_key = Map.empty\<rparr>"
      "secs 7" "[Allow 0 2 2, Prune (secs 1), Allow (secs 1) 2 1, Allow (secs 6) 2 1, Allow (secs 7) 2 3]"]
  by (simp add: limiter_from_quota_def n_every_def secs_def u64_max_def timely_def bucket_allows_def)

text \<open>
  C33. The waiting time is exact: when a request is refused as too soon with a waiting time \<open>d\<close>,
  the same request is granted at a later instant exactly if at least \<open>d\<close> has passed (with no
  other request of the key in between).
\<close>

theorem too_soon_exact:
  assumes "limiter_from_quota q = Ok l0" "timely (tau l0) 0 now ops" "t + 2 * tau l0 < u64_max"
    "now \<le> t" "limiter_allows (snd (limiter_run l0 ops)) now k n = (Err (TooSoon d), l')"
  shows "is_ok (fst (limiter_allows l' t k n)) \<longleftrightarrow> now + d \<le> t"
proof -
  let ?l = "snd (limiter_run l0 ops)"
  have c: "now + tau ?l < u64_max" "t + tau ?l < u64_max" using assms(3,4) by simp_all
  have bound: "full_at ?l k now \<le> now + tau l0" using assms by (intro reachable_full_at) auto
  from c(1) show ?thesis
  proof (cases rule: allows_cases [where n = n and k = k])
    case (soon l'')
    have l': "l' = l''" using soon assms(5) by simp
    have "full_at ?l k now + tt ?l * n \<le> u64_max" using bound soon(1) assms(3,4) by simp
    then have d: "now + d + tau l0 = full_at ?l k now + tt l0 * n"
      using soon assms(5) by (simp add: sat_simps sat_sub_def)
    have par: "tau l' = tau l0" "tt l' = tt l0" using allows_params [of ?l now k n] assms(5) by simp_all
    have full: "full_at l' k t = max t (full_at ?l k now)"
      using soon(4) l' assms(4) by (simp add: full_at_later [of now t])
    from c(2) have c': "t + tau l' < u64_max" by (simp add: par)
    then show ?thesis
      by (cases rule: allows_cases [where n = n and k = k]) (use soon(1) d full par in auto)
  qed (use assms(5) in auto)
qed

theorem too_soon_exact_witness:
  "is_ok (fst (limiter_allows \<lparr>tau = secs 10, tt = secs 5, tat_per_key = [1 \<mapsto> secs 10]\<rparr> (secs 5) (1::nat) 1))"
proof -
  let ?l0 = "\<lparr>tau = secs 10, tt = secs 5, tat_per_key = Map.empty\<rparr> :: nat limiter"
  have "is_ok (fst (limiter_allows \<lparr>tau = secs 10, tt = secs 5, tat_per_key = [1 \<mapsto> secs 10]\<rparr> (secs 5) (1::nat) 1))
    \<longleftrightarrow> 0 + secs 5 \<le> secs 5"
    by (rule too_soon_exact [of "n_every 2 10" ?l0 0 "[Allow 0 1 2]"])
      (simp_all add: limiter_from_quota_def limiter_allows_def n_every_def secs_def u64_max_def timely_def
        as_u64_def sat_mul_def sat_add_def sat_sub_def)
  then show ?thesis by simp
qed

text \<open>
  No key starves: after any history, a batch that fits the quota is granted once the time
  that replenishes it has passed since the last call, even if that call was refused.
\<close>

theorem batch_eventually_granted:
  assumes "limiter_from_quota q = Ok l0" "timely (tau l0) 0 now ops" "t + 2 * tau l0 < u64_max"
    "n \<le> max_tokens q" "now + n * (replenish_all_every q div max_tokens q) \<le> t"
  shows "is_ok (fst (limiter_allows (snd (limiter_run l0 ops)) t k n))"
proof -
  let ?l = "snd (limiter_run l0 ops)"
  note q = from_quota_fields [OF assms(1)]
  have le: "now \<le> t" using assms(5) by simp
  have bound: "full_at ?l k now \<le> now + tau l0"
    using assms le by (intro reachable_full_at) auto
  have fit: "tt l0 * n \<le> tau l0"
    using assms(4) q(1,2) by (metis div_times_less_eq_dividend le_trans mult_le_mono2)
  have c: "t + tau ?l < u64_max" using assms(3) by simp
  then show ?thesis
    by (cases rule: allows_cases [where n = n and k = k])
      (use bound fit assms(5) q(2) in \<open>auto simp: full_at_later [OF le] mult.commute\<close>)
qed

theorem batch_eventually_granted_witness:
  "is_ok (fst (limiter_allows (snd (limiter_run \<lparr>tau = secs 10, tt = secs 5, tat_per_key = Map.empty\<rparr>
     [Allow 0 (1::nat) 2, Allow (secs 1) 1 1])) (secs 6) 1 1))"
  by (rule batch_eventually_granted [of "n_every 2 10" _ "secs 1"])
    (simp_all add: limiter_from_quota_def n_every_def secs_def u64_max_def timely_def)

end
