(* ===== verification/Protocol.thy ===== *)
theory Protocol
  imports Prelude
begin

text \<open>
  The protocol tables of \<open>rpc/protocol.rs\<close>: protocol names, the supported name and version
  pairs, the protocol ids they are negotiated under, and the length limits of their messages.
  The SSZ sizes of containers, the preset constants and the functions of the chain
  configuration belong to other crates; they are the records \<open>ssz_sizes\<close> and \<open>chain_config\<close>,
  arguments of the definitions that use them.
\<close>

section \<open>Protocols\<close>

datatype protocol =
    Status
  | Goodbye
  | BlocksByRange
  | BlocksByRoot
  | BlobsByRange
  | BlobsByRoot
  | DataColumnsByRoot
  | DataColumnsByRange
  | Ping
  | MetaData
  | LightClientBootstrap
  | LightClientOptimisticUpdate
  | LightClientFinalityUpdate
  | LightClientUpdatesByRange

text \<open>The names the strum attributes of the enum give to its variants.\<close>

fun protocol_name :: "protocol \<Rightarrow> string" where
  "protocol_name Status = ''status''"
| "protocol_name Goodbye = ''goodbye''"
| "protocol_name BlocksByRange = ''beacon_blocks_by_range''"
| "protocol_name BlocksByRoot = ''beacon_blocks_by_root''"
| "protocol_name BlobsByRange = ''blob_sidecars_by_range''"
| "protocol_name BlobsByRoot = ''blob_sidecars_by_root''"
| "protocol_name DataColumnsByRoot = ''data_column_sidecars_by_root''"
| "protocol_name DataColumnsByRange = ''data_column_sidecars_by_range''"
| "protocol_name Ping = ''ping''"
| "protocol_name MetaData = ''metadata''"
| "protocol_name LightClientBootstrap = ''light_client_bootstrap''"
| "protocol_name LightClientOptimisticUpdate = ''light_client_optimistic_update''"
| "protocol_name LightClientFinalityUpdate = ''light_client_finality_update''"
| "protocol_name LightClientUpdatesByRange = ''light_client_updates_by_range''"

definition all_protocols :: "protocol list" where
  "all_protocols =
     [Status, Goodbye, BlocksByRange, BlocksByRoot, BlobsByRange, BlobsByRoot, DataColumnsByRoot,
      DataColumnsByRange, Ping, MetaData, LightClientBootstrap, LightClientOptimisticUpdate,
      LightClientFinalityUpdate, LightClientUpdatesByRange]"

definition protocol_from_str :: "string \<Rightarrow> protocol option" where
  "protocol_from_str s = find (\<lambda>p. protocol_name p = s) all_protocols"

datatype response_termination =
    EndBlocksByRange
  | EndBlocksByRoot
  | EndBlobsByRange
  | EndBlobsByRoot
  | EndDataColumnsByRoot
  | EndDataColumnsByRange
  | EndLightClientUpdatesByRange

text \<open>
  \<open>Protocol::terminator\<close>. The source ends in \<open>todo!()\<close> for \<open>LightClientUpdatesByRange\<close>: the
  outer \<open>None\<close> is that panic.
\<close>

fun terminator :: "protocol \<Rightarrow> response_termination option option" where
  "terminator Status = Some None"
| "terminator Goodbye = Some None"
| "terminator BlocksByRange = Some (Some EndBlocksByRange)"
| "terminator BlocksByRoot = Some (Some EndBlocksByRoot)"
| "terminator BlobsByRange = Some (Some EndBlobsByRange)"
| "terminator BlobsByRoot = Some (Some EndBlobsByRoot)"
| "terminator DataColumnsByRoot = Some (Some EndDataColumnsByRoot)"
| "terminator DataColumnsByRange = Some (Some EndDataColumnsByRange)"
| "terminator Ping = Some None"
| "terminator MetaData = Some None"
| "terminator LightClientBootstrap = Some None"
| "terminator LightClientOptimisticUpdate = Some None"
| "terminator LightClientFinalityUpdate = Some None"
| "terminator LightClientUpdatesByRange = None"

fun as_protocol :: "response_termination \<Rightarrow> protocol" where
  "as_protocol EndBlocksByRange = BlocksByRange"
| "as_protocol EndBlocksByRoot = BlocksByRoot"
| "as_protocol EndBlobsByRange = BlobsByRange"
| "as_protocol EndBlobsByRoot = BlobsByRoot"
| "as_protocol EndDataColumnsByRoot = DataColumnsByRoot"
| "as_protocol EndDataColumnsByRange = DataColumnsByRange"
| "as_protocol EndLightClientUpdatesByRange = LightClientUpdatesByRange"

datatype encoding = SSZSnappy

fun encoding_name :: "encoding \<Rightarrow> string" where
  "encoding_name SSZSnappy = ''ssz_snappy''"

datatype supported_protocol =
    StatusV1 | StatusV2 | GoodbyeV1
  | BlocksByRangeV1 | BlocksByRangeV2 | BlocksByRootV1 | BlocksByRootV2
  | BlobsByRangeV1 | BlobsByRootV1
  | DataColumnsByRootV1 | DataColumnsByRangeV1
  | PingV1
  | MetaDataV1 | MetaDataV2 | MetaDataV3
  | LightClientBootstrapV1 | LightClientOptimisticUpdateV1 | LightClientFinalityUpdateV1
  | LightClientUpdatesByRangeV1

fun version_string :: "supported_protocol \<Rightarrow> string" where
  "version_string StatusV1 = ''1''"
| "version_string StatusV2 = ''2''"
| "version_string GoodbyeV1 = ''1''"
| "version_string BlocksByRangeV1 = ''1''"
| "version_string BlocksByRangeV2 = ''2''"
| "version_string BlocksByRootV1 = ''1''"
| "version_string BlocksByRootV2 = ''2''"
| "version_string BlobsByRangeV1 = ''1''"
| "version_string BlobsByRootV1 = ''1''"
| "version_string DataColumnsByRootV1 = ''1''"
| "version_string DataColumnsByRangeV1 = ''1''"
| "version_string PingV1 = ''1''"
| "version_string MetaDataV1 = ''1''"
| "version_string MetaDataV2 = ''2''"
| "version_string MetaDataV3 = ''3''"
| "version_string LightClientBootstrapV1 = ''1''"
| "version_string LightClientOptimisticUpdateV1 = ''1''"
| "version_string LightClientFinalityUpdateV1 = ''1''"
| "version_string LightClientUpdatesByRangeV1 = ''1''"

fun protocol_of :: "supported_protocol \<Rightarrow> protocol" where
  "protocol_of StatusV1 = Status"
| "protocol_of StatusV2 = Status"
| "protocol_of GoodbyeV1 = Goodbye"
| "protocol_of BlocksByRangeV1 = BlocksByRange"
| "protocol_of BlocksByRangeV2 = BlocksByRange"
| "protocol_of BlocksByRootV1 = BlocksByRoot"
| "protocol_of BlocksByRootV2 = BlocksByRoot"
| "protocol_of BlobsByRangeV1 = BlobsByRange"
| "protocol_of BlobsByRootV1 = BlobsByRoot"
| "protocol_of DataColumnsByRootV1 = DataColumnsByRoot"
| "protocol_of DataColumnsByRangeV1 = DataColumnsByRange"
| "protocol_of PingV1 = Ping"
| "protocol_of MetaDataV1 = MetaData"
| "protocol_of MetaDataV2 = MetaData"
| "protocol_of MetaDataV3 = MetaData"
| "protocol_of LightClientBootstrapV1 = LightClientBootstrap"
| "protocol_of LightClientOptimisticUpdateV1 = LightClientOptimisticUpdate"
| "protocol_of LightClientFinalityUpdateV1 = LightClientFinalityUpdate"
| "protocol_of LightClientUpdatesByRangeV1 = LightClientUpdatesByRange"

section \<open>Protocol ids\<close>

record protocol_id =
  versioned_protocol :: supported_protocol
  encoding_of :: encoding
  id_string :: string

abbreviation PROTOCOL_PREFIX :: string where
  "PROTOCOL_PREFIX \<equiv> ''/eth2/beacon_chain/req''"

definition protocol_id_new :: "supported_protocol \<Rightarrow> encoding \<Rightarrow> protocol_id" where
  "protocol_id_new v e =
     \<lparr>versioned_protocol = v, encoding_of = e,
      id_string = PROTOCOL_PREFIX @ ''/'' @ protocol_name (protocol_of v) @ ''/'' @ version_string v
                    @ ''/'' @ encoding_name e\<rparr>"

fun has_context_bytes :: "supported_protocol \<Rightarrow> bool" where
  "has_context_bytes BlocksByRangeV2 = True"
| "has_context_bytes BlocksByRootV2 = True"
| "has_context_bytes BlobsByRangeV1 = True"
| "has_context_bytes BlobsByRootV1 = True"
| "has_context_bytes DataColumnsByRootV1 = True"
| "has_context_bytes DataColumnsByRangeV1 = True"
| "has_context_bytes LightClientBootstrapV1 = True"
| "has_context_bytes LightClientOptimisticUpdateV1 = True"
| "has_context_bytes LightClientFinalityUpdateV1 = True"
| "has_context_bytes LightClientUpdatesByRangeV1 = True"
| "has_context_bytes StatusV1 = False"
| "has_context_bytes StatusV2 = False"
| "has_context_bytes BlocksByRootV1 = False"
| "has_context_bytes BlocksByRangeV1 = False"
| "has_context_bytes PingV1 = False"
| "has_context_bytes MetaDataV1 = False"
| "has_context_bytes MetaDataV2 = False"
| "has_context_bytes MetaDataV3 = False"
| "has_context_bytes GoodbyeV1 = False"

text \<open>
  \<open>currently_supported\<close> asks the chain configuration whether PeerDAS is scheduled and the fork
  context whether Deneb exists.
\<close>

definition currently_supported :: "bool \<Rightarrow> bool \<Rightarrow> protocol_id list" where
  "currently_supported is_peerdas_scheduled deneb_exists =
     map (\<lambda>v. protocol_id_new v SSZSnappy)
       ([StatusV2, StatusV1, GoodbyeV1, BlocksByRangeV2, BlocksByRangeV1, BlocksByRootV2,
         BlocksByRootV1, PingV1]
        @ (if is_peerdas_scheduled then [MetaDataV3, MetaDataV2, MetaDataV1]
           else [MetaDataV2, MetaDataV1])
        @ (if deneb_exists then [BlobsByRootV1, BlobsByRangeV1] else [])
        @ (if is_peerdas_scheduled then [DataColumnsByRootV1, DataColumnsByRangeV1] else []))"

definition protocol_info :: "bool \<Rightarrow> bool \<Rightarrow> bool \<Rightarrow> protocol_id list" where
  "protocol_info is_peerdas_scheduled deneb_exists enable_light_client_server =
     currently_supported is_peerdas_scheduled deneb_exists
     @ (if enable_light_client_server
        then map (\<lambda>v. protocol_id_new v SSZSnappy)
               [LightClientBootstrapV1, LightClientOptimisticUpdateV1, LightClientFinalityUpdateV1]
        else [])"

section \<open>Length limits\<close>

text \<open>
  \<open>phase\<close> has the variants of the \<open>Phase\<close> enum the source matches on, in the order of the
  forks, which is the order its comparisons use.
\<close>

datatype phase = Phase0 | Altair | Bellatrix | Capella | Deneb | Electra | Fulu | Gloas

fun phase_index :: "phase \<Rightarrow> nat" where
  "phase_index Phase0 = 0"
| "phase_index Altair = 1"
| "phase_index Bellatrix = 2"
| "phase_index Capella = 3"
| "phase_index Deneb = 4"
| "phase_index Electra = 5"
| "phase_index Fulu = 6"
| "phase_index Gloas = 7"

lemma phase_index_inj: "phase_index a = phase_index b \<Longrightarrow> a = b"
  by (cases a; cases b) simp_all

instantiation phase :: linorder
begin

definition less_eq_phase :: "phase \<Rightarrow> phase \<Rightarrow> bool" where
  "less_eq_phase a b \<longleftrightarrow> phase_index a \<le> phase_index b"

definition less_phase :: "phase \<Rightarrow> phase \<Rightarrow> bool" where
  "less_phase a b \<longleftrightarrow> phase_index a < phase_index b"

instance
  by standard (auto simp: less_eq_phase_def less_phase_def intro: phase_index_inj)

end

record rpc_limits =
  min_len :: nat
  max_len :: nat

definition rpc_limits_new :: "nat \<Rightarrow> nat \<Rightarrow> rpc_limits" where
  "rpc_limits_new mn mx = \<lparr>min_len = mn, max_len = mx\<rparr>"

definition is_out_of_bounds :: "rpc_limits \<Rightarrow> nat \<Rightarrow> nat \<Rightarrow> bool" where
  "is_out_of_bounds lims len max_rpc_size \<longleftrightarrow> min (max_len lims) max_rpc_size < len \<or> len < min_len lims"

abbreviation SIGNED_BEACON_BLOCK_PHASE0_MIN :: nat where
  "SIGNED_BEACON_BLOCK_PHASE0_MIN \<equiv> 404"
abbreviation SIGNED_BEACON_BLOCK_PHASE0_MAX :: nat where
  "SIGNED_BEACON_BLOCK_PHASE0_MAX \<equiv> 157756"
abbreviation SIGNED_BEACON_BLOCK_ALTAIR_MAX :: nat where
  "SIGNED_BEACON_BLOCK_ALTAIR_MAX \<equiv> 157916"
abbreviation SIGNED_BEACON_BLOCK_BELLATRIX_MAX :: nat where
  "SIGNED_BEACON_BLOCK_BELLATRIX_MAX \<equiv> 1125899911195388"
abbreviation BLOB_SIDECAR_MIN :: nat where
  "BLOB_SIDECAR_MIN \<equiv> 131928"
abbreviation BLOB_SIDECAR_MAX :: nat where
  "BLOB_SIDECAR_MAX \<equiv> 131928"
abbreviation BLOB_SIDECAR_MINIMAL_MIN :: nat where
  "BLOB_SIDECAR_MINIMAL_MIN \<equiv> 131704"
abbreviation BLOB_SIDECAR_MINIMAL_MAX :: nat where
  "BLOB_SIDECAR_MINIMAL_MAX \<equiv> 131704"

text \<open>
  Sizes the SSZ derive macros and the preset give, and the functions of the chain configuration,
  as the source reads them.
\<close>

record ssz_sizes =
  status_v1_size :: nat
  status_v2_size :: nat
  goodbye_size :: nat
  old_blocks_by_range_v2_size :: nat
  h256_size :: nat
  blobs_by_range_size :: nat
  blob_identifier_size :: nat
  data_columns_by_range_min :: nat
  data_columns_by_range_max :: nat
  ping_size :: nat
  light_client_bootstrap_request_size :: nat
  metadata_v1_size :: nat
  metadata_v3_size :: nat
  altair_bootstrap_size :: nat
  altair_optimistic_size :: nat
  altair_finality_size :: nat
  altair_update_size :: nat
  max_extra_data_bytes :: nat
  data_column_fulu_min :: nat
  data_column_fulu_max :: nat
  data_column_gloas_min :: nat
  data_column_gloas_max :: nat
  minimal_preset :: bool

record chain_config =
  max_request_blocks :: "phase \<Rightarrow> nat"
  max_request_blob_sidecars :: "phase \<Rightarrow> nat"
  max_data_columns_by_root_request :: nat
  max_blobs_per_block :: "nat \<Rightarrow> nat"
  cfg_max_request_blocks :: nat
  cfg_max_request_blocks_deneb :: nat
  cfg_custody_requirement :: nat
  sync_committee_subnet_count :: nat

fun rpc_block_limits_by_fork :: "phase \<Rightarrow> rpc_limits" where
  "rpc_block_limits_by_fork Phase0 =
     rpc_limits_new SIGNED_BEACON_BLOCK_PHASE0_MIN SIGNED_BEACON_BLOCK_PHASE0_MAX"
| "rpc_block_limits_by_fork Altair =
     rpc_limits_new SIGNED_BEACON_BLOCK_PHASE0_MIN SIGNED_BEACON_BLOCK_ALTAIR_MAX"
| "rpc_block_limits_by_fork _ =
     rpc_limits_new SIGNED_BEACON_BLOCK_PHASE0_MIN SIGNED_BEACON_BLOCK_BELLATRIX_MAX"

text \<open>The four light client limit functions differ in the fixed length they start from.\<close>

definition light_client_limits :: "nat \<Rightarrow> nat \<Rightarrow> phase \<Rightarrow> rpc_limits" where
  "light_client_limits altair_fixed_len extra p =
     (case p of
        Phase0 \<Rightarrow> rpc_limits_new 0 0
      | Altair \<Rightarrow> rpc_limits_new altair_fixed_len altair_fixed_len
      | Bellatrix \<Rightarrow> rpc_limits_new altair_fixed_len altair_fixed_len
      | _ \<Rightarrow> rpc_limits_new altair_fixed_len (altair_fixed_len + extra))"

definition rpc_light_client_updates_by_range_limits_by_fork :: "ssz_sizes \<Rightarrow> phase \<Rightarrow> rpc_limits" where
  "rpc_light_client_updates_by_range_limits_by_fork z =
     light_client_limits (altair_update_size z) (max_extra_data_bytes z)"

definition rpc_light_client_finality_update_limits_by_fork :: "ssz_sizes \<Rightarrow> phase \<Rightarrow> rpc_limits" where
  "rpc_light_client_finality_update_limits_by_fork z =
     light_client_limits (altair_finality_size z) (max_extra_data_bytes z)"

definition rpc_light_client_optimistic_update_limits_by_fork :: "ssz_sizes \<Rightarrow> phase \<Rightarrow> rpc_limits" where
  "rpc_light_client_optimistic_update_limits_by_fork z =
     light_client_limits (altair_optimistic_size z) (max_extra_data_bytes z)"

definition rpc_light_client_bootstrap_limits_by_fork :: "ssz_sizes \<Rightarrow> phase \<Rightarrow> rpc_limits" where
  "rpc_light_client_bootstrap_limits_by_fork z =
     light_client_limits (altair_bootstrap_size z) (max_extra_data_bytes z)"

definition rpc_blob_limits :: "ssz_sizes \<Rightarrow> rpc_limits" where
  "rpc_blob_limits z =
     (if minimal_preset z then rpc_limits_new BLOB_SIDECAR_MINIMAL_MIN BLOB_SIDECAR_MINIMAL_MAX
      else rpc_limits_new BLOB_SIDECAR_MIN BLOB_SIDECAR_MAX)"

definition rpc_data_column_limits :: "ssz_sizes \<Rightarrow> phase \<Rightarrow> rpc_limits" where
  "rpc_data_column_limits z p =
     (if Gloas \<le> p then rpc_limits_new (data_column_gloas_min z) (data_column_gloas_max z)
      else rpc_limits_new (data_column_fulu_min z) (data_column_fulu_max z))"

fun rpc_request_limits :: "ssz_sizes \<Rightarrow> chain_config \<Rightarrow> phase \<Rightarrow> protocol \<Rightarrow> rpc_limits" where
  "rpc_request_limits z cfg p Status = rpc_limits_new (status_v1_size z) (status_v2_size z)"
| "rpc_request_limits z cfg p Goodbye = rpc_limits_new (goodbye_size z) (goodbye_size z)"
| "rpc_request_limits z cfg p BlocksByRange =
     rpc_limits_new (old_blocks_by_range_v2_size z) (old_blocks_by_range_v2_size z)"
| "rpc_request_limits z cfg p BlocksByRoot =
     rpc_limits_new 0 (max_request_blocks cfg Phase0 * h256_size z)"
| "rpc_request_limits z cfg p BlobsByRange =
     rpc_limits_new (blobs_by_range_size z) (blobs_by_range_size z)"
| "rpc_request_limits z cfg p BlobsByRoot =
     rpc_limits_new 0 (max_request_blob_sidecars cfg p * blob_identifier_size z)"
| "rpc_request_limits z cfg p DataColumnsByRoot =
     rpc_limits_new 0 (max_data_columns_by_root_request cfg)"
| "rpc_request_limits z cfg p DataColumnsByRange =
     rpc_limits_new (data_columns_by_range_min z) (data_columns_by_range_max z)"
| "rpc_request_limits z cfg p Ping = rpc_limits_new (ping_size z) (ping_size z)"
| "rpc_request_limits z cfg p LightClientBootstrap =
     rpc_limits_new (light_client_bootstrap_request_size z) (light_client_bootstrap_request_size z)"
| "rpc_request_limits z cfg p LightClientOptimisticUpdate = rpc_limits_new 0 0"
| "rpc_request_limits z cfg p LightClientFinalityUpdate = rpc_limits_new 0 0"
| "rpc_request_limits z cfg p LightClientUpdatesByRange = rpc_limits_new 0 0"
| "rpc_request_limits z cfg p MetaData = rpc_limits_new 0 0"

fun rpc_response_limits :: "ssz_sizes \<Rightarrow> phase \<Rightarrow> protocol \<Rightarrow> rpc_limits" where
  "rpc_response_limits z p Status = rpc_limits_new (status_v1_size z) (status_v2_size z)"
| "rpc_response_limits z p Goodbye = rpc_limits_new 0 0"
| "rpc_response_limits z p BlocksByRange = rpc_block_limits_by_fork p"
| "rpc_response_limits z p BlocksByRoot = rpc_block_limits_by_fork p"
| "rpc_response_limits z p BlobsByRange = rpc_blob_limits z"
| "rpc_response_limits z p BlobsByRoot = rpc_blob_limits z"
| "rpc_response_limits z p DataColumnsByRoot = rpc_data_column_limits z p"
| "rpc_response_limits z p DataColumnsByRange = rpc_data_column_limits z p"
| "rpc_response_limits z p Ping = rpc_limits_new (ping_size z) (ping_size z)"
| "rpc_response_limits z p MetaData = rpc_limits_new (metadata_v1_size z) (metadata_v3_size z)"
| "rpc_response_limits z p LightClientBootstrap = rpc_light_client_bootstrap_limits_by_fork z p"
| "rpc_response_limits z p LightClientOptimisticUpdate =
     rpc_light_client_optimistic_update_limits_by_fork z p"
| "rpc_response_limits z p LightClientFinalityUpdate =
     rpc_light_client_finality_update_limits_by_fork z p"
| "rpc_response_limits z p LightClientUpdatesByRange =
     rpc_light_client_updates_by_range_limits_by_fork z p"

section \<open>Facts on the tables\<close>

lemma all_protocols_complete [simp]: "p \<in> set all_protocols"
  by (cases p) (simp_all add: all_protocols_def)

lemma protocol_name_inj: "protocol_name p = protocol_name q \<longleftrightarrow> p = q"
  by (cases p; cases q) simp_all

lemma find_protocol_name: "p \<in> set ps \<Longrightarrow> find (\<lambda>q. protocol_name q = protocol_name p) ps = Some p"
  by (induction ps) (auto simp: protocol_name_inj)

lemma version_string_inj:
  "protocol_of v = protocol_of w \<Longrightarrow> version_string v = version_string w \<Longrightarrow> v = w"
  by (cases v; cases w) simp_all

lemma name_without_slash: "CHR ''/'' \<notin> set (protocol_name p)" "CHR ''/'' \<notin> set (version_string v)"
  by (cases p, simp_all) (cases v, simp_all)

section \<open>Properties\<close>

text \<open>
  Protocol negotiation is unambiguous: two versioned protocols with the same id string are
  the same protocol in the same version.
\<close>

theorem protocol_id_inj:
  "id_string (protocol_id_new v e) = id_string (protocol_id_new w e') \<longleftrightarrow> v = w"
proof -
  have e: "e = e'" by (cases e; cases e') simp
  have "id_string (protocol_id_new v e) = id_string (protocol_id_new w e') \<longleftrightarrow>
      protocol_name (protocol_of v) @ CHR ''/'' # version_string v @ CHR ''/'' # encoding_name e =
      protocol_name (protocol_of w) @ CHR ''/'' # version_string w @ CHR ''/'' # encoding_name e'"
    by (simp add: protocol_id_new_def)
  also have "\<dots> \<longleftrightarrow> protocol_of v = protocol_of w \<and> version_string v = version_string w"
    by (simp add: append_sep_inj name_without_slash protocol_name_inj e)
  also have "\<dots> \<longleftrightarrow> v = w" by (auto intro: version_string_inj)
  finally show ?thesis .
qed

text \<open>
  What a node advertises is safe to serve: the advertised ids are distinct, and for none of
  them does \<open>Protocol::terminator\<close> hit its \<open>todo!()\<close>, whatever forks are scheduled and whether or
  not the light client server is enabled.
\<close>

theorem advertised_protocols_ok:
  "distinct (map id_string (protocol_info das deneb light)) \<and>
   list_all (\<lambda>i. terminator (protocol_of (versioned_protocol i)) \<noteq> None) (protocol_info das deneb light)"
  by (cases das; cases deneb; cases light)
    (simp_all add: protocol_info_def currently_supported_def protocol_id_new_def)

text \<open>
  The block length limits only widen from fork to fork: a length accepted before a fork is
  accepted after it, under every maximal RPC size.
\<close>

theorem block_limits_widen:
  assumes "p \<le> q" "\<not> is_out_of_bounds (rpc_block_limits_by_fork p) len max_rpc_size"
  shows "\<not> is_out_of_bounds (rpc_block_limits_by_fork q) len max_rpc_size"
  using assms
  by (cases p; cases q)
    (auto simp: is_out_of_bounds_def rpc_limits_new_def less_eq_phase_def)

theorem block_limits_widen_witness:
  "\<not> is_out_of_bounds (rpc_block_limits_by_fork Gloas) 1000 (10 * 1048576)"
  by (rule block_limits_widen [of Altair])
    (simp_all add: less_eq_phase_def is_out_of_bounds_def rpc_limits_new_def)

end
