(* ===== verification/RpcConfig.thy ===== *)
theory RpcConfig
  imports RateLimiter Protocol
begin

text \<open>
  The rate limiter configuration of \<open>rpc/config.rs\<close>: default quotas, the textual form of a
  protocol quota, and the parser of a configuration string.
\<close>

section \<open>Numbers and separators of the standard library\<close>

definition digit_char :: "nat \<Rightarrow> char" where
  "digit_char d = char_of (48 + d)"

definition digit_value :: "char \<Rightarrow> nat option" where
  "digit_value c = (let n = (of_char c :: nat) in if 48 \<le> n \<and> n \<le> 57 then Some (n - 48) else None)"

text \<open>\<open>Display\<close> of an unsigned integer.\<close>

fun show_nat :: "nat \<Rightarrow> string" where
  "show_nat n = (if n < 10 then [digit_char n] else show_nat (n div 10) @ [digit_char (n mod 10)])"

declare show_nat.simps [simp del]

fun digits_value :: "nat \<Rightarrow> string \<Rightarrow> nat option" where
  "digits_value acc [] = Some acc"
| "digits_value acc (c # cs) =
     (case digit_value c of None \<Rightarrow> None | Some d \<Rightarrow> digits_value (acc * 10 + d) cs)"

text \<open>
  \<open>u64::from_str\<close>: an optional plus sign, at least one digit, no overflow. \<open>NonZeroU64\<close> refuses
  zero on top of that.
\<close>

definition strip_plus :: "string \<Rightarrow> string" where
  "strip_plus s = (case s of c # cs \<Rightarrow> if c = CHR ''+'' \<and> cs \<noteq> [] then cs else s | [] \<Rightarrow> s)"

definition parse_u64 :: "string \<Rightarrow> nat option" where
  "parse_u64 s =
     (if s = [] then None
      else case digits_value 0 (strip_plus s) of
             None \<Rightarrow> None
           | Some n \<Rightarrow> if n \<le> u64_max then Some n else None)"

definition parse_nonzero_u64 :: "string \<Rightarrow> nat option" where
  "parse_nonzero_u64 s =
     (case parse_u64 s of None \<Rightarrow> None | Some n \<Rightarrow> if n = 0 then None else Some n)"

text \<open>\<open>str::split_once\<close> and \<open>str::split\<close> with a single character.\<close>

fun split_once :: "char \<Rightarrow> string \<Rightarrow> (string \<times> string) option" where
  "split_once c [] = None"
| "split_once c (x # xs) =
     (if x = c then Some ([], xs)
      else case split_once c xs of None \<Rightarrow> None | Some (a, b) \<Rightarrow> Some (x # a, b))"

fun split_on :: "char \<Rightarrow> string \<Rightarrow> string list" where
  "split_on c [] = [[]]"
| "split_on c (x # xs) =
     (if x = c then [] # split_on c xs
      else case split_on c xs of [] \<Rightarrow> [[x]] | y # ys \<Rightarrow> (x # y) # ys)"

section \<open>Quotas of a protocol\<close>

record protocol_quota =
  pq_protocol :: protocol
  pq_quota :: quota

definition as_secs :: "nanos \<Rightarrow> nat" where
  "as_secs d = d div 1000000000"

definition protocol_quota_fmt :: "protocol_quota \<Rightarrow> string" where
  "protocol_quota_fmt q =
     protocol_name (pq_protocol q) @ '':'' @ show_nat (max_tokens (pq_quota q)) @ ''/''
       @ show_nat (as_secs (replenish_all_every (pq_quota q)))"

definition protocol_quota_from_str :: "string \<Rightarrow> (protocol_quota, string) result" where
  "protocol_quota_from_str s =
     result_bind (ok_or (split_once (CHR '':'') s) ''Missing ':' from quota definition.'')
       (\<lambda>(protocol_str, quota_str).
     result_bind (ok_or (protocol_from_str protocol_str) ''Wrong protocol representation in quota'')
       (\<lambda>p.
     result_bind (ok_or (split_once (CHR ''/'') quota_str)
         ''Quota should be defined as \"n/t\" (t in seconds). Missing '/' from quota.'')
       (\<lambda>(tokens_str, time_str).
     result_bind (ok_or (parse_nonzero_u64 tokens_str) ''Failed to parse tokens from quota.'')
       (\<lambda>tokens.
     result_bind (ok_or (parse_u64 time_str) ''Failed to parse time in seconds from quota.'')
       (\<lambda>seconds.
     Ok \<lparr>pq_protocol = p,
         pq_quota = \<lparr>replenish_all_every = secs seconds, max_tokens = tokens\<rparr>\<rparr>)))))"

section \<open>The configuration\<close>

record rate_limiter_config =
  ping_quota :: quota
  meta_data_quota :: quota
  status_quota :: quota
  goodbye_quota :: quota
  blocks_by_range_quota :: quota
  blocks_by_root_quota :: quota
  blobs_by_range_quota :: quota
  blobs_by_root_quota :: quota
  data_columns_by_root_quota :: quota
  data_columns_by_range_quota :: quota
  light_client_bootstrap_quota :: quota
  light_client_optimistic_update_quota :: quota
  light_client_finality_update_quota :: quota
  light_client_updates_by_range_quota :: quota

definition default_config :: rate_limiter_config where
  "default_config =
     \<lparr>ping_quota = n_every 2 10,
      meta_data_quota = n_every 2 5,
      status_quota = n_every 5 15,
      goodbye_quota = one_every 10,
      blocks_by_range_quota = n_every 128 10,
      blocks_by_root_quota = n_every 128 10,
      blobs_by_range_quota = n_every 896 10,
      blobs_by_root_quota = n_every 896 10,
      data_columns_by_root_quota = n_every 16384 10,
      data_columns_by_range_quota = n_every 16384 10,
      light_client_bootstrap_quota = one_every 10,
      light_client_optimistic_update_quota = one_every 10,
      light_client_finality_update_quota = one_every 10,
      light_client_updates_by_range_quota = one_every 10\<rparr>"

text \<open>The quota a configuration holds for a protocol, read off the field names.\<close>

fun config_quota :: "rate_limiter_config \<Rightarrow> protocol \<Rightarrow> quota" where
  "config_quota c Ping = ping_quota c"
| "config_quota c MetaData = meta_data_quota c"
| "config_quota c Status = status_quota c"
| "config_quota c Goodbye = goodbye_quota c"
| "config_quota c BlocksByRange = blocks_by_range_quota c"
| "config_quota c BlocksByRoot = blocks_by_root_quota c"
| "config_quota c BlobsByRange = blobs_by_range_quota c"
| "config_quota c BlobsByRoot = blobs_by_root_quota c"
| "config_quota c DataColumnsByRoot = data_columns_by_root_quota c"
| "config_quota c DataColumnsByRange = data_columns_by_range_quota c"
| "config_quota c LightClientBootstrap = light_client_bootstrap_quota c"
| "config_quota c LightClientOptimisticUpdate = light_client_optimistic_update_quota c"
| "config_quota c LightClientFinalityUpdate = light_client_finality_update_quota c"
| "config_quota c LightClientUpdatesByRange = light_client_updates_by_range_quota c"

text \<open>
  The fourteen \<open>Option<Quota>\<close> variables of \<open>RateLimiterConfig::from_str\<close> are one map from
  protocols; \<open>x = x.or(quota)\<close> keeps the first quota given for a protocol.
\<close>

definition or_quota :: "(protocol \<rightharpoonup> quota) \<Rightarrow> protocol_quota \<Rightarrow> (protocol \<rightharpoonup> quota)" where
  "or_quota m q =
     m(pq_protocol q := (case m (pq_protocol q) of Some x \<Rightarrow> Some x | None \<Rightarrow> Some (pq_quota q)))"

fun parse_protocol_quotas :: "(protocol \<rightharpoonup> quota) \<Rightarrow> string list \<Rightarrow> (protocol \<rightharpoonup> quota, string) result" where
  "parse_protocol_quotas m [] = Ok m"
| "parse_protocol_quotas m (s # ss) =
     result_bind (protocol_quota_from_str s) (\<lambda>q. parse_protocol_quotas (or_quota m q) ss)"

definition unwrap_or :: "'a option \<Rightarrow> 'a \<Rightarrow> 'a" where
  "unwrap_or x d = (case x of None \<Rightarrow> d | Some y \<Rightarrow> y)"

definition config_from_quotas :: "(protocol \<rightharpoonup> quota) \<Rightarrow> rate_limiter_config" where
  "config_from_quotas m =
     \<lparr>ping_quota = unwrap_or (m Ping) (ping_quota default_config),
      meta_data_quota = unwrap_or (m MetaData) (meta_data_quota default_config),
      status_quota = unwrap_or (m Status) (status_quota default_config),
      goodbye_quota = unwrap_or (m Goodbye) (goodbye_quota default_config),
      blocks_by_range_quota = unwrap_or (m BlocksByRange) (blocks_by_range_quota default_config),
      blocks_by_root_quota = unwrap_or (m BlocksByRoot) (blocks_by_root_quota default_config),
      blobs_by_range_quota = unwrap_or (m BlobsByRange) (blobs_by_range_quota default_config),
      blobs_by_root_quota = unwrap_or (m BlobsByRoot) (blobs_by_root_quota default_config),
      data_columns_by_root_quota =
        unwrap_or (m DataColumnsByRoot) (data_columns_by_root_quota default_config),
      data_columns_by_range_quota =
        unwrap_or (m DataColumnsByRange) (data_columns_by_range_quota default_config),
      light_client_bootstrap_quota =
        unwrap_or (m LightClientBootstrap) (light_client_bootstrap_quota default_config),
      light_client_optimistic_update_quota =
        unwrap_or (m LightClientOptimisticUpdate) (light_client_optimistic_update_quota default_config),
      light_client_finality_update_quota =
        unwrap_or (m LightClientFinalityUpdate) (light_client_finality_update_quota default_config),
      light_client_updates_by_range_quota =
        unwrap_or (m LightClientUpdatesByRange) (light_client_updates_by_range_quota default_config)\<rparr>"

definition config_from_str :: "string \<Rightarrow> (rate_limiter_config, string) result" where
  "config_from_str s =
     result_bind (parse_protocol_quotas Map.empty (split_on (CHR '';'') s))
       (\<lambda>m. Ok (config_from_quotas m))"

section \<open>Printing and parsing\<close>

lemma digit_value_char: "d < 10 \<Longrightarrow> digit_value (digit_char d) = Some d"
  by (simp add: digit_value_def digit_char_def)

lemma digits_value_append:
  "digits_value acc (s @ t) = (case digits_value acc s of None \<Rightarrow> None | Some a \<Rightarrow> digits_value a t)"
  by (induction acc s rule: digits_value.induct) (auto split: option.splits)

lemma digits_value_show: "digits_value 0 (show_nat n) = Some n"
proof (induction n rule: show_nat.induct)
  case (1 n)
  then show ?case
    by (cases "n < 10") (simp_all add: show_nat.simps [of n] digits_value_append digit_value_char)
qed

lemma show_nat_nonempty: "show_nat n \<noteq> []"
  by (simp add: show_nat.simps [of n])

lemma show_nat_digits: "c \<in> set (show_nat n) \<Longrightarrow> digit_value c \<noteq> None"
proof (induction n rule: show_nat.induct)
  case (1 n)
  then show ?case
    by (cases "n < 10") (auto simp: show_nat.simps [of n] digit_value_char)
qed

lemma separators_no_digit:
  "digit_value (CHR '':'') = None" "digit_value (CHR ''/'') = None"
  "digit_value (CHR '';'') = None" "digit_value (CHR ''+'') = None"
  by (simp_all add: digit_value_def)

lemma parse_show_u64: "n \<le> u64_max \<Longrightarrow> parse_u64 (show_nat n) = Some n"
proof -
  assume n: "n \<le> u64_max"
  have "strip_plus (show_nat n) = show_nat n"
    using show_nat_digits [of "CHR ''+''" n] separators_no_digit
    by (auto simp: strip_plus_def split: list.splits)
  then show ?thesis using n by (simp add: parse_u64_def show_nat_nonempty digits_value_show)
qed

lemma split_once_append: "c \<notin> set a \<Longrightarrow> split_once c (a @ c # b) = Some (a, b)"
  by (induction a) auto

lemma protocol_name_chars: "CHR '':'' \<notin> set (protocol_name p)" "CHR '';'' \<notin> set (protocol_name p)"
  by (cases p, simp_all)+

text \<open>A quota that the textual form can hold: a non-zero number of tokens over whole seconds.\<close>

definition printable_quota :: "quota \<Rightarrow> bool" where
  "printable_quota q \<longleftrightarrow>
     0 < max_tokens q \<and> max_tokens q \<le> u64_max \<and> as_secs (replenish_all_every q) \<le> u64_max \<and>
     secs (as_secs (replenish_all_every q)) = replenish_all_every q"

lemma protocol_quota_roundtrip:
  assumes "printable_quota (pq_quota q)"
  shows "protocol_quota_from_str (protocol_quota_fmt q) = Ok q"
proof -
  have d: "CHR '':'' \<notin> set (show_nat n)" "CHR ''/'' \<notin> set (show_nat n)" for n
    using show_nat_digits separators_no_digit by metis+
  show ?thesis
    using assms d
    by (simp add: protocol_quota_from_str_def protocol_quota_fmt_def printable_quota_def
        split_once_append protocol_name_chars protocol_from_str_def find_protocol_name
        parse_nonzero_u64_def parse_show_u64)
qed

lemma split_on_nonempty: "split_on c s \<noteq> []"
  by (induction s) (auto split: list.splits)

lemma split_on_no_sep: "c \<notin> set a \<Longrightarrow> split_on c a = [a]"
  by (induction a) auto

lemma split_on_sep: "c \<notin> set a \<Longrightarrow> split_on c (a @ c # b) = a # split_on c b"
  by (induction a) auto

fun join_with :: "char \<Rightarrow> string list \<Rightarrow> string" where
  "join_with c [] = []"
| "join_with c [s] = s"
| "join_with c (s # t # ss) = s @ c # join_with c (t # ss)"

lemma split_join:
  "list_all (\<lambda>s. c \<notin> set s) ss \<Longrightarrow> ss \<noteq> [] \<Longrightarrow> split_on c (join_with c ss) = ss"
  by (induction c ss rule: join_with.induct) (auto simp: split_on_no_sep split_on_sep)

lemma protocol_quota_fmt_no_semicolon: "CHR '';'' \<notin> set (protocol_quota_fmt q)"
  using show_nat_digits separators_no_digit
  by (fastforce simp: protocol_quota_fmt_def protocol_name_chars)

lemma config_quota_from_quotas:
  "config_quota (config_from_quotas m) p = unwrap_or (m p) (config_quota default_config p)"
  by (cases p) (simp_all add: config_from_quotas_def)

lemma parse_printed_quotas:
  assumes "list_all (\<lambda>q. printable_quota (pq_quota q)) qs"
  shows "\<exists>m'. parse_protocol_quotas m (map protocol_quota_fmt qs) = Ok m' \<and>
    (\<forall>p. m' p = (case m p of Some x \<Rightarrow> Some x
                 | None \<Rightarrow> map_option pq_quota (find (\<lambda>q. pq_protocol q = p) qs)))"
  using assms
proof (induction qs arbitrary: m)
  case Nil
  then show ?case by (auto split: option.splits)
next
  case (Cons q qs)
  then obtain m' where run: "parse_protocol_quotas (or_quota m q) (map protocol_quota_fmt qs) = Ok m'"
    and m': "\<And>p. m' p = (case or_quota m q p of Some x \<Rightarrow> Some x
                 | None \<Rightarrow> map_option pq_quota (find (\<lambda>q. pq_protocol q = p) qs))"
    by fastforce
  have "m' p = (case m p of Some x \<Rightarrow> Some x
                 | None \<Rightarrow> map_option pq_quota (find (\<lambda>q. pq_protocol q = p) (q # qs)))" for p
    by (cases "m p"; cases "pq_protocol q = p") (auto simp: m' or_quota_def)
  then show ?case using Cons.prems run by (simp add: protocol_quota_roundtrip)
qed

section \<open>Properties\<close>

text \<open>
  C29. Configuration strings are read back as printed, the first entry of a protocol wins and
  the others keep their defaults: parsing the \<open>;\<close>-separated printed form of any non-empty list of
  printable protocol quotas succeeds, and the quota of each protocol is that of its first entry,
  or the default.
\<close>

theorem config_from_str_roundtrip:
  assumes "qs \<noteq> []" "list_all (\<lambda>q. printable_quota (pq_quota q)) qs"
  shows "\<exists>c. config_from_str (join_with (CHR '';'') (map protocol_quota_fmt qs)) = Ok c \<and>
    (\<forall>p. config_quota c p =
       (case find (\<lambda>q. pq_protocol q = p) qs of
          Some q \<Rightarrow> pq_quota q | None \<Rightarrow> config_quota default_config p))"
proof -
  have split: "split_on (CHR '';'') (join_with (CHR '';'') (map protocol_quota_fmt qs)) = map protocol_quota_fmt qs"
    using assms(1) by (intro split_join) (auto simp: list_all_iff protocol_quota_fmt_no_semicolon)
  obtain m where "parse_protocol_quotas Map.empty (map protocol_quota_fmt qs) = Ok m"
    and m: "\<And>p. m p = map_option pq_quota (find (\<lambda>q. pq_protocol q = p) qs)"
    using parse_printed_quotas [OF assms(2), of Map.empty] by auto
  then show ?thesis
    by (auto simp: config_from_str_def split config_quota_from_quotas unwrap_or_def m split: option.splits)
qed

theorem config_from_str_roundtrip_witness:
  "\<exists>c. config_from_str (join_with (CHR '';'') (map protocol_quota_fmt
         [\<lparr>pq_protocol = Ping, pq_quota = n_every 7 3\<rparr>, \<lparr>pq_protocol = Ping, pq_quota = n_every 9 9\<rparr>])) = Ok c \<and>
       config_quota c Ping = n_every 7 3 \<and> config_quota c Goodbye = one_every 10"
proof -
  let ?qs = "[\<lparr>pq_protocol = Ping, pq_quota = n_every 7 3\<rparr>, \<lparr>pq_protocol = Ping, pq_quota = n_every 9 9\<rparr>]"
  have "list_all (\<lambda>q. printable_quota (pq_quota q)) ?qs"
    by (simp add: printable_quota_def n_every_def secs_def as_secs_def u64_max_def)
  then obtain c where c: "config_from_str (join_with (CHR '';'') (map protocol_quota_fmt ?qs)) = Ok c"
    and all: "\<And>p. config_quota c p = (case find (\<lambda>q. pq_protocol q = p) ?qs of
          Some q \<Rightarrow> pq_quota q | None \<Rightarrow> config_quota default_config p)"
    using config_from_str_roundtrip [of ?qs] by blast
  have "config_quota c Ping = n_every 7 3" "config_quota c Goodbye = one_every 10"
    unfolding all by (simp_all add: default_config_def)
  with c show ?thesis by blast
qed

end
