(* ===== verification/Methods.thy ===== *)
theory Methods
  imports Protocol
begin

text \<open>
  The messages of \<open>rpc/methods.rs\<close> and the request type of \<open>rpc/protocol.rs\<close>: status and
  metadata versions and their conversions, goodbye reasons and error codes with their wire
  numbers, requests with the number of responses they allow.

  Payload types of other crates (blocks, sidecars, light client objects) are type parameters.
  Fields of type \<open>u64\<close> are natural numbers; products of them saturate as in the source.
\<close>

section \<open>Status\<close>

record status_message_v1 =
  s1_fork_digest :: nat
  s1_finalized_root :: nat
  s1_finalized_epoch :: nat
  s1_head_root :: nat
  s1_head_slot :: nat

record status_message_v2 =
  s2_fork_digest :: nat
  s2_finalized_root :: nat
  s2_finalized_epoch :: nat
  s2_head_root :: nat
  s2_head_slot :: nat
  s2_earliest_available_slot :: nat

datatype status_message = StatusMsgV1 status_message_v1 | StatusMsgV2 status_message_v2

fun fork_digest :: "status_message \<Rightarrow> nat" where
  "fork_digest (StatusMsgV1 s) = s1_fork_digest s"
| "fork_digest (StatusMsgV2 s) = s2_fork_digest s"

fun finalized_root :: "status_message \<Rightarrow> nat" where
  "finalized_root (StatusMsgV1 s) = s1_finalized_root s"
| "finalized_root (StatusMsgV2 s) = s2_finalized_root s"

fun finalized_epoch :: "status_message \<Rightarrow> nat" where
  "finalized_epoch (StatusMsgV1 s) = s1_finalized_epoch s"
| "finalized_epoch (StatusMsgV2 s) = s2_finalized_epoch s"

fun head_root :: "status_message \<Rightarrow> nat" where
  "head_root (StatusMsgV1 s) = s1_head_root s"
| "head_root (StatusMsgV2 s) = s2_head_root s"

fun head_slot :: "status_message \<Rightarrow> nat" where
  "head_slot (StatusMsgV1 s) = s1_head_slot s"
| "head_slot (StatusMsgV2 s) = s2_head_slot s"

fun earliest_available_slot :: "status_message \<Rightarrow> nat option" where
  "earliest_available_slot (StatusMsgV1 s) = None"
| "earliest_available_slot (StatusMsgV2 s) = Some (s2_earliest_available_slot s)"

fun status_v1 :: "status_message \<Rightarrow> status_message_v1" where
  "status_v1 (StatusMsgV1 s) = s"
| "status_v1 (StatusMsgV2 s) =
     \<lparr>s1_fork_digest = s2_fork_digest s, s1_finalized_root = s2_finalized_root s,
      s1_finalized_epoch = s2_finalized_epoch s, s1_head_root = s2_head_root s,
      s1_head_slot = s2_head_slot s\<rparr>"

fun status_v2 :: "status_message \<Rightarrow> status_message_v2" where
  "status_v2 (StatusMsgV1 s) =
     \<lparr>s2_fork_digest = s1_fork_digest s, s2_finalized_root = s1_finalized_root s,
      s2_finalized_epoch = s1_finalized_epoch s, s2_head_root = s1_head_root s,
      s2_head_slot = s1_head_slot s, s2_earliest_available_slot = 0\<rparr>"
| "status_v2 (StatusMsgV2 s) = s"

section \<open>Metadata\<close>

text \<open>Subnet bitfields are lists of booleans.\<close>

type_synonym bitfield = "bool list"

record meta_data_v1 =
  m1_seq_number :: nat
  m1_attnets :: bitfield

record meta_data_v2 =
  m2_seq_number :: nat
  m2_attnets :: bitfield
  m2_syncnets :: bitfield

record meta_data_v3 =
  m3_seq_number :: nat
  m3_attnets :: bitfield
  m3_syncnets :: bitfield
  m3_custody_group_count :: nat

datatype meta_data = MetaV1 meta_data_v1 | MetaV2 meta_data_v2 | MetaV3 meta_data_v3

fun seq_number :: "meta_data \<Rightarrow> nat" where
  "seq_number (MetaV1 m) = m1_seq_number m"
| "seq_number (MetaV2 m) = m2_seq_number m"
| "seq_number (MetaV3 m) = m3_seq_number m"

fun attnets :: "meta_data \<Rightarrow> bitfield" where
  "attnets (MetaV1 m) = m1_attnets m"
| "attnets (MetaV2 m) = m2_attnets m"
| "attnets (MetaV3 m) = m3_attnets m"

fun syncnets :: "meta_data \<Rightarrow> bitfield option" where
  "syncnets (MetaV1 m) = None"
| "syncnets (MetaV2 m) = Some (m2_syncnets m)"
| "syncnets (MetaV3 m) = Some (m3_syncnets m)"

fun custody_group_count :: "meta_data \<Rightarrow> nat option" where
  "custody_group_count (MetaV1 m) = None"
| "custody_group_count (MetaV2 m) = None"
| "custody_group_count (MetaV3 m) = Some (m3_custody_group_count m)"

text \<open>The default sync committee bitfield has \<open>SyncCommitteeSubnetCount\<close> cleared bits.\<close>

definition default_syncnets :: "chain_config \<Rightarrow> bitfield" where
  "default_syncnets cfg = replicate (sync_committee_subnet_count cfg) False"

fun metadata_v1 :: "meta_data \<Rightarrow> meta_data" where
  "metadata_v1 (MetaV1 m) = MetaV1 m"
| "metadata_v1 (MetaV2 m) = MetaV1 \<lparr>m1_seq_number = m2_seq_number m, m1_attnets = m2_attnets m\<rparr>"
| "metadata_v1 (MetaV3 m) = MetaV1 \<lparr>m1_seq_number = m3_seq_number m, m1_attnets = m3_attnets m\<rparr>"

fun metadata_v2 :: "chain_config \<Rightarrow> meta_data \<Rightarrow> meta_data" where
  "metadata_v2 cfg (MetaV1 m) =
     MetaV2 \<lparr>m2_seq_number = m1_seq_number m, m2_attnets = m1_attnets m,
             m2_syncnets = default_syncnets cfg\<rparr>"
| "metadata_v2 cfg (MetaV2 m) = MetaV2 m"
| "metadata_v2 cfg (MetaV3 m) =
     MetaV2 \<lparr>m2_seq_number = m3_seq_number m, m2_attnets = m3_attnets m,
             m2_syncnets = m3_syncnets m\<rparr>"

fun metadata_v3 :: "chain_config \<Rightarrow> meta_data \<Rightarrow> meta_data" where
  "metadata_v3 cfg (MetaV1 m) =
     MetaV3 \<lparr>m3_seq_number = m1_seq_number m, m3_attnets = m1_attnets m,
             m3_syncnets = default_syncnets cfg, m3_custody_group_count = cfg_custody_requirement cfg\<rparr>"
| "metadata_v3 cfg (MetaV2 m) =
     MetaV3 \<lparr>m3_seq_number = m2_seq_number m, m3_attnets = m2_attnets m,
             m3_syncnets = m2_syncnets m, m3_custody_group_count = cfg_custody_requirement cfg\<rparr>"
| "metadata_v3 cfg (MetaV3 m) = MetaV3 m"

section \<open>Goodbye reasons\<close>

datatype goodbye_reason =
    ClientShutdown | IrrelevantNetwork | Fault | UnableToVerifyNetwork | TooManyPeers
  | BadScore | BannedReason | BannedIP | UnknownReason

text \<open>The discriminants of the enum, at the width they have on the wire.\<close>

fun goodbye_to_u64 :: "goodbye_reason \<Rightarrow> 64 word" where
  "goodbye_to_u64 ClientShutdown = 1"
| "goodbye_to_u64 IrrelevantNetwork = 2"
| "goodbye_to_u64 Fault = 3"
| "goodbye_to_u64 UnableToVerifyNetwork = 128"
| "goodbye_to_u64 TooManyPeers = 129"
| "goodbye_to_u64 BadScore = 250"
| "goodbye_to_u64 BannedReason = 251"
| "goodbye_to_u64 BannedIP = 252"
| "goodbye_to_u64 UnknownReason = 0"

definition goodbye_from_u64 :: "64 word \<Rightarrow> goodbye_reason" where
  "goodbye_from_u64 n =
     (if n = 1 then ClientShutdown
      else if n = 2 then IrrelevantNetwork
      else if n = 3 then Fault
      else if n = 128 then UnableToVerifyNetwork
      else if n = 129 then TooManyPeers
      else if n = 250 then BadScore
      else if n = 251 then BannedReason
      else if n = 252 then BannedIP
      else UnknownReason)"

section \<open>Requests\<close>

record blobs_by_range_request =
  blr_start_slot :: nat
  blr_count :: nat

definition max_blobs_requested :: "blobs_by_range_request \<Rightarrow> chain_config \<Rightarrow> nat \<Rightarrow> nat" where
  "max_blobs_requested req cfg epoch = sat_mul (blr_count req) (max_blobs_per_block cfg epoch)"

record data_columns_by_range_request =
  dcr_start_slot :: nat
  dcr_count :: nat
  dcr_columns :: "nat list"

definition data_columns_by_range_max_requested :: "data_columns_by_range_request \<Rightarrow> nat" where
  "data_columns_by_range_max_requested req = sat_mul (dcr_count req) (length (dcr_columns req))"

record old_range =
  or_start_slot :: nat
  or_count :: nat
  or_step :: nat

datatype old_blocks_by_range_request = OldRangeV1 old_range | OldRangeV2 old_range

definition old_blocks_by_range_new :: "nat \<Rightarrow> nat \<Rightarrow> nat \<Rightarrow> old_blocks_by_range_request" where
  "old_blocks_by_range_new start_slot cnt step =
     OldRangeV2 \<lparr>or_start_slot = start_slot, or_count = cnt, or_step = step\<rparr>"

definition old_blocks_by_range_new_v1 :: "nat \<Rightarrow> nat \<Rightarrow> nat \<Rightarrow> old_blocks_by_range_request" where
  "old_blocks_by_range_new_v1 start_slot cnt step =
     OldRangeV1 \<lparr>or_start_slot = start_slot, or_count = cnt, or_step = step\<rparr>"

fun old_range_start_slot :: "old_blocks_by_range_request \<Rightarrow> nat" where
  "old_range_start_slot (OldRangeV1 r) = or_start_slot r"
| "old_range_start_slot (OldRangeV2 r) = or_start_slot r"

fun old_range_count :: "old_blocks_by_range_request \<Rightarrow> nat" where
  "old_range_count (OldRangeV1 r) = or_count r"
| "old_range_count (OldRangeV2 r) = or_count r"

fun old_range_step :: "old_blocks_by_range_request \<Rightarrow> nat" where
  "old_range_step (OldRangeV1 r) = or_step r"
| "old_range_step (OldRangeV2 r) = or_step r"

fun old_range_max_request_blocks :: "old_blocks_by_range_request \<Rightarrow> chain_config \<Rightarrow> nat" where
  "old_range_max_request_blocks (OldRangeV1 _) cfg = cfg_max_request_blocks cfg"
| "old_range_max_request_blocks (OldRangeV2 _) cfg = cfg_max_request_blocks_deneb cfg"

datatype 'root blocks_by_root_request = RootsV1 "'root list" | RootsV2 "'root list"

text \<open>\<open>DynamicList::from_iter_with_maximum\<close> keeps at most the maximum number of elements.\<close>

definition blocks_by_root_new ::
    "('root list \<Rightarrow> nat \<Rightarrow> 'root list) \<Rightarrow> chain_config \<Rightarrow> phase \<Rightarrow> 'root list \<Rightarrow> 'root blocks_by_root_request" where
  "blocks_by_root_new with_maximum cfg p roots = RootsV2 (with_maximum roots (max_request_blocks cfg p))"

definition blocks_by_root_new_v1 ::
    "('root list \<Rightarrow> nat \<Rightarrow> 'root list) \<Rightarrow> chain_config \<Rightarrow> phase \<Rightarrow> 'root list \<Rightarrow> 'root blocks_by_root_request" where
  "blocks_by_root_new_v1 with_maximum cfg p roots = RootsV1 (with_maximum roots (max_request_blocks cfg p))"

fun blocks_by_root_roots :: "'root blocks_by_root_request \<Rightarrow> 'root list" where
  "blocks_by_root_roots (RootsV1 rs) = rs"
| "blocks_by_root_roots (RootsV2 rs) = rs"

definition blocks_by_root_len :: "'root blocks_by_root_request \<Rightarrow> nat" where
  "blocks_by_root_len r = length (blocks_by_root_roots r)"

fun blocks_by_root_max_request_blocks :: "'root blocks_by_root_request \<Rightarrow> chain_config \<Rightarrow> nat" where
  "blocks_by_root_max_request_blocks (RootsV1 _) cfg = cfg_max_request_blocks cfg"
| "blocks_by_root_max_request_blocks (RootsV2 _) cfg = cfg_max_request_blocks_deneb cfg"

text \<open>A data column identifier is a block root with the columns requested of it.\<close>

type_synonym 'root data_columns_by_root_request = "('root \<times> nat list) list"

definition data_columns_by_root_max_requested :: "'root data_columns_by_root_request \<Rightarrow> nat" where
  "data_columns_by_root_max_requested ids = sum_list (map (\<lambda>d. length (snd d)) ids)"

record light_client_updates_by_range_request =
  lcu_start_period :: nat
  lcu_count :: nat

datatype metadata_request = MetadataReqV1 | MetadataReqV2 | MetadataReqV3

datatype 'root request_type =
    StatusReq status_message
  | GoodbyeReq goodbye_reason
  | BlocksByRangeReq old_blocks_by_range_request
  | BlocksByRootReq "'root blocks_by_root_request"
  | BlobsByRangeReq blobs_by_range_request
  | BlobsByRootReq "('root \<times> nat) list"
  | DataColumnsByRootReq "'root data_columns_by_root_request"
  | DataColumnsByRangeReq data_columns_by_range_request
  | LightClientBootstrapReq 'root
  | LightClientOptimisticUpdateReq
  | LightClientFinalityUpdateReq
  | LightClientUpdatesByRangeReq light_client_updates_by_range_request
  | PingReq nat
  | MetaDataReq metadata_request

text \<open>\<open>epoch_at_slot\<close> stands for \<open>misc::compute_epoch_at_slot\<close>.\<close>

fun max_responses :: "(nat \<Rightarrow> nat) \<Rightarrow> chain_config \<Rightarrow> 'root request_type \<Rightarrow> nat" where
  "max_responses epoch_at_slot cfg (StatusReq _) = 1"
| "max_responses epoch_at_slot cfg (GoodbyeReq _) = 0"
| "max_responses epoch_at_slot cfg (BlocksByRangeReq req) = old_range_count req"
| "max_responses epoch_at_slot cfg (BlocksByRootReq req) = blocks_by_root_len req"
| "max_responses epoch_at_slot cfg (BlobsByRangeReq req) =
     max_blobs_requested req cfg (epoch_at_slot (blr_start_slot req))"
| "max_responses epoch_at_slot cfg (BlobsByRootReq ids) = length ids"
| "max_responses epoch_at_slot cfg (DataColumnsByRootReq req) = data_columns_by_root_max_requested req"
| "max_responses epoch_at_slot cfg (DataColumnsByRangeReq req) = data_columns_by_range_max_requested req"
| "max_responses epoch_at_slot cfg (PingReq _) = 1"
| "max_responses epoch_at_slot cfg (MetaDataReq _) = 1"
| "max_responses epoch_at_slot cfg (LightClientBootstrapReq _) = 1"
| "max_responses epoch_at_slot cfg LightClientOptimisticUpdateReq = 1"
| "max_responses epoch_at_slot cfg LightClientFinalityUpdateReq = 1"
| "max_responses epoch_at_slot cfg (LightClientUpdatesByRangeReq req) = lcu_count req"

fun request_versioned_protocol :: "'root request_type \<Rightarrow> supported_protocol" where
  "request_versioned_protocol (StatusReq (StatusMsgV1 _)) = StatusV1"
| "request_versioned_protocol (StatusReq (StatusMsgV2 _)) = StatusV2"
| "request_versioned_protocol (GoodbyeReq _) = GoodbyeV1"
| "request_versioned_protocol (BlocksByRangeReq (OldRangeV1 _)) = BlocksByRangeV1"
| "request_versioned_protocol (BlocksByRangeReq (OldRangeV2 _)) = BlocksByRangeV2"
| "request_versioned_protocol (BlocksByRootReq (RootsV1 _)) = BlocksByRootV1"
| "request_versioned_protocol (BlocksByRootReq (RootsV2 _)) = BlocksByRootV2"
| "request_versioned_protocol (BlobsByRangeReq _) = BlobsByRangeV1"
| "request_versioned_protocol (BlobsByRootReq _) = BlobsByRootV1"
| "request_versioned_protocol (DataColumnsByRootReq _) = DataColumnsByRootV1"
| "request_versioned_protocol (DataColumnsByRangeReq _) = DataColumnsByRangeV1"
| "request_versioned_protocol (PingReq _) = PingV1"
| "request_versioned_protocol (MetaDataReq MetadataReqV1) = MetaDataV1"
| "request_versioned_protocol (MetaDataReq MetadataReqV2) = MetaDataV2"
| "request_versioned_protocol (MetaDataReq MetadataReqV3) = MetaDataV3"
| "request_versioned_protocol (LightClientBootstrapReq _) = LightClientBootstrapV1"
| "request_versioned_protocol LightClientOptimisticUpdateReq = LightClientOptimisticUpdateV1"
| "request_versioned_protocol LightClientFinalityUpdateReq = LightClientFinalityUpdateV1"
| "request_versioned_protocol (LightClientUpdatesByRangeReq _) = LightClientUpdatesByRangeV1"

definition request_protocol :: "'root request_type \<Rightarrow> protocol" where
  "request_protocol r = protocol_of (request_versioned_protocol r)"

text \<open>\<open>stream_termination\<close>; \<open>None\<close> is the \<open>unreachable!()\<close> of the source.\<close>

fun stream_termination :: "'root request_type \<Rightarrow> response_termination option" where
  "stream_termination (BlocksByRangeReq _) = Some EndBlocksByRange"
| "stream_termination (BlocksByRootReq _) = Some EndBlocksByRoot"
| "stream_termination (BlobsByRangeReq _) = Some EndBlobsByRange"
| "stream_termination (BlobsByRootReq _) = Some EndBlobsByRoot"
| "stream_termination (DataColumnsByRootReq _) = Some EndDataColumnsByRoot"
| "stream_termination (DataColumnsByRangeReq _) = Some EndDataColumnsByRange"
| "stream_termination _ = None"

definition ids :: "supported_protocol list \<Rightarrow> protocol_id list" where
  "ids vs = map (\<lambda>v. protocol_id_new v SSZSnappy) vs"

fun supported_protocols :: "'root request_type \<Rightarrow> protocol_id list" where
  "supported_protocols (StatusReq _) = ids [StatusV2, StatusV1]"
| "supported_protocols (GoodbyeReq _) = ids [GoodbyeV1]"
| "supported_protocols (BlocksByRangeReq _) = ids [BlocksByRangeV2, BlocksByRangeV1]"
| "supported_protocols (BlocksByRootReq _) = ids [BlocksByRootV2, BlocksByRootV1]"
| "supported_protocols (BlobsByRangeReq _) = ids [BlobsByRangeV1]"
| "supported_protocols (BlobsByRootReq _) = ids [BlobsByRootV1]"
| "supported_protocols (DataColumnsByRootReq _) = ids [DataColumnsByRootV1]"
| "supported_protocols (DataColumnsByRangeReq _) = ids [DataColumnsByRangeV1]"
| "supported_protocols (PingReq _) = ids [PingV1]"
| "supported_protocols (MetaDataReq _) = ids [MetaDataV3, MetaDataV2, MetaDataV1]"
| "supported_protocols (LightClientBootstrapReq _) = ids [LightClientBootstrapV1]"
| "supported_protocols LightClientOptimisticUpdateReq = ids [LightClientOptimisticUpdateV1]"
| "supported_protocols LightClientFinalityUpdateReq = ids [LightClientFinalityUpdateV1]"
| "supported_protocols (LightClientUpdatesByRangeReq _) = ids [LightClientUpdatesByRangeV1]"

fun expect_exactly_one_response :: "'root request_type \<Rightarrow> bool" where
  "expect_exactly_one_response (StatusReq _) = True"
| "expect_exactly_one_response (GoodbyeReq _) = False"
| "expect_exactly_one_response (BlocksByRangeReq _) = False"
| "expect_exactly_one_response (BlocksByRootReq _) = False"
| "expect_exactly_one_response (BlobsByRangeReq _) = False"
| "expect_exactly_one_response (BlobsByRootReq _) = False"
| "expect_exactly_one_response (DataColumnsByRootReq _) = False"
| "expect_exactly_one_response (DataColumnsByRangeReq _) = False"
| "expect_exactly_one_response (PingReq _) = True"
| "expect_exactly_one_response (MetaDataReq _) = True"
| "expect_exactly_one_response (LightClientBootstrapReq _) = True"
| "expect_exactly_one_response LightClientOptimisticUpdateReq = True"
| "expect_exactly_one_response LightClientFinalityUpdateReq = True"
| "expect_exactly_one_response (LightClientUpdatesByRangeReq _) = True"

section \<open>Responses and error codes\<close>

text \<open>\<open>'pl\<close> is the type of the consensus payloads: blocks, sidecars, light client objects.\<close>

datatype 'pl rpc_success_response =
    StatusResp status_message
  | BlocksByRangeResp 'pl
  | BlocksByRootResp 'pl
  | BlobsByRangeResp 'pl
  | LightClientBootstrapResp 'pl
  | LightClientOptimisticUpdateResp 'pl
  | LightClientFinalityUpdateResp 'pl
  | LightClientUpdatesByRangeResp 'pl
  | BlobsByRootResp 'pl
  | DataColumnsByRootResp 'pl
  | DataColumnsByRangeResp 'pl
  | PongResp nat
  | MetaDataResp meta_data

datatype rpc_error_response =
    RateLimited | BlobsNotFoundForBlock | InvalidRequest | ServerError | ResourceUnavailable
  | UnknownErrorResponse

text \<open>An error message is the first 256 bytes of the text it is made of.\<close>

abbreviation MaxErrorLen :: nat where
  "MaxErrorLen \<equiv> 256"

definition error_type_from :: "8 word list \<Rightarrow> 8 word list" where
  "error_type_from bytes = take MaxErrorLen bytes"

datatype 'pl rpc_response =
    Success "'pl rpc_success_response"
  | ErrorResp rpc_error_response "8 word list"
  | StreamTermination response_termination

fun error_response_as_u8 :: "rpc_error_response \<Rightarrow> 8 word" where
  "error_response_as_u8 InvalidRequest = 1"
| "error_response_as_u8 ServerError = 2"
| "error_response_as_u8 ResourceUnavailable = 3"
| "error_response_as_u8 UnknownErrorResponse = 255"
| "error_response_as_u8 RateLimited = 139"
| "error_response_as_u8 BlobsNotFoundForBlock = 140"

fun rpc_response_as_u8 :: "'pl rpc_response \<Rightarrow> 8 word option" where
  "rpc_response_as_u8 (Success _) = Some 0"
| "rpc_response_as_u8 (ErrorResp code _) = Some (error_response_as_u8 code)"
| "rpc_response_as_u8 (StreamTermination _) = None"

definition is_response :: "8 word \<Rightarrow> bool" where
  "is_response code \<longleftrightarrow> code = 0"

definition rpc_response_from_error :: "8 word \<Rightarrow> 8 word list \<Rightarrow> 'pl rpc_response" where
  "rpc_response_from_error code err =
     ErrorResp
       (if code = 1 then InvalidRequest
        else if code = 2 then ServerError
        else if code = 3 then ResourceUnavailable
        else if code = 139 then RateLimited
        else if code = 140 then BlobsNotFoundForBlock
        else UnknownErrorResponse) err"

fun close_after :: "'pl rpc_response \<Rightarrow> bool" where
  "close_after (Success _) = False"
| "close_after (ErrorResp _ _) = True"
| "close_after (StreamTermination _) = True"

fun success_protocol :: "'pl rpc_success_response \<Rightarrow> protocol" where
  "success_protocol (StatusResp _) = Status"
| "success_protocol (BlocksByRangeResp _) = BlocksByRange"
| "success_protocol (BlocksByRootResp _) = BlocksByRoot"
| "success_protocol (BlobsByRangeResp _) = BlobsByRange"
| "success_protocol (BlobsByRootResp _) = BlobsByRoot"
| "success_protocol (DataColumnsByRootResp _) = DataColumnsByRoot"
| "success_protocol (DataColumnsByRangeResp _) = DataColumnsByRange"
| "success_protocol (PongResp _) = Ping"
| "success_protocol (MetaDataResp _) = MetaData"
| "success_protocol (LightClientBootstrapResp _) = LightClientBootstrap"
| "success_protocol (LightClientOptimisticUpdateResp _) = LightClientOptimisticUpdate"
| "success_protocol (LightClientFinalityUpdateResp _) = LightClientFinalityUpdate"
| "success_protocol (LightClientUpdatesByRangeResp _) = LightClientUpdatesByRange"

text \<open>\<open>slot_of\<close> stands for the slot accessor of the payload.\<close>

fun success_slot :: "('pl \<Rightarrow> nat) \<Rightarrow> 'pl rpc_success_response \<Rightarrow> nat option" where
  "success_slot slot_of (BlocksByRangeResp b) = Some (slot_of b)"
| "success_slot slot_of (BlocksByRootResp b) = Some (slot_of b)"
| "success_slot slot_of (BlobsByRangeResp b) = Some (slot_of b)"
| "success_slot slot_of (BlobsByRootResp b) = Some (slot_of b)"
| "success_slot slot_of (DataColumnsByRangeResp c) = Some (slot_of c)"
| "success_slot slot_of (DataColumnsByRootResp c) = Some (slot_of c)"
| "success_slot slot_of (LightClientBootstrapResp b) = Some (slot_of b)"
| "success_slot slot_of (LightClientOptimisticUpdateResp u) = Some (slot_of u)"
| "success_slot slot_of (LightClientFinalityUpdateResp u) = Some (slot_of u)"
| "success_slot slot_of (LightClientUpdatesByRangeResp u) = Some (slot_of u)"
| "success_slot slot_of (MetaDataResp _) = None"
| "success_slot slot_of (StatusResp _) = None"
| "success_slot slot_of (PongResp _) = None"

text \<open>\<open>RPCError\<close>; the SSZ errors of the source carry values of another crate, not read here.\<close>

datatype rpc_error =
    SszReadError
  | SszWriteError
  | IoError string
  | ErrorResponse rpc_error_response string
  | StreamTimeout
  | UnsupportedProtocol
  | IncompleteStream
  | InvalidData string
  | InternalError string
  | NegotiationTimeout
  | HandlerRejected
  | DisconnectedError

lemma metadata_conversions:
  "metadata_v1 (metadata_v3 cfg (MetaV1 a)) = MetaV1 a"
  "metadata_v2 cfg (metadata_v3 cfg (MetaV2 b)) = MetaV2 b"
  "seq_number (metadata_v1 m) = seq_number m" "seq_number (metadata_v2 cfg m) = seq_number m"
  "seq_number (metadata_v3 cfg m) = seq_number m" "attnets (metadata_v1 m) = attnets m"
  "attnets (metadata_v2 cfg m) = attnets m" "attnets (metadata_v3 cfg m) = attnets m"
  by (cases m; simp)+

section \<open>Properties\<close>

text \<open>
  A request is negotiated as what it is: its own versioned protocol is among those it
  offers, all those it offers are versions of its protocol, and where its stream has a
  termination message that message belongs to its protocol and is the protocol's terminator.
  A request without one has no terminator either; for light client updates the terminator is
  the unimplemented case.
\<close>

theorem request_offers_own_protocol:
  "request_versioned_protocol r \<in> set (map versioned_protocol (supported_protocols r)) \<and>
   list_all (\<lambda>i. protocol_of (versioned_protocol i) = request_protocol r) (supported_protocols r) \<and>
   (case stream_termination r of
      Some e \<Rightarrow> as_protocol e = request_protocol r \<and> terminator (request_protocol r) = Some (Some e)
    | None \<Rightarrow> terminator (request_protocol r) =
        (if request_protocol r = LightClientUpdatesByRange then None else Some None))"
  by (cases r rule: request_versioned_protocol.cases)
    (simp_all add: ids_def protocol_id_new_def request_protocol_def)

text \<open>
  Wire codes: error codes and goodbye reasons are read back as sent; an error code is never
  the success code; an unknown goodbye number reads as \<open>Unknown\<close> and is sent on as zero.
\<close>

theorem wire_codes:
  "rpc_response_from_error (error_response_as_u8 e) msg = ErrorResp e msg \<and>
   \<not> is_response (error_response_as_u8 e) \<and>
   goodbye_from_u64 (goodbye_to_u64 g) = g \<and>
   goodbye_to_u64 (goodbye_from_u64 n) = (if n \<in> {1, 2, 3, 128, 129, 250, 251, 252} then n else 0)"
  by (cases e; cases g) (simp_all add: rpc_response_from_error_def is_response_def goodbye_from_u64_def)

end
