(* ===== verification/RpcRateLimiter.thy ===== *)
theory RpcRateLimiter
  imports RpcConfig Methods
begin

text \<open>
  The limiter of all RPC protocols (\<open>RPCRateLimiter\<close> and its builder in
  \<open>rpc/rate_limiter.rs\<close>): one per key limiter for every protocol, keyed by peer.

  The tokio interval that triggers the prune and the shared fork context are not part of the
  state; the time since creation is an argument of the operations, as \<open>init_time.elapsed()\<close>.
\<close>

section \<open>The builder\<close>

record rpc_rate_limiter_builder =
  goodbye_q :: "quota option"
  ping_q :: "quota option"
  metadata_q :: "quota option"
  status_q :: "quota option"
  bbrange_q :: "quota option"
  bbroots_q :: "quota option"
  blbrange_q :: "quota option"
  blbroot_q :: "quota option"
  dcbroot_q :: "quota option"
  dcbrange_q :: "quota option"
  lcbootstrap_q :: "quota option"
  lc_optimistic_update_q :: "quota option"
  lc_finality_update_q :: "quota option"
  lc_updates_by_range_q :: "quota option"

definition builder :: rpc_rate_limiter_builder where
  "builder =
     \<lparr>goodbye_q = None,
      ping_q = None,
      metadata_q = None,
      status_q = None,
      bbrange_q = None,
      bbroots_q = None,
      blbrange_q = None,
      blbroot_q = None,
      dcbroot_q = None,
      dcbrange_q = None,
      lcbootstrap_q = None,
      lc_optimistic_update_q = None,
      lc_finality_update_q = None,
      lc_updates_by_range_q = None\<rparr>"

fun set_quota :: "rpc_rate_limiter_builder \<Rightarrow> protocol \<Rightarrow> quota \<Rightarrow> rpc_rate_limiter_builder" where
  "set_quota b Ping q = b\<lparr>ping_q := Some q\<rparr>"
| "set_quota b Status q = b\<lparr>status_q := Some q\<rparr>"
| "set_quota b MetaData q = b\<lparr>metadata_q := Some q\<rparr>"
| "set_quota b Goodbye q = b\<lparr>goodbye_q := Some q\<rparr>"
| "set_quota b BlocksByRange q = b\<lparr>bbrange_q := Some q\<rparr>"
| "set_quota b BlocksByRoot q = b\<lparr>bbroots_q := Some q\<rparr>"
| "set_quota b BlobsByRange q = b\<lparr>blbrange_q := Some q\<rparr>"
| "set_quota b BlobsByRoot q = b\<lparr>blbroot_q := Some q\<rparr>"
| "set_quota b DataColumnsByRoot q = b\<lparr>dcbroot_q := Some q\<rparr>"
| "set_quota b DataColumnsByRange q = b\<lparr>dcbrange_q := Some q\<rparr>"
| "set_quota b LightClientBootstrap q = b\<lparr>lcbootstrap_q := Some q\<rparr>"
| "set_quota b LightClientOptimisticUpdate q = b\<lparr>lc_optimistic_update_q := Some q\<rparr>"
| "set_quota b LightClientFinalityUpdate q = b\<lparr>lc_finality_update_q := Some q\<rparr>"
| "set_quota b LightClientUpdatesByRange q = b\<lparr>lc_updates_by_range_q := Some q\<rparr>"

record 'peer rpc_rate_limiter =
  goodbye_rl :: "'peer limiter"
  ping_rl :: "'peer limiter"
  metadata_rl :: "'peer limiter"
  status_rl :: "'peer limiter"
  bbrange_rl :: "'peer limiter"
  bbroots_rl :: "'peer limiter"
  blbrange_rl :: "'peer limiter"
  blbroot_rl :: "'peer limiter"
  dcbroot_rl :: "'peer limiter"
  dcbrange_rl :: "'peer limiter"
  lc_bootstrap_rl :: "'peer limiter"
  lc_optimistic_update_rl :: "'peer limiter"
  lc_finality_update_rl :: "'peer limiter"
  lc_updates_by_range_rl :: "'peer limiter"

text \<open>\<open>build\<close> first collects the quotas, then creates the limiters; each \<open>?\<close> ends it early.\<close>

definition build :: "rpc_rate_limiter_builder \<Rightarrow> ('peer rpc_rate_limiter, string) result" where
  "build b =
     result_bind (ok_or (ping_q b) ''Ping quota not specified'') (\<lambda>q_ping.
     result_bind (ok_or (metadata_q b) ''MetaData quota not specified'') (\<lambda>q_metadata.
     result_bind (ok_or (status_q b) ''Status quota not specified'') (\<lambda>q_status.
     result_bind (ok_or (goodbye_q b) ''Goodbye quota not specified'') (\<lambda>q_goodbye.
     result_bind (ok_or (bbroots_q b) ''BlocksByRoot quota not specified'') (\<lambda>q_bbroots.
     result_bind (ok_or (bbrange_q b) ''BlocksByRange quota not specified'') (\<lambda>q_bbrange.
     result_bind (ok_or (lcbootstrap_q b) ''LightClientBootstrap quota not specified'') (\<lambda>q_lcbootstrap.
     result_bind (ok_or (lc_optimistic_update_q b) ''LightClientOptimisticUpdate quota not specified'') (\<lambda>q_lc_optimistic_update.
     result_bind (ok_or (lc_finality_update_q b) ''LightClientFinalityUpdate quota not specified'') (\<lambda>q_lc_finality_update.
     result_bind (ok_or (lc_updates_by_range_q b) ''LightClientUpdatesByRange quota not specified'') (\<lambda>q_lc_updates_by_range.
     result_bind (ok_or (blbrange_q b) ''BlobsByRange quota not specified'') (\<lambda>q_blbrange.
     result_bind (ok_or (blbroot_q b) ''BlobsByRoot quota not specified'') (\<lambda>q_blbroot.
     result_bind (ok_or (dcbroot_q b) ''DataColumnsByRoot quota not specified'') (\<lambda>q_dcbroot.
     result_bind (ok_or (dcbrange_q b) ''DataColumnsByRange quota not specified'') (\<lambda>q_dcbrange.
     result_bind (limiter_from_quota q_ping) (\<lambda>l_ping.
     result_bind (limiter_from_quota q_metadata) (\<lambda>l_metadata.
     result_bind (limiter_from_quota q_status) (\<lambda>l_status.
     result_bind (limiter_from_quota q_goodbye) (\<lambda>l_goodbye.
     result_bind (limiter_from_quota q_bbroots) (\<lambda>l_bbroots.
     result_bind (limiter_from_quota q_bbrange) (\<lambda>l_bbrange.
     result_bind (limiter_from_quota q_blbrange) (\<lambda>l_blbrange.
     result_bind (limiter_from_quota q_blbroot) (\<lambda>l_blbroot.
     result_bind (limiter_from_quota q_dcbroot) (\<lambda>l_dcbroot.
     result_bind (limiter_from_quota q_dcbrange) (\<lambda>l_dcbrange.
     result_bind (limiter_from_quota q_lcbootstrap) (\<lambda>l_lcbootstrap.
     result_bind (limiter_from_quota q_lc_optimistic_update) (\<lambda>l_lc_optimistic_update.
     result_bind (limiter_from_quota q_lc_finality_update) (\<lambda>l_lc_finality_update.
     result_bind (limiter_from_quota q_lc_updates_by_range) (\<lambda>l_lc_updates_by_range.
     Ok \<lparr>goodbye_rl = l_goodbye,
         ping_rl = l_ping,
         metadata_rl = l_metadata,
         status_rl = l_status,
         bbrange_rl = l_bbrange,
         bbroots_rl = l_bbroots,
         blbrange_rl = l_blbrange,
         blbroot_rl = l_blbroot,
         dcbroot_rl = l_dcbroot,
         dcbrange_rl = l_dcbrange,
         lc_bootstrap_rl = l_lcbootstrap,
         lc_optimistic_update_rl = l_lc_optimistic_update,
         lc_finality_update_rl = l_lc_finality_update,
         lc_updates_by_range_rl = l_lc_updates_by_range\<rparr>))))))))))))))))))))))))))))"

definition new_with_config :: "rate_limiter_config \<Rightarrow> ('peer rpc_rate_limiter, string) result" where
  "new_with_config config =
     (let b = builder;
          b = set_quota b Ping (ping_quota config);
          b = set_quota b MetaData (meta_data_quota config);
          b = set_quota b Status (status_quota config);
          b = set_quota b Goodbye (goodbye_quota config);
          b = set_quota b BlocksByRange (blocks_by_range_quota config);
          b = set_quota b BlocksByRoot (blocks_by_root_quota config);
          b = set_quota b BlobsByRange (blobs_by_range_quota config);
          b = set_quota b BlobsByRoot (blobs_by_root_quota config);
          b = set_quota b DataColumnsByRoot (data_columns_by_root_quota config);
          b = set_quota b DataColumnsByRange (data_columns_by_range_quota config);
          b = set_quota b LightClientBootstrap (light_client_bootstrap_quota config);
          b = set_quota b LightClientOptimisticUpdate (light_client_optimistic_update_quota config);
          b = set_quota b LightClientFinalityUpdate (light_client_finality_update_quota config);
          b = set_quota b LightClientUpdatesByRange (light_client_updates_by_range_quota config)
      in build b)"

section \<open>Checking and pruning\<close>

text \<open>The \<open>match\<close> that selects the limiter of a request, and the write back through it.\<close>

fun limiter_of :: "'peer rpc_rate_limiter \<Rightarrow> protocol \<Rightarrow> 'peer limiter" where
  "limiter_of rl Ping = ping_rl rl"
| "limiter_of rl Status = status_rl rl"
| "limiter_of rl MetaData = metadata_rl rl"
| "limiter_of rl Goodbye = goodbye_rl rl"
| "limiter_of rl BlocksByRange = bbrange_rl rl"
| "limiter_of rl BlocksByRoot = bbroots_rl rl"
| "limiter_of rl BlobsByRange = blbrange_rl rl"
| "limiter_of rl BlobsByRoot = blbroot_rl rl"
| "limiter_of rl DataColumnsByRoot = dcbroot_rl rl"
| "limiter_of rl DataColumnsByRange = dcbrange_rl rl"
| "limiter_of rl LightClientBootstrap = lc_bootstrap_rl rl"
| "limiter_of rl LightClientOptimisticUpdate = lc_optimistic_update_rl rl"
| "limiter_of rl LightClientFinalityUpdate = lc_finality_update_rl rl"
| "limiter_of rl LightClientUpdatesByRange = lc_updates_by_range_rl rl"

fun set_limiter :: "'peer rpc_rate_limiter \<Rightarrow> protocol \<Rightarrow> 'peer limiter \<Rightarrow> 'peer rpc_rate_limiter" where
  "set_limiter rl Ping l = rl\<lparr>ping_rl := l\<rparr>"
| "set_limiter rl Status l = rl\<lparr>status_rl := l\<rparr>"
| "set_limiter rl MetaData l = rl\<lparr>metadata_rl := l\<rparr>"
| "set_limiter rl Goodbye l = rl\<lparr>goodbye_rl := l\<rparr>"
| "set_limiter rl BlocksByRange l = rl\<lparr>bbrange_rl := l\<rparr>"
| "set_limiter rl BlocksByRoot l = rl\<lparr>bbroots_rl := l\<rparr>"
| "set_limiter rl BlobsByRange l = rl\<lparr>blbrange_rl := l\<rparr>"
| "set_limiter rl BlobsByRoot l = rl\<lparr>blbroot_rl := l\<rparr>"
| "set_limiter rl DataColumnsByRoot l = rl\<lparr>dcbroot_rl := l\<rparr>"
| "set_limiter rl DataColumnsByRange l = rl\<lparr>dcbrange_rl := l\<rparr>"
| "set_limiter rl LightClientBootstrap l = rl\<lparr>lc_bootstrap_rl := l\<rparr>"
| "set_limiter rl LightClientOptimisticUpdate l = rl\<lparr>lc_optimistic_update_rl := l\<rparr>"
| "set_limiter rl LightClientFinalityUpdate l = rl\<lparr>lc_finality_update_rl := l\<rparr>"
| "set_limiter rl LightClientUpdatesByRange l = rl\<lparr>lc_updates_by_range_rl := l\<rparr>"

text \<open>\<open>responses\<close> is the \<open>max_responses\<close> of the checked item, at least one token is taken.\<close>

definition rpc_allows ::
    "'peer rpc_rate_limiter \<Rightarrow> nanos \<Rightarrow> 'peer \<Rightarrow> protocol \<Rightarrow> nat \<Rightarrow>
     (unit, rate_limited_err) result \<times> 'peer rpc_rate_limiter" where
  "rpc_allows rl time_since_start peer p responses =
     (let tokens = max responses 1;
          (r, l) = limiter_allows (limiter_of rl p) time_since_start peer tokens
      in (r, set_limiter rl p l))"

definition rpc_prune :: "'peer rpc_rate_limiter \<Rightarrow> nanos \<Rightarrow> 'peer rpc_rate_limiter" where
  "rpc_prune rl t =
     \<lparr>goodbye_rl = limiter_prune (goodbye_rl rl) t,
      ping_rl = limiter_prune (ping_rl rl) t,
      metadata_rl = limiter_prune (metadata_rl rl) t,
      status_rl = limiter_prune (status_rl rl) t,
      bbrange_rl = limiter_prune (bbrange_rl rl) t,
      bbroots_rl = limiter_prune (bbroots_rl rl) t,
      blbrange_rl = limiter_prune (blbrange_rl rl) t,
      blbroot_rl = limiter_prune (blbroot_rl rl) t,
      dcbroot_rl = limiter_prune (dcbroot_rl rl) t,
      dcbrange_rl = limiter_prune (dcbrange_rl rl) t,
      lc_bootstrap_rl = limiter_prune (lc_bootstrap_rl rl) t,
      lc_optimistic_update_rl = limiter_prune (lc_optimistic_update_rl rl) t,
      lc_finality_update_rl = limiter_prune (lc_finality_update_rl rl) t,
      lc_updates_by_range_rl = limiter_prune (lc_updates_by_range_rl rl) t\<rparr>"

section \<open>Selecting limiters\<close>

lemma limiter_of_set [simp]:
  "limiter_of (set_limiter rl p l) q = (if p = q then l else limiter_of rl q)"
  by (cases p; cases q) simp_all

lemma limiter_of_prune [simp]: "limiter_of (rpc_prune rl t) p = limiter_prune (limiter_of rl p) t"
  by (cases p) (simp_all add: rpc_prune_def)

lemma limiter_of_allows:
  "limiter_of (snd (rpc_allows rl now peer p n)) q =
     (if p = q then snd (limiter_allows (limiter_of rl p) now peer (max n 1)) else limiter_of rl q)"
  by (simp add: rpc_allows_def Let_def split: prod.splits)

lemma fst_rpc_allows [simp]:
  "fst (rpc_allows rl now peer p n) = fst (limiter_allows (limiter_of rl p) now peer (max n 1))"
  by (simp add: rpc_allows_def Let_def split: prod.splits)

lemma build_limiters:
  assumes "new_with_config config = Ok rl"
  shows "limiter_from_quota (config_quota config p) = Ok (limiter_of rl p)"
  using assms
  by (cases p)
    (auto simp: new_with_config_def Let_def builder_def build_def result_bind_eq_Ok)

section \<open>Traces over all protocols\<close>

datatype 'peer rpc_op =
    Request (rpc_op_time: nanos) 'peer protocol nat
  | PruneAll (rpc_op_time: nanos)

fun rpc_run :: "'peer rpc_rate_limiter \<Rightarrow> 'peer rpc_op list \<Rightarrow> 'peer rpc_rate_limiter" where
  "rpc_run rl [] = rl"
| "rpc_run rl (Request now peer p n # ops) = rpc_run (snd (rpc_allows rl now peer p n)) ops"
| "rpc_run rl (PruneAll now # ops) = rpc_run (rpc_prune rl now) ops"

text \<open>Tokens granted to a peer on a protocol: a request takes at least one.\<close>

fun rpc_granted :: "'peer rpc_rate_limiter \<Rightarrow> 'peer rpc_op list \<Rightarrow> 'peer \<Rightarrow> protocol \<Rightarrow> nat" where
  "rpc_granted rl [] peer p = 0"
| "rpc_granted rl (Request now peer' p' n # ops) peer p =
     (if is_ok (fst (rpc_allows rl now peer' p' n)) \<and> peer' = peer \<and> p' = p then max n 1 else 0)
     + rpc_granted (snd (rpc_allows rl now peer' p' n)) ops peer p"
| "rpc_granted rl (PruneAll now # ops) peer p = rpc_granted (rpc_prune rl now) ops peer p"

fun of_protocol :: "protocol \<Rightarrow> 'peer rpc_op list \<Rightarrow> 'peer limiter_op list" where
  "of_protocol p [] = []"
| "of_protocol p (Request now peer p' n # ops) =
     (if p' = p then Allow now peer (max n 1) # of_protocol p ops else of_protocol p ops)"
| "of_protocol p (PruneAll now # ops) = Prune now # of_protocol p ops"

definition rpc_timely :: "nanos \<Rightarrow> nanos \<Rightarrow> nanos \<Rightarrow> 'peer rpc_op list \<Rightarrow> bool" where
  "rpc_timely cap t0 t1 ops \<longleftrightarrow>
     sorted (map rpc_op_time ops) \<and> list_all (\<lambda>x. t0 \<le> rpc_op_time x \<and> rpc_op_time x \<le> t1) ops \<and>
     t1 + cap < u64_max"

lemma limiter_of_run: "limiter_of (rpc_run rl ops) p = snd (limiter_run (limiter_of rl p) (of_protocol p ops))"
  by (induction rl ops rule: rpc_run.induct)
    (auto simp: limiter_of_allows split: prod.splits)

lemma rpc_granted_eq: "rpc_granted rl ops peer p = granted (limiter_of rl p) (of_protocol p ops) peer"
  by (induction rl ops peer p rule: rpc_granted.induct)
    (auto simp: limiter_of_allows split: prod.splits)

lemma of_protocol_times: "x \<in> set (of_protocol p ops) \<Longrightarrow> \<exists>y \<in> set ops. op_time x = rpc_op_time y"
  by (induction p ops rule: of_protocol.induct) (auto split: if_splits)

lemma of_protocol_sorted: "sorted (map rpc_op_time ops) \<Longrightarrow> sorted (map op_time (of_protocol p ops))"
  by (induction p ops rule: of_protocol.induct) (auto dest: of_protocol_times)

lemma of_protocol_timely: "rpc_timely cap t0 t1 ops \<Longrightarrow> timely cap t0 t1 (of_protocol p ops)"
  by (auto simp: rpc_timely_def timely_def of_protocol_sorted list_all_iff dest: of_protocol_times)

section \<open>Properties\<close>

text \<open>
  C28. A limiter built from a configuration enforces, for every protocol, the quota the
  configuration names for that protocol: in any window of any history of requests of all peers
  and protocols, the tokens a peer is granted on a protocol cover at most the window plus one
  replenishing time of its own quota.
\<close>

theorem rpc_quota_enforced:
  assumes "new_with_config config = Ok rl0"
    "rpc_timely (replenish_all_every (config_quota config p)) t0 t1 ops" "t0 \<le> t1"
  shows "rpc_granted (rpc_run rl0 history) ops peer p *
           (replenish_all_every (config_quota config p) div max_tokens (config_quota config p))
           \<le> t1 - t0 + replenish_all_every (config_quota config p)"
proof -
  note q = from_quota_fields [OF build_limiters [OF assms(1), of p]]
  have "timely (tau (limiter_of (rpc_run rl0 history) p)) t0 t1 (of_protocol p ops)"
    using assms(2) q(1) by (simp add: limiter_of_run of_protocol_timely)
  from granted_window [OF this assms(3), of peer] show ?thesis
    using q by (simp add: rpc_granted_eq limiter_of_run mult.commute)
qed

lemma default_config_builds: "\<exists>rl. new_with_config default_config = Ok rl"
  by (simp add: new_with_config_def build_def builder_def Let_def default_config_def limiter_from_quota_def
      n_every_def one_every_def secs_def u64_max_def)

theorem rpc_quota_enforced_witness:
  "\<exists>rl0. new_with_config default_config = Ok rl0 \<and>
     rpc_granted (rpc_run rl0 [Request 3 ''peer'' Ping 1]) [Request 5 ''peer'' Ping 1, Request 7 ''peer'' Status 1]
       ''peer'' Ping * (secs 10 div 2) \<le> 7 - 5 + secs 10"
proof -
  obtain rl0 :: "string rpc_rate_limiter" where rl0: "new_with_config default_config = Ok rl0"
    using default_config_builds by blast
  from rpc_quota_enforced [OF rl0, of Ping 5 7 "[Request 5 ''peer'' Ping 1, Request 7 ''peer'' Status 1]"
      "[Request 3 ''peer'' Ping 1]" "''peer''"]
  have "rpc_granted (rpc_run rl0 [Request 3 ''peer'' Ping 1]) [Request 5 ''peer'' Ping 1, Request 7 ''peer'' Status 1]
       ''peer'' Ping * (secs 10 div 2) \<le> 7 - 5 + secs 10"
    by (simp add: rpc_timely_def default_config_def n_every_def secs_def u64_max_def)
  with rl0 show ?thesis by blast
qed

text \<open>
  With the default configuration no peer gets more than \<open>max_tokens\<close> tokens of a protocol
  in one instant, although the time per token is rounded down.
\<close>

theorem default_burst_limit:
  assumes "new_with_config default_config = Ok rl0" "t + secs 15 < u64_max"
    "list_all (\<lambda>x. rpc_op_time x = t) ops"
  shows "rpc_granted (rpc_run rl0 history) ops peer p \<le> max_tokens (config_quota default_config p)"
proof -
  let ?q = "config_quota default_config p"
  have q: "max_tokens ?q * (max_tokens ?q + 1) \<le> replenish_all_every ?q" "0 < max_tokens ?q"
    "replenish_all_every ?q \<le> secs 15"
    by (cases p; simp add: default_config_def n_every_def one_every_def secs_def)+
  have "sorted (map rpc_op_time ops)" using assms(3) by (induction ops) (auto simp: list_all_iff)
  then have "rpc_timely (replenish_all_every ?q) t t ops"
    using assms(2,3) q(3) by (simp add: rpc_timely_def list_all_iff)
  from rpc_quota_enforced [OF assms(1) this order_refl, of history peer]
  show ?thesis by (intro burst_fits [OF _ q(1,2)]) simp
qed

theorem default_burst_limit_witness:
  "\<exists>rl0. new_with_config default_config = Ok rl0 \<and>
     rpc_granted (rpc_run rl0 []) [Request 5 ''peer'' Goodbye 0, Request 5 ''peer'' Goodbye 0] ''peer'' Goodbye
       \<le> max_tokens (config_quota default_config Goodbye)"
proof -
  obtain rl0 :: "string rpc_rate_limiter" where rl0: "new_with_config default_config = Ok rl0"
    using default_config_builds by blast
  from default_burst_limit [OF rl0, of 5 "[Request 5 ''peer'' Goodbye 0, Request 5 ''peer'' Goodbye 0]"
      "[]" "''peer''" Goodbye] rl0
  show ?thesis by (auto simp: secs_def u64_max_def)
qed

end
