(* ===== verification/TimeCache.thy ===== *)
theory TimeCache
  imports Prelude
begin

text \<open>
  The time based LRU cache of \<open>common/time_cache.rs\<close>, its invariant (the one the source checks
  in its tests), and the interface \<open>expiring_set\<close> its clients rely on. Operations that the source
  can abort with \<open>expect\<close> return an option, \<open>None\<close> being the panic.
\<close>

section \<open>The cache\<close>

record 'k element =
  el_key :: 'k
  inserted :: nanos

record 'k lru_time_cache =
  tc_map :: "'k set"
  tc_list :: "'k element list"
  tc_ttl :: nanos

definition lru_new :: "nanos \<Rightarrow> 'k lru_time_cache" where
  "lru_new t = \<lparr>tc_map = {}, tc_list = [], tc_ttl = t\<rparr>"

text \<open>\<open>iter().position(..)\<close> and \<open>VecDeque::remove\<close>.\<close>

fun position :: "('a \<Rightarrow> bool) \<Rightarrow> 'a list \<Rightarrow> nat option" where
  "position P [] = None"
| "position P (x # xs) = (if P x then Some 0 else map_option Suc (position P xs))"

fun remove_at :: "nat \<Rightarrow> 'a list \<Rightarrow> ('a \<times> 'a list) option" where
  "remove_at n [] = None"
| "remove_at 0 (x # xs) = Some (x, xs)"
| "remove_at (Suc n) (x # xs) = map_option (\<lambda>(y, ys). (y, x # ys)) (remove_at n xs)"

definition raw_insert :: "'k lru_time_cache \<Rightarrow> nanos \<Rightarrow> 'k \<Rightarrow> (bool \<times> 'k lru_time_cache) option" where
  "raw_insert c now key =
     (let is_new = (key \<notin> tc_map c); c' = c\<lparr>tc_map := insert key (tc_map c)\<rparr> in
      if is_new
      then Some (is_new, c'\<lparr>tc_list := tc_list c @ [\<lparr>el_key = key, inserted = now\<rparr>]\<rparr>)
      else case position (\<lambda>e. el_key e = key) (tc_list c) of
             None \<Rightarrow> None
           | Some i \<Rightarrow>
               (case remove_at i (tc_list c) of
                  None \<Rightarrow> None
                | Some (e, es) \<Rightarrow> Some (is_new, c'\<lparr>tc_list := es @ [e\<lparr>inserted := now\<rparr>]\<rparr>)))"

definition raw_remove :: "'k lru_time_cache \<Rightarrow> 'k \<Rightarrow> (bool \<times> 'k lru_time_cache) option" where
  "raw_remove c key =
     (if key \<in> tc_map c
      then case position (\<lambda>e. el_key e = key) (tc_list c) of
             None \<Rightarrow> None
           | Some i \<Rightarrow>
               (case remove_at i (tc_list c) of
                  None \<Rightarrow> None
                | Some (e, es) \<Rightarrow> Some (True, c\<lparr>tc_map := tc_map c - {key}, tc_list := es\<rparr>))
      else Some (False, c))"

text \<open>The \<open>while let\<close> loop shared by \<open>remove_expired\<close> and \<open>update\<close>.\<close>

fun pop_expired :: "nanos \<Rightarrow> nanos \<Rightarrow> 'k element list \<Rightarrow> 'k set \<Rightarrow> 'k list \<times> 'k element list \<times> 'k set" where
  "pop_expired t now [] m = ([], [], m)"
| "pop_expired t now (e # es) m =
     (if now < inserted e + t then ([], e # es, m)
      else let (ks, es', m') = pop_expired t now es (m - {el_key e}) in (el_key e # ks, es', m'))"

definition remove_expired :: "'k lru_time_cache \<Rightarrow> nanos \<Rightarrow> 'k list \<times> 'k lru_time_cache" where
  "remove_expired c now =
     (if tc_list c = [] then ([], c)
      else let (ks, es, m) = pop_expired (tc_ttl c) now (tc_list c) (tc_map c) in
           (ks, c\<lparr>tc_list := es, tc_map := m\<rparr>))"

definition lru_update :: "'k lru_time_cache \<Rightarrow> nanos \<Rightarrow> 'k lru_time_cache" where
  "lru_update c now =
     (if tc_list c = [] then c
      else let (ks, es, m) = pop_expired (tc_ttl c) now (tc_list c) (tc_map c) in
           c\<lparr>tc_list := es, tc_map := m\<rparr>)"

definition lru_insert :: "'k lru_time_cache \<Rightarrow> nanos \<Rightarrow> 'k \<Rightarrow> (bool \<times> 'k lru_time_cache) option" where
  "lru_insert c now key = raw_insert (lru_update c now) now key"

definition lru_contains :: "'k lru_time_cache \<Rightarrow> nanos \<Rightarrow> 'k \<Rightarrow> bool \<times> 'k lru_time_cache" where
  "lru_contains c now key = (let c' = lru_update c now in (key \<in> tc_map c', c'))"

section \<open>The interface of an expiring set\<close>

text \<open>
  What a client relies on. \<open>times c\<close> is the abstract content: the keys with the time of their last
  insertion. \<open>ok c t\<close> says that the cache is well formed and was last touched by time \<open>t\<close>.
\<close>

locale expiring_set =
  fixes times :: "'c \<Rightarrow> 'k \<rightharpoonup> nanos"
    and life :: "'c \<Rightarrow> nanos"
    and ok :: "'c \<Rightarrow> nanos \<Rightarrow> bool"
    and ins :: "'c \<Rightarrow> nanos \<Rightarrow> 'k \<Rightarrow> (bool \<times> 'c) option"
    and del :: "'c \<Rightarrow> 'k \<Rightarrow> (bool \<times> 'c) option"
    and expire :: "'c \<Rightarrow> nanos \<Rightarrow> 'k list \<times> 'c"
  assumes ins_spec: "ok c t \<Longrightarrow> t \<le> now \<Longrightarrow>
      \<exists>c'. ins c now k = Some (times c k = None, c') \<and> times c' = (times c)(k \<mapsto> now) \<and>
           life c' = life c \<and> ok c' now"
    and del_spec: "ok c t \<Longrightarrow>
      \<exists>c'. del c k = Some (times c k \<noteq> None, c') \<and> times c' = (times c)(k := None) \<and>
           life c' = life c \<and> ok c' t"
    and expire_spec: "ok c t \<Longrightarrow> t \<le> now \<Longrightarrow> expire c now = (ks, c') \<Longrightarrow>
      set ks = {k. \<exists>s. times c k = Some s \<and> s + life c \<le> now} \<and> distinct ks \<and>
      times c' = (\<lambda>k. if k \<in> set ks then None else times c k) \<and> life c' = life c \<and> ok c' now"
begin

text \<open>
  A client that inserts a key and then only expires gets the key back exactly once: at the
  first call that comes at least the life time after the insertion.
\<close>

fun expire_all :: "'c \<Rightarrow> nanos list \<Rightarrow> 'k list list" where
  "expire_all c [] = []"
| "expire_all c (now # nows) = (let (ks, c') = expire c now in ks # expire_all c' nows)"

lemma expire_all_absent:
  "ok c t \<Longrightarrow> sorted (t # nows) \<Longrightarrow> times c k = None \<Longrightarrow> list_all (\<lambda>ks. k \<notin> set ks) (expire_all c nows)"
proof (induction nows arbitrary: c t)
  case (Cons now nows)
  obtain ks c' where e: "expire c now = (ks, c')" by fastforce
  from expire_spec [OF Cons.prems(1) _ e] Cons.prems
  have "k \<notin> set ks" "times c' k = None" "ok c' now" by auto
  then show ?case using Cons e by simp
qed simp

lemma expire_all_length: "length (expire_all c nows) = length nows"
  by (induction nows arbitrary: c) (auto split: prod.splits)

lemma expire_all_not_before:
  assumes "ok c t" "sorted (t # nows)" "times c k = Some s"
  shows "list_all2 (\<lambda>now ks. k \<in> set ks \<longrightarrow> s + life c \<le> now) nows (expire_all c nows)"
  using assms
proof (induction nows arbitrary: c t)
  case (Cons now nows)
  obtain ks c' where e: "expire c now = (ks, c')" by fastforce
  have le: "t \<le> now" "sorted (now # nows)" using Cons.prems by simp_all
  note sp = expire_spec [OF Cons.prems(1) le(1) e]
  show ?case
  proof (cases "k \<in> set ks")
    case True
    then have "list_all (\<lambda>ks. k \<notin> set ks) (expire_all c' nows)"
      using expire_all_absent [of c' now nows k] sp le by auto
    then have "list_all2 (\<lambda>now ks. k \<in> set ks \<longrightarrow> s + life c \<le> now) nows (expire_all c' nows)"
      by (auto simp: list_all2_conv_all_nth list_all_length expire_all_length)
    then show ?thesis using True sp e Cons.prems(3) by simp
  next
    case False
    then show ?thesis using Cons.IH [of c' now] sp le e Cons.prems(3) by auto
  qed
qed simp

lemma expire_all_returns:
  assumes "ok c t" "sorted (t # nows)" "times c k = Some s" "now \<in> set nows" "s + life c \<le> now"
  shows "\<exists>ks \<in> set (expire_all c nows). k \<in> set ks"
  using assms
proof (induction nows arbitrary: c t)
  case (Cons n nows)
  obtain ks c' where e: "expire c n = (ks, c')" by fastforce
  have le: "t \<le> n" "sorted (n # nows)" using Cons.prems by simp_all
  note sp = expire_spec [OF Cons.prems(1) le(1) e]
  show ?case
  proof (cases "s + life c \<le> n")
    case True
    then show ?thesis using sp e Cons.prems(3) by auto
  next
    case False
    then have "k \<notin> set ks" "now \<in> set nows" using sp Cons.prems by auto
    then show ?thesis using Cons.IH [of c' n] sp le e Cons.prems(3,5) by auto
  qed
qed simp

end

section \<open>The invariant\<close>

text \<open>
  The source's \<open>check_invariant\<close>: the list is sorted by insertion time and holds each key of the
  map once. With it, \<open>cache_ok\<close> bounds the insertion times by the clock.
\<close>

definition cache_ok :: "'k lru_time_cache \<Rightarrow> nanos \<Rightarrow> bool" where
  "cache_ok c now \<longleftrightarrow>
     sorted (map inserted (tc_list c)) \<and> distinct (map el_key (tc_list c)) \<and>
     tc_map c = set (map el_key (tc_list c)) \<and> list_all (\<lambda>e. inserted e \<le> now) (tc_list c)"

definition cache_times :: "'k lru_time_cache \<Rightarrow> 'k \<rightharpoonup> nanos" where
  "cache_times c = map_of (map (\<lambda>e. (el_key e, inserted e)) (tc_list c))"

lemma keys_image: "fst ` (\<lambda>e. (el_key e, inserted e)) ` A = el_key ` A"
  by (simp add: image_image)

lemma cache_times_None: "cache_ok c t \<Longrightarrow> cache_times c k = None \<longleftrightarrow> k \<notin> tc_map c"
  by (auto simp: cache_ok_def cache_times_def map_of_eq_None_iff keys_image)

lemma remove_position:
  assumes "k \<in> el_key ` set es"
  shows "\<exists>i e xs ys. position (\<lambda>e. el_key e = k) es = Some i \<and> remove_at i es = Some (e, xs @ ys) \<and>
    es = xs @ e # ys \<and> el_key e = k"
  using assms
proof (induction es)
  case (Cons x es)
  show ?case
  proof (cases "el_key x = k")
    case True
    then show ?thesis by (intro exI [of _ 0] exI [of _ x] exI [of _ "[]"] exI [of _ es]) simp
  next
    case False
    then obtain i e xs ys where "position (\<lambda>e. el_key e = k) es = Some i"
      "remove_at i es = Some (e, xs @ ys)" "es = xs @ e # ys" "el_key e = k"
      using Cons by auto
    then show ?thesis using False
      by (intro exI [of _ "Suc i"] exI [of _ e] exI [of _ "x # xs"] exI [of _ ys]) simp
  qed
qed simp

lemma cache_times_snoc:
  "k \<notin> el_key ` set es \<Longrightarrow>
   map_of (map (\<lambda>e. (el_key e, inserted e)) (es @ [\<lparr>el_key = k, inserted = now\<rparr>])) =
   (map_of (map (\<lambda>e. (el_key e, inserted e)) es))(k \<mapsto> now)"
  by (induction es) (auto simp: fun_upd_twist)

lemma cache_times_remove:
  "distinct (map el_key (xs @ e # ys)) \<Longrightarrow>
   map_of (map (\<lambda>e. (el_key e, inserted e)) (xs @ ys)) =
   (map_of (map (\<lambda>e. (el_key e, inserted e)) (xs @ e # ys)))(el_key e := None)"
proof (induction xs)
  case Nil
  then show ?case by (auto simp: map_of_eq_None_iff image_image fun_upd_idem)
next
  case (Cons x xs)
  then show ?case by (auto simp: fun_upd_twist)
qed

lemma raw_insert_spec:
  assumes "cache_ok c t" "t \<le> now"
  shows "\<exists>c'. raw_insert c now k = Some (cache_times c k = None, c') \<and>
    cache_times c' = (cache_times c)(k \<mapsto> now) \<and> tc_ttl c' = tc_ttl c \<and> cache_ok c' now"
proof (cases "k \<in> tc_map c")
  case False
  then have "k \<notin> el_key ` set (tc_list c)" using assms(1) by (simp add: cache_ok_def)
  moreover have "list_all (\<lambda>e. inserted e \<le> now) (tc_list c)"
    using assms by (auto simp: cache_ok_def list_all_iff)
  ultimately show ?thesis
    using assms(1) False
    by (auto simp: raw_insert_def Let_def cache_times_None [OF assms(1)] cache_times_def
        cache_times_snoc [simplified] cache_ok_def sorted_append list_all_iff
        map_of_eq_None_iff image_image)
next
  case True
  then have "k \<in> el_key ` set (tc_list c)" using assms(1) by (simp add: cache_ok_def)
  then obtain i e xs ys where e: "position (\<lambda>e. el_key e = k) (tc_list c) = Some i"
    "remove_at i (tc_list c) = Some (e, xs @ ys)" "tc_list c = xs @ e # ys" "el_key e = k"
    using remove_position by metis
  have "e\<lparr>inserted := now\<rparr> = \<lparr>el_key = k, inserted = now\<rparr>" using e(4) by simp
  moreover have k: "k \<notin> el_key ` set (xs @ ys)" "distinct (map el_key (xs @ e # ys))"
    using assms(1) e(3,4) by (auto simp: cache_ok_def)
  ultimately have "raw_insert c now k = Some (False,
      c\<lparr>tc_map := insert k (tc_map c), tc_list := (xs @ ys) @ [\<lparr>el_key = k, inserted = now\<rparr>]\<rparr>)"
    using True e by (simp add: raw_insert_def Let_def)
  moreover have "map_of (map (\<lambda>e. (el_key e, inserted e)) ((xs @ ys) @ [\<lparr>el_key = k, inserted = now\<rparr>])) =
      (cache_times c)(k \<mapsto> now)"
    using cache_times_snoc [OF k(1), of now] cache_times_remove [OF k(2)] e(3,4)
    by (simp add: cache_times_def)
  moreover have "list_all (\<lambda>e. inserted e \<le> now) (xs @ ys)"
    using assms(1) e(3) le_trans [OF _ assms(2)] by (simp add: cache_ok_def list_all_iff)
  then have "cache_ok (c\<lparr>tc_map := insert k (tc_map c),
      tc_list := (xs @ ys) @ [\<lparr>el_key = k, inserted = now\<rparr>]\<rparr>) now"
    using assms(1) e(3,4) k by (auto simp: cache_ok_def sorted_append list_all_iff)
  moreover have "cache_times c k \<noteq> None" using True cache_times_None [OF assms(1)] by simp
  ultimately show ?thesis by (simp add: cache_times_def)
qed

lemma raw_remove_spec:
  assumes "cache_ok c t"
  shows "\<exists>c'. raw_remove c k = Some (cache_times c k \<noteq> None, c') \<and>
    cache_times c' = (cache_times c)(k := None) \<and> tc_ttl c' = tc_ttl c \<and> cache_ok c' t"
proof (cases "k \<in> tc_map c")
  case False
  then show ?thesis using assms by (auto simp: raw_remove_def cache_times_None [OF assms] fun_upd_idem)
next
  case True
  then have "k \<in> el_key ` set (tc_list c)" using assms by (simp add: cache_ok_def)
  then obtain i e xs ys where e: "position (\<lambda>e. el_key e = k) (tc_list c) = Some i"
    "remove_at i (tc_list c) = Some (e, xs @ ys)" "tc_list c = xs @ e # ys" "el_key e = k"
    using remove_position by metis
  have k: "distinct (map el_key (xs @ e # ys))" using assms e(3) by (simp add: cache_ok_def)
  have "cache_times c k \<noteq> None" using True cache_times_None [OF assms] by simp
  moreover have "raw_remove c k = Some (True, c\<lparr>tc_map := tc_map c - {k}, tc_list := xs @ ys\<rparr>)"
    using True e by (simp add: raw_remove_def)
  moreover have "map_of (map (\<lambda>e. (el_key e, inserted e)) (xs @ ys)) = (cache_times c)(k := None)"
    using cache_times_remove [OF k] e(3,4) by (simp add: cache_times_def)
  moreover have "cache_ok (c\<lparr>tc_map := tc_map c - {k}, tc_list := xs @ ys\<rparr>) t"
    using assms e(3,4) k by (auto simp: cache_ok_def sorted_append list_all_iff)
  ultimately show ?thesis by (simp add: cache_times_def)
qed

lemma pop_expired_eq:
  assumes "distinct (map el_key es)" "m = el_key ` set es"
  shows "pop_expired t now es m =
    (let P = (\<lambda>e. inserted e + t \<le> now) in
     (map el_key (takeWhile P es), dropWhile P es, el_key ` set (dropWhile P es)))"
  using assms
proof (induction es arbitrary: m)
  case (Cons e es)
  then have "insert (el_key e) (el_key ` set es) - {el_key e} = el_key ` set es" by auto
  with Cons show ?case by (auto simp: Let_def not_less)
qed simp

lemma sorted_takeWhile:
  "sorted (map inserted es) \<Longrightarrow>
   takeWhile (\<lambda>e. inserted e + t \<le> now) es = filter (\<lambda>e. inserted e + t \<le> now) es"
  by (induction es) (auto intro!: filter_False [symmetric])

lemma sorted_dropWhile:
  "sorted (map inserted es) \<Longrightarrow>
   dropWhile (\<lambda>e. inserted e + t \<le> now) es = filter (\<lambda>e. \<not> inserted e + t \<le> now) es"
  by (induction es) (auto intro!: filter_True [symmetric])

lemma map_of_filter_el:
  "distinct (map el_key es) \<Longrightarrow>
   map_of (map (\<lambda>e. (el_key e, inserted e)) (filter (\<lambda>e. P (inserted e)) es)) =
   (\<lambda>k. case map_of (map (\<lambda>e. (el_key e, inserted e)) es) k of
          Some s \<Rightarrow> if P s then Some s else None | None \<Rightarrow> None)"
proof (induction es)
  case (Cons e es)
  then have "map_of (map (\<lambda>e. (el_key e, inserted e)) es) (el_key e) = None"
    by (auto simp: map_of_eq_None_iff image_image)
  then show ?case using Cons by (auto simp: fun_eq_iff split: option.splits)
qed simp

lemma cache_times_Some:
  "cache_ok c t \<Longrightarrow> cache_times c k = Some s \<longleftrightarrow> (\<exists>e \<in> set (tc_list c). el_key e = k \<and> inserted e = s)"
  unfolding cache_ok_def cache_times_def
  by (subst map_of_eq_Some_iff) (auto simp: comp_def image_iff)

lemma remove_expired_eq:
  assumes "cache_ok c t"
  shows "remove_expired c now =
    (map el_key (filter (\<lambda>e. inserted e + tc_ttl c \<le> now) (tc_list c)),
     c\<lparr>tc_list := filter (\<lambda>e. \<not> inserted e + tc_ttl c \<le> now) (tc_list c),
       tc_map := el_key ` set (filter (\<lambda>e. \<not> inserted e + tc_ttl c \<le> now) (tc_list c))\<rparr>)"
  using assms
  by (auto simp: remove_expired_def cache_ok_def pop_expired_eq sorted_takeWhile sorted_dropWhile Let_def)

lemma remove_expired_spec:
  assumes "cache_ok c t" "t \<le> now" "remove_expired c now = (ks, c')"
  shows "set ks = {k. \<exists>s. cache_times c k = Some s \<and> s + tc_ttl c \<le> now} \<and> distinct ks \<and>
    cache_times c' = (\<lambda>k. if k \<in> set ks then None else cache_times c k) \<and>
    tc_ttl c' = tc_ttl c \<and> cache_ok c' now"
proof -
  have ks: "ks = map el_key (filter (\<lambda>e. inserted e + tc_ttl c \<le> now) (tc_list c))"
    and c': "c' = c\<lparr>tc_list := filter (\<lambda>e. \<not> inserted e + tc_ttl c \<le> now) (tc_list c),
       tc_map := el_key ` set (filter (\<lambda>e. \<not> inserted e + tc_ttl c \<le> now) (tc_list c))\<rparr>"
    using assms(3) by (simp_all add: remove_expired_eq [OF assms(1)])
  have set: "set ks = {k. \<exists>s. cache_times c k = Some s \<and> s + tc_ttl c \<le> now}"
    by (auto simp: ks cache_times_Some [OF assms(1)])
  have "cache_times c' = (\<lambda>k. case cache_times c k of
          Some s \<Rightarrow> if \<not> s + tc_ttl c \<le> now then Some s else None | None \<Rightarrow> None)"
    using assms(1) map_of_filter_el [of "tc_list c" "\<lambda>s. \<not> s + tc_ttl c \<le> now"]
    by (simp add: c' cache_times_def cache_ok_def)
  then have "cache_times c' = (\<lambda>k. if k \<in> set ks then None else cache_times c k)"
    by (auto simp: set fun_eq_iff split: option.splits)
  moreover have "cache_ok c' now"
    using assms(1,2) by (auto simp: c' cache_ok_def list_all_iff sorted_map_same sorted_filter distinct_map_filter)
  ultimately show ?thesis using set assms(1) by (auto simp: ks c' cache_ok_def distinct_map_filter)
qed

interpretation lru: expiring_set cache_times tc_ttl cache_ok raw_insert raw_remove remove_expired
  by unfold_locales (blast intro: raw_insert_spec raw_remove_spec | (drule (2) remove_expired_spec, blast))+

lemma lru_update_eq: "lru_update c now = snd (remove_expired c now)"
  by (simp add: lru_update_def remove_expired_def split: prod.splits)

section \<open>Sequences of operations\<close>

datatype 'k cache_op =
    CInsert nanos 'k
  | CRawInsert nanos 'k
  | CRemove 'k
  | CExpire nanos

fun cache_step :: "'k lru_time_cache \<Rightarrow> 'k cache_op \<Rightarrow> 'k lru_time_cache option" where
  "cache_step c (CInsert now k) = map_option snd (lru_insert c now k)"
| "cache_step c (CRawInsert now k) = map_option snd (raw_insert c now k)"
| "cache_step c (CRemove k) = map_option snd (raw_remove c k)"
| "cache_step c (CExpire now) = Some (snd (remove_expired c now))"

fun cache_run :: "'k lru_time_cache \<Rightarrow> 'k cache_op list \<Rightarrow> 'k lru_time_cache option" where
  "cache_run c [] = Some c"
| "cache_run c (x # xs) = Option.bind (cache_step c x) (\<lambda>c'. cache_run c' xs)"

text \<open>The specification: a map from keys to insertion times with a life time.\<close>

definition drop_expired :: "nanos \<Rightarrow> nanos \<Rightarrow> ('k \<rightharpoonup> nanos) \<Rightarrow> ('k \<rightharpoonup> nanos)" where
  "drop_expired t now m = (\<lambda>k. case m k of Some s \<Rightarrow> if s + t \<le> now then None else Some s | None \<Rightarrow> None)"

fun spec_step :: "nanos \<Rightarrow> ('k \<rightharpoonup> nanos) \<Rightarrow> 'k cache_op \<Rightarrow> ('k \<rightharpoonup> nanos)" where
  "spec_step t m (CInsert now k) = (drop_expired t now m)(k \<mapsto> now)"
| "spec_step t m (CRawInsert now k) = m(k \<mapsto> now)"
| "spec_step t m (CRemove k) = m(k := None)"
| "spec_step t m (CExpire now) = drop_expired t now m"

fun cache_clock :: "nanos \<Rightarrow> 'k cache_op list \<Rightarrow> nanos option" where
  "cache_clock t [] = Some t"
| "cache_clock t (CInsert now k # xs) = (if t \<le> now then cache_clock now xs else None)"
| "cache_clock t (CRawInsert now k # xs) = (if t \<le> now then cache_clock now xs else None)"
| "cache_clock t (CRemove k # xs) = cache_clock t xs"
| "cache_clock t (CExpire now # xs) = (if t \<le> now then cache_clock now xs else None)"

lemma expire_times:
  assumes "cache_ok c t" "t \<le> now"
  shows "cache_times (snd (remove_expired c now)) = drop_expired (tc_ttl c) now (cache_times c)"
    "tc_ttl (snd (remove_expired c now)) = tc_ttl c" "cache_ok (snd (remove_expired c now)) now"
proof -
  obtain ks c' where e: "remove_expired c now = (ks, c')" by fastforce
  note sp = lru.expire_spec [OF assms e]
  then show "cache_times (snd (remove_expired c now)) = drop_expired (tc_ttl c) now (cache_times c)"
    using e by (auto simp: drop_expired_def fun_eq_iff split: option.splits)
  show "tc_ttl (snd (remove_expired c now)) = tc_ttl c" "cache_ok (snd (remove_expired c now)) now"
    using sp e by simp_all
qed

lemma insert_times:
  assumes "cache_ok c t" "t \<le> now"
  shows "\<exists>c'. raw_insert c now k = Some (cache_times c k = None, c') \<and>
      cache_times c' = (cache_times c)(k \<mapsto> now) \<and> tc_ttl c' = tc_ttl c \<and> cache_ok c' now"
    "\<exists>c'. lru_insert c now k = Some (drop_expired (tc_ttl c) now (cache_times c) k = None, c') \<and>
      cache_times c' = (drop_expired (tc_ttl c) now (cache_times c))(k \<mapsto> now) \<and>
      tc_ttl c' = tc_ttl c \<and> cache_ok c' now"
  using lru.ins_spec [OF assms, of k] lru.ins_spec [OF expire_times(3) [OF assms] order_refl, of k]
  by (simp_all add: lru_insert_def lru_update_eq expire_times [OF assms])

lemma cache_run_spec:
  "cache_ok c t \<Longrightarrow> cache_clock t xs = Some t' \<Longrightarrow>
   \<exists>c'. cache_run c xs = Some c' \<and> cache_times c' = foldl (spec_step (tc_ttl c)) (cache_times c) xs \<and>
        tc_ttl c' = tc_ttl c \<and> cache_ok c' t'"
proof (induction c xs arbitrary: t rule: cache_run.induct)
  case (2 c x xs)
  show ?case
  proof (cases x)
    case (CInsert now k)
    then show ?thesis using 2 insert_times(2) [of c t now k] by (fastforce split: if_splits)
  next
    case (CRawInsert now k)
    then show ?thesis using 2 insert_times(1) [of c t now k] by (fastforce split: if_splits)
  next
    case (CRemove k)
    then show ?thesis using 2 lru.del_spec [of c t k] by fastforce
  next
    case (CExpire now)
    then show ?thesis using 2 expire_times [of c t now] by (fastforce split: if_splits)
  qed
qed simp

lemma lru_new_ok:
  "cache_ok (lru_new life) 0" "cache_times (lru_new life) = Map.empty" "tc_ttl (lru_new life) = life"
  by (simp_all add: cache_ok_def cache_times_def lru_new_def)

lemma lru_contains_spec:
  "cache_ok c t \<Longrightarrow> t \<le> now \<Longrightarrow>
   fst (lru_contains c now k) \<longleftrightarrow> (\<exists>s. cache_times c k = Some s \<and> now < s + tc_ttl c)"
  using cache_times_None [OF expire_times(3), of c t now k]
  by (auto simp: lru_contains_def lru_update_eq expire_times drop_expired_def Let_def
      split: option.splits if_splits)

section \<open>Properties\<close>

text \<open>
  C25. The cache implements an expiring set: on every sequence of insertions, removals and
  expirations in the order of time it never panics, keeps the invariant the source checks in its
  tests, and afterwards contains a key exactly if the specification has it with an insertion
  younger than the time to live.
\<close>

theorem lru_time_cache_refines:
  assumes "cache_clock 0 xs = Some t" "t \<le> now"
  shows "\<exists>c. cache_run (lru_new life) xs = Some c \<and> cache_ok c t \<and>
    (fst (lru_contains c now k) \<longleftrightarrow>
       (\<exists>s. foldl (spec_step life) Map.empty xs k = Some s \<and> now < s + life))"
proof -
  obtain c where "cache_run (lru_new life) xs = Some c" "cache_ok c t"
    "cache_times c = foldl (spec_step life) Map.empty xs" "tc_ttl c = life"
    using cache_run_spec [OF lru_new_ok(1) assms(1), of life] by (auto simp: lru_new_ok)
  then show ?thesis using lru_contains_spec [of c t now k] assms(2) by simp
qed

theorem lru_time_cache_refines_witness:
  "\<exists>c. cache_run (lru_new 10) [CInsert 1 ''a'', CRawInsert 5 ''a'', CInsert 6 ''b'', CRemove ''b''] = Some c \<and>
     cache_ok c 6 \<and> fst (lru_contains c 14 ''a'')"
  using lru_time_cache_refines [of "[CInsert 1 ''a'', CRawInsert 5 ''a'', CInsert 6 ''b'', CRemove ''b'']" 6 14 10 "''a''"]
  by (simp add: drop_expired_def)

end
