(* ===== verification/Float64.thy ===== *)
theory Float64
  imports Complex_Main
begin

text \<open>
  The \<open>f64\<close> values of the scoring code: finite numbers, the two infinities and not-a-number,
  with the comparisons and operations the source uses. Arithmetic on finite numbers is exact:
  rounding and the sign of zero are not modelled.
\<close>

datatype f64 = Fin real | PInf | NInf | NaN

datatype ordering = Less | Equal | Greater

fun ordering_reverse :: "ordering \<Rightarrow> ordering" where
  "ordering_reverse Less = Greater"
| "ordering_reverse Equal = Equal"
| "ordering_reverse Greater = Less"

text \<open>The operators \<open><=\<close>, \<open><\<close>: false as soon as one side is not a number.\<close>

fun f64_le :: "f64 \<Rightarrow> f64 \<Rightarrow> bool" where
  "f64_le (Fin a) (Fin b) \<longleftrightarrow> a \<le> b"
| "f64_le NaN _ \<longleftrightarrow> False"
| "f64_le _ NaN \<longleftrightarrow> False"
| "f64_le NInf _ \<longleftrightarrow> True"
| "f64_le _ PInf \<longleftrightarrow> True"
| "f64_le _ _ \<longleftrightarrow> False"

definition f64_lt :: "f64 \<Rightarrow> f64 \<Rightarrow> bool" where
  "f64_lt a b \<longleftrightarrow> f64_le a b \<and> \<not> f64_le b a"

definition is_nan :: "f64 \<Rightarrow> bool" where
  "is_nan x \<longleftrightarrow> x = NaN"

definition f64_partial_cmp :: "f64 \<Rightarrow> f64 \<Rightarrow> ordering option" where
  "f64_partial_cmp a b =
     (if is_nan a \<or> is_nan b then None
      else if f64_le a b then (if f64_le b a then Some Equal else Some Less)
      else Some Greater)"

fun f64_add :: "f64 \<Rightarrow> f64 \<Rightarrow> f64" where
  "f64_add (Fin a) (Fin b) = Fin (a + b)"
| "f64_add NaN _ = NaN"
| "f64_add _ NaN = NaN"
| "f64_add PInf NInf = NaN"
| "f64_add NInf PInf = NaN"
| "f64_add PInf _ = PInf"
| "f64_add _ PInf = PInf"
| "f64_add NInf _ = NInf"
| "f64_add _ NInf = NInf"

fun f64_sgn :: "f64 \<Rightarrow> real" where
  "f64_sgn (Fin a) = sgn a"
| "f64_sgn PInf = 1"
| "f64_sgn NInf = -1"
| "f64_sgn NaN = 0"

definition f64_mul :: "f64 \<Rightarrow> f64 \<Rightarrow> f64" where
  "f64_mul x y =
     (if is_nan x \<or> is_nan y then NaN
      else case (x, y) of
             (Fin a, Fin b) \<Rightarrow> Fin (a * b)
           | _ \<Rightarrow> (let s = f64_sgn x * f64_sgn y in
                   if 0 < s then PInf else if s < 0 then NInf else NaN))"

text \<open>\<open>x.clamp(min, max)\<close>.\<close>

definition f64_clamp :: "f64 \<Rightarrow> f64 \<Rightarrow> f64 \<Rightarrow> f64" where
  "f64_clamp x mn mx = (let y = (if f64_lt x mn then mn else x) in if f64_lt mx y then mx else y)"

lemma f64_lt_Fin [simp]: "f64_lt (Fin a) (Fin b) \<longleftrightarrow> a < b"
  by (auto simp: f64_lt_def)

lemma is_nan_simps [simp]: "\<not> is_nan (Fin a)" "is_nan NaN" "\<not> is_nan PInf" "\<not> is_nan NInf"
  by (simp_all add: is_nan_def)

lemma f64_mul_Fin [simp]: "f64_mul (Fin a) (Fin b) = Fin (a * b)"
  by (simp add: f64_mul_def)

lemma f64_clamp_Fin: "mn \<le> mx \<Longrightarrow> f64_clamp (Fin x) (Fin mn) (Fin mx) = Fin (min mx (max mn x))"
  by (auto simp: f64_clamp_def)

lemma f64_le_total: "\<not> is_nan a \<Longrightarrow> \<not> is_nan b \<Longrightarrow> f64_le a b \<or> f64_le b a"
  by (cases a; cases b) auto

lemma f64_le_trans: "f64_le a b \<Longrightarrow> f64_le b c \<Longrightarrow> f64_le a c"
  by (cases a; cases b; cases c) auto

lemma f64_le_not_nan: "f64_le a b \<Longrightarrow> \<not> is_nan a \<and> \<not> is_nan b"
  by (cases a; cases b) auto

lemma f64_add_mono_Fin: "p \<le> q \<Longrightarrow> f64_le (f64_add (Fin q) y) (Fin c) \<Longrightarrow> f64_le (f64_add (Fin p) y) (Fin c)"
  by (cases y) auto

end
