(* ===== verification/Comparison.thy ===== *)
theory Comparison
  imports Float64 "HOL-Library.Multiset"
begin

text \<open>
  Sorting and choosing by a comparison, as the slice and iterator methods of the standard library
  do it (\<open>sort_by\<close>, \<open>max_by\<close>): the comparison is any function into \<open>ordering\<close>, and the results mean
  something when it is a total order. The locale states that contract; every comparison of the
  program interprets it.
\<close>

fun insert_by :: "('a \<Rightarrow> 'a \<Rightarrow> ordering) \<Rightarrow> 'a \<Rightarrow> 'a list \<Rightarrow> 'a list" where
  "insert_by cmp x [] = [x]"
| "insert_by cmp x (y # ys) = (if cmp x y = Greater then y # insert_by cmp x ys else x # y # ys)"

text \<open>A stable sort.\<close>

definition sort_by :: "('a \<Rightarrow> 'a \<Rightarrow> ordering) \<Rightarrow> 'a list \<Rightarrow> 'a list" where
  "sort_by cmp xs = foldr (insert_by cmp) xs []"

text \<open>\<open>max_by\<close> returns the last of the greatest elements.\<close>

fun max_by :: "('a \<Rightarrow> 'a \<Rightarrow> ordering) \<Rightarrow> 'a list \<Rightarrow> 'a option" where
  "max_by cmp [] = None"
| "max_by cmp (x # xs) = Some (fold (\<lambda>y m. if cmp m y = Greater then m else y) xs x)"

lemma mset_insert_by [simp]: "mset (insert_by cmp x ys) = add_mset x (mset ys)"
  by (induction ys) auto

lemma mset_sort_by [simp]: "mset (sort_by cmp xs) = mset xs"
  by (induction xs) (simp_all add: sort_by_def)

lemma set_insert_by [simp]: "set (insert_by cmp x ys) = insert x (set ys)"
  by (metis mset_insert_by set_mset_add_mset_insert set_mset_mset)

lemma set_sort_by [simp]: "set (sort_by cmp xs) = set xs"
  by (metis mset_sort_by set_mset_mset)

locale comparison =
  fixes cmp :: "'a \<Rightarrow> 'a \<Rightarrow> ordering"
  assumes cmp_swap: "cmp a b = ordering_reverse (cmp b a)"
    and cmp_trans: "cmp a b \<noteq> Greater \<Longrightarrow> cmp b c \<noteq> Greater \<Longrightarrow> cmp a c \<noteq> Greater"
begin

lemma cmp_refl: "cmp a a = Equal"
  using cmp_swap [of a a] by (cases "cmp a a") simp_all

lemma cmp_total: "cmp a b = Greater \<Longrightarrow> cmp b a \<noteq> Greater"
  using cmp_swap [of a b] by auto

lemma insert_by_sorted:
  "sorted_wrt (\<lambda>a b. cmp a b \<noteq> Greater) ys \<Longrightarrow> sorted_wrt (\<lambda>a b. cmp a b \<noteq> Greater) (insert_by cmp x ys)"
  by (induction ys) (auto dest: cmp_total cmp_trans)

lemma sort_by_sorted: "sorted_wrt (\<lambda>a b. cmp a b \<noteq> Greater) (sort_by cmp xs)"
  by (induction xs) (simp_all add: sort_by_def insert_by_sorted)

lemma max_by_greatest:
  assumes "max_by cmp xs = Some m"
  shows "m \<in> set xs \<and> (\<forall>y \<in> set xs. cmp y m \<noteq> Greater)"
proof (cases xs)
  case (Cons x ys)
  have "fold (\<lambda>y m. if cmp m y = Greater then m else y) ys x \<in> insert x (set ys) \<and>
      (\<forall>y \<in> insert x (set ys). cmp y (fold (\<lambda>y m. if cmp m y = Greater then m else y) ys x) \<noteq> Greater)" for x ys
  proof (induction ys arbitrary: x)
    case (Cons y ys)
    show ?case
    proof (cases "cmp x y = Greater")
      case True
      then have "cmp y x \<noteq> Greater" by (rule cmp_total)
      then show ?thesis using Cons.IH [of x] True by (auto dest: cmp_trans)
    next
      case False
      then show ?thesis using Cons.IH [of y] by (auto dest: cmp_trans [OF False])
    qed
  qed (simp add: cmp_refl)
  with assms Cons show ?thesis by auto
qed (use assms in simp)

lemma max_by_Some: "xs \<noteq> [] \<Longrightarrow> \<exists>m. max_by cmp xs = Some m"
  by (cases xs) simp_all

end

end
