(* ===== verification/Score.thy ===== *)
theory Score
  imports Prelude Comparison
begin

text \<open>
  The peer scores of \<open>peer_manager/peerdb/score.rs\<close>. Instants are nanoseconds; every operation
  that reads the clock takes the current instant as an argument.
\<close>

section \<open>Constants\<close>

abbreviation DEFAULT_SCORE :: f64 where "DEFAULT_SCORE \<equiv> Fin 0"
abbreviation MIN_SCORE_BEFORE_DISCONNECT :: f64 where "MIN_SCORE_BEFORE_DISCONNECT \<equiv> Fin (-20)"
abbreviation MIN_SCORE_BEFORE_BAN :: f64 where "MIN_SCORE_BEFORE_BAN \<equiv> Fin (-50)"
abbreviation MIN_PEER_SCORE_BEFORE_BAN :: f64 where "MIN_PEER_SCORE_BEFORE_BAN \<equiv> Fin (-60)"
abbreviation MAX_SCORE :: f64 where "MAX_SCORE \<equiv> Fin 100"
abbreviation MIN_SCORE :: f64 where "MIN_SCORE \<equiv> Fin (-100)"
definition SCORE_HALFLIFE :: real where "SCORE_HALFLIFE = 600"
definition BANNED_BEFORE_DECAY :: nanos where "BANNED_BEFORE_DECAY = secs (12 * 3600)"
definition GREYLIST_THRESHOLD :: real where "GREYLIST_THRESHOLD = -16000"

definition GOSSIPSUB_NEGATIVE_SCORE_WEIGHT :: f64 where
  "GOSSIPSUB_NEGATIVE_SCORE_WEIGHT = Fin ((-20 + 1) / GREYLIST_THRESHOLD)"
definition GOSSIPSUB_POSITIVE_SCORE_WEIGHT :: f64 where
  "GOSSIPSUB_POSITIVE_SCORE_WEIGHT = GOSSIPSUB_NEGATIVE_SCORE_WEIGHT"

definition HALFLIFE_DECAY :: real where
  "HALFLIFE_DECAY = - ln 2 / SCORE_HALFLIFE"

lemmas score_constants =
  GREYLIST_THRESHOLD_def
  GOSSIPSUB_NEGATIVE_SCORE_WEIGHT_def GOSSIPSUB_POSITIVE_SCORE_WEIGHT_def

section \<open>Real scores\<close>

datatype peer_action = Fatal | LowToleranceError | MidToleranceError | HighToleranceError

datatype score_state = Healthy | ForcedDisconnect | BannedState

record real_score =
  peer_score :: f64
  gossipsub_score :: f64
  ignore_negative_gossipsub_score :: bool
  rs_score :: f64
  last_updated :: nanos

definition real_score_default :: "nanos \<Rightarrow> real_score" where
  "real_score_default now =
     \<lparr>peer_score = DEFAULT_SCORE, gossipsub_score = DEFAULT_SCORE,
      ignore_negative_gossipsub_score = False, rs_score = DEFAULT_SCORE, last_updated = now\<rparr>"

definition recompute_score :: "real_score \<Rightarrow> real_score" where
  "recompute_score s =
     (if f64_le (peer_score s) MIN_PEER_SCORE_BEFORE_BAN then s\<lparr>rs_score := peer_score s\<rparr>
      else if f64_le (Fin 0) (gossipsub_score s)
      then s\<lparr>rs_score := f64_add (peer_score s)
                           (f64_mul (gossipsub_score s) GOSSIPSUB_POSITIVE_SCORE_WEIGHT)\<rparr>
      else if \<not> ignore_negative_gossipsub_score s
      then s\<lparr>rs_score := f64_add (peer_score s)
                           (f64_mul (gossipsub_score s) GOSSIPSUB_NEGATIVE_SCORE_WEIGHT)\<rparr>
      else s\<lparr>rs_score := peer_score s\<rparr>)"

definition update_state :: "real_score \<Rightarrow> real_score" where
  "update_state s =
     (let was_not_banned = f64_lt MIN_SCORE_BEFORE_BAN (rs_score s);
          s' = recompute_score s in
      if was_not_banned \<and> f64_le (rs_score s') MIN_SCORE_BEFORE_BAN
      then s'\<lparr>last_updated := last_updated s' + BANNED_BEFORE_DECAY\<rparr>
      else s')"

definition set_peer_score :: "real_score \<Rightarrow> f64 \<Rightarrow> real_score" where
  "set_peer_score s new_score = update_state (s\<lparr>peer_score := new_score\<rparr>)"

definition add_score :: "real_score \<Rightarrow> f64 \<Rightarrow> real_score" where
  "add_score s x = set_peer_score s (f64_clamp (f64_add (peer_score s) x) MIN_SCORE MAX_SCORE)"

fun real_apply_peer_action :: "real_score \<Rightarrow> peer_action \<Rightarrow> real_score" where
  "real_apply_peer_action s Fatal = set_peer_score s MIN_SCORE"
| "real_apply_peer_action s LowToleranceError = add_score s (Fin (-10))"
| "real_apply_peer_action s MidToleranceError = add_score s (Fin (-5))"
| "real_apply_peer_action s HighToleranceError = add_score s (Fin (-1))"

definition decay_factor :: "nat \<Rightarrow> real" where
  "decay_factor s = exp (HALFLIFE_DECAY * of_nat s)"

definition whole_secs :: "nanos \<Rightarrow> nat" where
  "whole_secs d = d div 1000000000"

definition update_at :: "real_score \<Rightarrow> nanos \<Rightarrow> real_score" where
  "update_at s now =
     (if last_updated s \<le> now
      then let secs_since_update = whole_secs (now - last_updated s) in
           update_state (s\<lparr>peer_score := f64_mul (peer_score s) (Fin (decay_factor secs_since_update)),
                           last_updated := now\<rparr>)
      else s)"

definition real_update_gossipsub_score :: "real_score \<Rightarrow> nanos \<Rightarrow> f64 \<Rightarrow> bool \<Rightarrow> real_score" where
  "real_update_gossipsub_score s now new_score ignore =
     (if last_updated s \<le> now
      then update_state (s\<lparr>gossipsub_score := new_score, ignore_negative_gossipsub_score := ignore\<rparr>)
      else s)"

definition real_is_good_gossipsub_peer :: "real_score \<Rightarrow> bool" where
  "real_is_good_gossipsub_peer s \<longleftrightarrow> f64_le (Fin 0) (gossipsub_score s)"

section \<open>Scores\<close>

datatype score = MaxScore | Real real_score

definition score_default :: "nanos \<Rightarrow> score" where
  "score_default now = Real (real_score_default now)"

fun apply_peer_action :: "score \<Rightarrow> peer_action \<Rightarrow> score" where
  "apply_peer_action MaxScore a = MaxScore"
| "apply_peer_action (Real s) a = Real (real_apply_peer_action s a)"

fun score_update :: "score \<Rightarrow> nanos \<Rightarrow> score" where
  "score_update MaxScore now = MaxScore"
| "score_update (Real s) now = Real (update_at s now)"

fun update_gossipsub_score :: "score \<Rightarrow> nanos \<Rightarrow> f64 \<Rightarrow> bool \<Rightarrow> score" where
  "update_gossipsub_score MaxScore now x ignore = MaxScore"
| "update_gossipsub_score (Real s) now x ignore = Real (real_update_gossipsub_score s now x ignore)"

fun score_value :: "score \<Rightarrow> f64" where
  "score_value MaxScore = PInf"
| "score_value (Real s) = rs_score s"

definition max_score :: score where
  "max_score = MaxScore"

definition state_of_value :: "f64 \<Rightarrow> score_state" where
  "state_of_value x =
     (if f64_le x MIN_SCORE_BEFORE_BAN then BannedState
      else if f64_le x MIN_SCORE_BEFORE_DISCONNECT then ForcedDisconnect
      else Healthy)"

definition score_state :: "score \<Rightarrow> score_state" where
  "score_state s = state_of_value (score_value s)"

fun is_good_gossipsub_peer :: "score \<Rightarrow> bool" where
  "is_good_gossipsub_peer MaxScore = True"
| "is_good_gossipsub_peer (Real s) = real_is_good_gossipsub_peer s"

definition score_total_cmp :: "score \<Rightarrow> score \<Rightarrow> bool \<Rightarrow> ordering" where
  "score_total_cmp a b reverse =
     (case f64_partial_cmp (score_value a) (score_value b) of
        Some v \<Rightarrow> if reverse then ordering_reverse v else v
      | None \<Rightarrow>
          if is_nan (score_value a) \<and> \<not> is_nan (score_value b) then Less
          else if \<not> is_nan (score_value a) \<and> is_nan (score_value b) then Greater
          else Equal)"

interpretation score_order: comparison "\<lambda>a b. score_total_cmp a b reverse" for reverse
proof
  fix a b c
  show "score_total_cmp a b reverse = ordering_reverse (score_total_cmp b a reverse)"
    using f64_le_total [of "score_value a" "score_value b"]
    by (auto simp: score_total_cmp_def f64_partial_cmp_def)
  show "score_total_cmp a b reverse \<noteq> Greater \<Longrightarrow> score_total_cmp b c reverse \<noteq> Greater \<Longrightarrow>
     score_total_cmp a c reverse \<noteq> Greater"
    using f64_le_total [of "score_value a" "score_value b"] f64_le_total [of "score_value b" "score_value c"]
      f64_le_trans [of "score_value a" "score_value b" "score_value c"]
      f64_le_trans [of "score_value c" "score_value b" "score_value a"]
      f64_le_total [of "score_value a" "score_value c"]
    by (auto simp: score_total_cmp_def f64_partial_cmp_def split: if_splits)
qed

section \<open>The invariant\<close>

text \<open>The score that follows from its parts, as \<open>recompute_score\<close> computes it.\<close>

definition combined :: "f64 \<Rightarrow> f64 \<Rightarrow> bool \<Rightarrow> f64" where
  "combined p g ignore = rs_score (recompute_score
     \<lparr>peer_score = p, gossipsub_score = g, ignore_negative_gossipsub_score = ignore,
      rs_score = p, last_updated = 0\<rparr>)"

text \<open>
  Reports only lower a score and decay moves it to zero: the peer score stays in \<open>[-100, 0]\<close>,
  and the score agrees with its parts.
\<close>

definition real_score_inv :: "real_score \<Rightarrow> bool" where
  "real_score_inv s \<longleftrightarrow>
     (\<exists>p. peer_score s = Fin p \<and> -100 \<le> p \<and> p \<le> 0) \<and>
     rs_score s = combined (peer_score s) (gossipsub_score s) (ignore_negative_gossipsub_score s)"

lemma recompute_fields [simp]:
  "peer_score (recompute_score s) = peer_score s"
  "gossipsub_score (recompute_score s) = gossipsub_score s"
  "ignore_negative_gossipsub_score (recompute_score s) = ignore_negative_gossipsub_score s"
  "last_updated (recompute_score s) = last_updated s"
  "rs_score (recompute_score s) =
     combined (peer_score s) (gossipsub_score s) (ignore_negative_gossipsub_score s)"
  by (simp_all add: recompute_score_def combined_def)

lemma update_state_fields [simp]:
  "peer_score (update_state s) = peer_score s"
  "gossipsub_score (update_state s) = gossipsub_score s"
  "ignore_negative_gossipsub_score (update_state s) = ignore_negative_gossipsub_score s"
  "rs_score (update_state s) =
     combined (peer_score s) (gossipsub_score s) (ignore_negative_gossipsub_score s)"
  by (simp_all add: update_state_def Let_def)

lemma last_updated_update_state:
  "last_updated (update_state s) =
     (if f64_lt MIN_SCORE_BEFORE_BAN (rs_score s) \<and>
         f64_le (combined (peer_score s) (gossipsub_score s) (ignore_negative_gossipsub_score s))
           MIN_SCORE_BEFORE_BAN
      then last_updated s + BANNED_BEFORE_DECAY else last_updated s)"
  by (simp add: update_state_def Let_def)

lemma combined_low: "p \<le> -60 \<Longrightarrow> combined (Fin p) g ign = Fin p"
  by (simp add: combined_def recompute_score_def score_constants)

lemma combined_high:
  "-60 < p \<Longrightarrow> combined (Fin p) g ign =
     (if f64_le (Fin 0) g \<or> \<not> ign then f64_add (Fin p) (f64_mul g GOSSIPSUB_NEGATIVE_SCORE_WEIGHT)
      else Fin p)"
  by (simp add: combined_def recompute_score_def score_constants)

text \<open>The amount an action takes off a peer score.\<close>

fun penalty :: "peer_action \<Rightarrow> real" where
  "penalty Fatal = 100"
| "penalty LowToleranceError = 10"
| "penalty MidToleranceError = 5"
| "penalty HighToleranceError = 1"

lemma penalty_pos: "0 < penalty a"
  by (cases a) simp_all

lemma apply_action_fields:
  assumes "peer_score s = Fin p" "-100 \<le> p" "p \<le> 0"
  shows "peer_score (real_apply_peer_action s a) = Fin (max (-100) (p - penalty a))"
    "gossipsub_score (real_apply_peer_action s a) = gossipsub_score s"
    "ignore_negative_gossipsub_score (real_apply_peer_action s a) = ignore_negative_gossipsub_score s"
    "rs_score (real_apply_peer_action s a) =
       combined (Fin (max (-100) (p - penalty a))) (gossipsub_score s) (ignore_negative_gossipsub_score s)"
    "last_updated (real_apply_peer_action s a) =
       (if f64_lt MIN_SCORE_BEFORE_BAN (rs_score s) \<and>
           f64_le (rs_score (real_apply_peer_action s a)) MIN_SCORE_BEFORE_BAN
        then last_updated s + BANNED_BEFORE_DECAY else last_updated s)"
  using assms
  by (cases a; simp add: set_peer_score_def add_score_def f64_clamp_Fin
      last_updated_update_state max_def min_def)+

lemma decay_factor_bounds: "0 < decay_factor n" "decay_factor n \<le> 1"
  by (simp_all add: decay_factor_def HALFLIFE_DECAY_def SCORE_HALFLIFE_def)

lemma inv_default: "real_score_inv (real_score_default now)"
  by (simp add: real_score_inv_def real_score_default_def combined_high score_constants)

lemma inv_apply_action: "real_score_inv s \<Longrightarrow> real_score_inv (real_apply_peer_action s a)"
  using penalty_pos [of a] by (auto simp: real_score_inv_def apply_action_fields)

lemma decayed_range: "-100 \<le> p \<Longrightarrow> p \<le> 0 \<Longrightarrow> -100 \<le> p * decay_factor n \<and> p * decay_factor n \<le> 0 \<and> p \<le> p * decay_factor n"
  using decay_factor_bounds [of n] mult_left_mono_neg [of "decay_factor n" 1 p]
  by (auto simp: mult_nonpos_nonneg less_imp_le)

lemma inv_update_at: "real_score_inv s \<Longrightarrow> real_score_inv (update_at s now)"
  by (auto simp: real_score_inv_def update_at_def Let_def decayed_range)

lemma inv_update_gossipsub: "real_score_inv s \<Longrightarrow> real_score_inv (real_update_gossipsub_score s now x ign)"
  by (auto simp: real_score_inv_def real_update_gossipsub_score_def)

lemmas real_score_inv_intros = inv_default inv_apply_action inv_update_at inv_update_gossipsub

section \<open>Sequences of operations\<close>

datatype score_op = Act peer_action | Upd nanos | Gossip nanos f64 bool

fun score_step :: "real_score \<Rightarrow> score_op \<Rightarrow> real_score" where
  "score_step s (Act a) = real_apply_peer_action s a"
| "score_step s (Upd now) = update_at s now"
| "score_step s (Gossip now x ign) = real_update_gossipsub_score s now x ign"

fun op_before :: "nanos \<Rightarrow> score_op \<Rightarrow> bool" where
  "op_before t (Act a) \<longleftrightarrow> True"
| "op_before t (Upd now) \<longleftrightarrow> now < t"
| "op_before t (Gossip now x ign) \<longleftrightarrow> now < t"

definition banned_score :: "real_score \<Rightarrow> bool" where
  "banned_score s \<longleftrightarrow> f64_le (rs_score s) MIN_SCORE_BEFORE_BAN"

lemma score_state_banned: "score_state (Real s) = BannedState \<longleftrightarrow> banned_score s"
  by (simp add: score_state_def state_of_value_def banned_score_def)

lemma inv_score_step: "real_score_inv s \<Longrightarrow> real_score_inv (score_step s x)"
  by (cases x) (simp_all add: real_score_inv_intros)

text \<open>A lower peer score never lifts a ban.\<close>

lemma combined_mono:
  assumes "p \<le> q" "f64_le (combined (Fin q) g ign) MIN_SCORE_BEFORE_BAN"
  shows "f64_le (combined (Fin p) g ign) MIN_SCORE_BEFORE_BAN"
proof (cases "p \<le> -60")
  case True
  then show ?thesis by (simp add: combined_low score_constants)
next
  case False
  then show ?thesis using assms
    by (auto simp: combined_high intro: f64_add_mono_Fin [of p q] split: if_splits)
qed

lemma banned_step:
  assumes "real_score_inv s" "banned_score s" "op_before (last_updated s) x"
  shows "banned_score (score_step s x) \<and> last_updated (score_step s x) = last_updated s"
proof (cases x)
  case (Act a)
  obtain p where p: "peer_score s = Fin p" "-100 \<le> p" "p \<le> 0"
    and sc: "rs_score s = combined (Fin p) (gossipsub_score s) (ignore_negative_gossipsub_score s)"
    using assms(1) by (auto simp: real_score_inv_def)
  have "max (-100) (p - penalty a) \<le> p" using p penalty_pos [of a] by simp
  then have "banned_score (score_step s x)"
    using combined_mono [of "max (-100) (p - penalty a)" p] assms(2) sc Act
    by (simp add: banned_score_def apply_action_fields [OF p])
  then show ?thesis
    using Act assms(2) by (auto simp: banned_score_def apply_action_fields [OF p] f64_lt_def)
qed (use assms in \<open>simp_all add: update_at_def real_update_gossipsub_score_def\<close>)

lemma banned_steps:
  assumes "real_score_inv s" "banned_score s" "list_all (op_before (last_updated s)) ops"
  shows "banned_score (foldl score_step s ops)"
  using assms
proof (induction ops arbitrary: s)
  case (Cons x ops)
  then have "banned_score (score_step s x)" "last_updated (score_step s x) = last_updated s"
    using banned_step by simp_all
  then show ?case using Cons by (simp add: inv_score_step)
qed simp

lemma inv_steps: "real_score_inv s \<Longrightarrow> real_score_inv (foldl score_step s ops)"
  by (induction ops arbitrary: s) (simp_all add: inv_score_step)

section \<open>Decay\<close>

lemma decay_factor_add: "decay_factor (m + n) = decay_factor m * decay_factor n"
  by (simp add: decay_factor_def distrib_left exp_add)

lemma decay_factor_half: "601 \<le> n \<Longrightarrow> decay_factor n < 1 / 2"
proof -
  assume "601 \<le> n"
  then have "ln 2 * 1 < ln 2 * (real n / 600)" by (intro mult_strict_left_mono) auto
  then have "exp (- (ln 2 * (real n / 600))) < exp (- ln 2 :: real)" by simp
  also have "exp (- ln 2 :: real) = 1 / 2" by (simp add: exp_minus)
  finally show ?thesis by (simp add: decay_factor_def HALFLIFE_DECAY_def SCORE_HALFLIFE_def)
qed

fun state_rank :: "score_state \<Rightarrow> nat" where
  "state_rank Healthy = 0"
| "state_rank ForcedDisconnect = 1"
| "state_rank BannedState = 2"

lemma rank_mono:
  assumes "\<And>c. f64_le x (Fin c) \<Longrightarrow> f64_le y (Fin c)"
  shows "state_rank (state_of_value x) \<le> state_rank (state_of_value y)"
  using assms [of "-50"] assms [of "-20"] f64_le_trans [of _ "Fin (-50)" "Fin (-20)"]
  by (auto simp: state_of_value_def score_constants)

lemma rank_combined:
  assumes "p \<le> q"
  shows "state_rank (state_of_value (combined (Fin q) g ign)) \<le>
         state_rank (state_of_value (combined (Fin p) g ign))"
proof (cases "p \<le> -60")
  case True
  then show ?thesis
    by (cases "state_of_value (combined (Fin q) g ign)") (simp_all add: combined_low state_of_value_def score_constants)
next
  case False
  then show ?thesis using assms
    by (auto simp: combined_high intro!: rank_mono intro: f64_add_mono_Fin [of p q])
qed

lemma rank_update_at:
  assumes "real_score_inv s"
  shows "state_rank (score_state (Real (update_at s now))) \<le> state_rank (score_state (Real s))"
proof (cases "last_updated s \<le> now")
  case True
  obtain p where p: "peer_score s = Fin p" "-100 \<le> p" "p \<le> 0"
    and sc: "rs_score s = combined (Fin p) (gossipsub_score s) (ignore_negative_gossipsub_score s)"
    using assms by (auto simp: real_score_inv_def)
  then show ?thesis using True
    by (simp add: score_state_def update_at_def Let_def rank_combined decayed_range)
qed (simp add: update_at_def)

lemma foldl_actions_fields:
  assumes "peer_score s = Fin (max (-100) (-t))" "0 \<le> t"
    "gossipsub_score s = Fin 0" "rs_score s = peer_score s"
  shows "rs_score (foldl real_apply_peer_action s acts) =
    Fin (max (-100) (- (t + sum_list (map penalty acts))))"
  using assms
proof (induction acts arbitrary: s t)
  case (Cons a acts)
  have p: "-100 \<le> max (-100) (-t)" "max (-100) (-t) \<le> 0" using Cons.prems by auto
  note f = apply_action_fields [OF Cons.prems(1) p, of a]
  have m: "max (-100) (max (-100) (-t) - penalty a) = max (-100) (- (t + penalty a))"
    using penalty_pos [of a] by auto
  have "combined (Fin (max (-100) (- (t + penalty a)))) (Fin 0) ign = Fin (max (-100) (- (t + penalty a)))" for ign
    by (cases "max (-100) (- (t + penalty a)) \<le> -60")
      (auto simp: combined_low combined_high score_constants not_le)
  then show ?case
    using Cons.IH [of "real_apply_peer_action s a" "t + penalty a"] Cons.prems f m penalty_pos [of a]
    by (simp add: add.assoc)
qed simp

section \<open>Properties\<close>

text \<open>
  C24. A ban lasts. Once an operation (a report or a gossipsub update) takes a score from above
  the ban threshold to a banned one, the score is frozen until at least twelve hours after its
  previous update: whatever reports, decay updates and gossipsub updates arrive before that
  time, the peer stays banned.
\<close>

theorem ban_lasts:
  assumes "real_score_inv s" "f64_lt MIN_SCORE_BEFORE_BAN (rs_score s)"
    "score_state (Real (score_step s x)) = BannedState"
    "list_all (op_before (last_updated (score_step s x))) ops"
  shows "last_updated s + BANNED_BEFORE_DECAY \<le> last_updated (score_step s x) \<and>
         score_state (Real (foldl score_step (score_step s x) ops)) = BannedState"
proof
  obtain p where p: "peer_score s = Fin p" "-100 \<le> p" "p \<le> 0"
    using assms(1) by (auto simp: real_score_inv_def)
  show "last_updated s + BANNED_BEFORE_DECAY \<le> last_updated (score_step s x)"
    using assms(2,3)
    by (cases x) (auto simp: score_state_banned banned_score_def apply_action_fields [OF p] update_at_def
        real_update_gossipsub_score_def Let_def last_updated_update_state f64_lt_def split: if_splits)
  show "score_state (Real (foldl score_step (score_step s x) ops)) = BannedState"
    using assms by (simp add: score_state_banned banned_steps inv_score_step)
qed

theorem ban_lasts_witness:
  "last_updated (real_score_default 0) + BANNED_BEFORE_DECAY \<le>
     last_updated (score_step (real_score_default 0) (Act Fatal)) \<and>
   score_state (Real (foldl score_step (score_step (real_score_default 0) (Act Fatal))
     [Upd (secs 43199), Gossip (secs 100) PInf False, Act HighToleranceError])) = BannedState"
  by (rule ban_lasts)
    (simp_all add: real_score_default_def score_constants set_peer_score_def real_score_inv_def
      score_state_banned banned_score_def last_updated_update_state combined_low combined_high
      BANNED_BEFORE_DECAY_def secs_def)

text \<open>
  Time never worsens a score: a decay update leaves a peer in a state at least as good
  (healthy before disconnect before banned) as before, for every gossipsub part.
\<close>

theorem update_never_worsens:
  assumes "real_score_inv s"
  shows "state_rank (score_state (Real (update_at s now))) \<le> state_rank (score_state (Real s))"
  using assms by (rule rank_update_at)

theorem update_never_worsens_witness:
  "state_rank (score_state (Real (update_at (score_step (real_score_default 0) (Act Fatal)) (secs 50000))))
     \<le> state_rank (score_state (Real (score_step (real_score_default 0) (Act Fatal))))"
  by (rule update_never_worsens) (simp add: inv_score_step inv_default del: score_step.simps)

lemma decay_ends_ban:
  assumes "real_score_inv s" "last_updated s + secs 601 \<le> now"
    "f64_le (Fin 0) (gossipsub_score s) \<or> ignore_negative_gossipsub_score s"
  shows "score_state (Real (update_at s now)) \<noteq> BannedState"
proof -
  obtain p where p: "peer_score s = Fin p" "-100 \<le> p" "p \<le> 0"
    using assms(1) by (auto simp: real_score_inv_def)
  define n where "n = whole_secs (now - last_updated s)"
  have "601 \<le> n" using assms(2) by (auto simp: n_def whole_secs_def secs_def less_eq_div_iff_mult_less_eq)
  then have "p * decay_factor n > -50"
    using p decay_factor_half [of n] decay_factor_bounds [of n]
      mult_right_mono [of "-100" p "decay_factor n"] by linarith
  moreover have "update_at s now = update_state (s\<lparr>peer_score := Fin (p * decay_factor n), last_updated := now\<rparr>)"
    using assms(2) p by (simp add: update_at_def Let_def n_def)
  ultimately show ?thesis using assms(3)
    by (cases "gossipsub_score s")
      (auto simp: score_state_banned banned_score_def combined_high score_constants f64_mul_def Let_def)
qed

text \<open>
  C32. Bans end: when the gossipsub part is not negative (or ignored), a decay update 601 seconds or
  more after the instant from which the score decays (twelve hours after the ban) leaves the peer
  unbanned.
\<close>

theorem ban_ends:
  assumes "real_score_inv s" "last_updated s + secs 601 \<le> now"
    "f64_le (Fin 0) (gossipsub_score s) \<or> ignore_negative_gossipsub_score s"
  shows "score_state (Real (update_at s now)) \<noteq> BannedState"
  using assms by (rule decay_ends_ban)

theorem ban_ends_witness:
  "score_state (Real (update_at (score_step (real_score_default 0) (Act Fatal)) (secs (12 * 3600 + 601)))) \<noteq> BannedState"
  by (rule ban_ends)
    (simp_all add: inv_default inv_apply_action real_score_default_def score_constants set_peer_score_def
      last_updated_update_state combined_low BANNED_BEFORE_DECAY_def secs_def real_score_inv_def)

text \<open>
  How many reports a fresh peer survives: its state after any sequence of actions depends
  only on their total weight (100, 10, 5 and 1 for fatal, low, mid and high tolerance errors):
  banned from 50, disconnected from 20, healthy below.
\<close>

theorem report_thresholds:
  "score_state (Real (foldl real_apply_peer_action (real_score_default now) acts)) =
     (let t = sum_list (map penalty acts) in
      if 50 \<le> t then BannedState else if 20 \<le> t then ForcedDisconnect else Healthy)"
  using foldl_actions_fields [of "real_score_default now" 0 acts]
  by (auto simp: score_state_def state_of_value_def real_score_default_def score_constants Let_def)

text \<open>
  What a gossipsub score does on its own to a peer without reports: it disconnects the
  peer from \<open>-320000/19\<close> (about -16842) and bans it from \<open>-800000/19\<close> (about -42105) downwards;
  above that, the greylist threshold -16000 included, it does nothing.
\<close>

theorem gossip_alone:
  "score_state (Real (real_update_gossipsub_score (real_score_default now) now (Fin g) False)) =
     (if g \<le> -800000 / 19 then BannedState
      else if g \<le> -320000 / 19 then ForcedDisconnect else Healthy)"
  by (auto simp: real_update_gossipsub_score_def real_score_default_def score_state_def
      state_of_value_def combined_high score_constants)

text \<open>
  The comparison used to sort peers is a total order on scores, not-a-number included, in
  both directions: swapping the arguments reverses the answer and the order is transitive.
\<close>

theorem score_total_cmp_order:
  "score_total_cmp a b reverse = ordering_reverse (score_total_cmp b a reverse) \<and>
   (score_total_cmp a b reverse \<noteq> Greater \<and> score_total_cmp b c reverse \<noteq> Greater \<longrightarrow>
     score_total_cmp a c reverse \<noteq> Greater)"
  using score_order.cmp_swap score_order.cmp_trans by blast

theorem score_total_cmp_order_witness:
  "score_total_cmp MaxScore (Real (real_score_default 0)) True \<noteq> Greater \<and>
   score_total_cmp (Real (real_score_default 0)) (Real (real_score_default 9)) True \<noteq> Greater \<and>
   score_total_cmp MaxScore (Real (real_score_default 9)) True \<noteq> Greater"
proof -
  have "score_total_cmp MaxScore (Real (real_score_default 0)) True \<noteq> Greater"
    "score_total_cmp (Real (real_score_default 0)) (Real (real_score_default 9)) True \<noteq> Greater"
    by (simp_all add: score_total_cmp_def f64_partial_cmp_def real_score_default_def score_constants)
  then show ?thesis
    using score_total_cmp_order [of MaxScore "Real (real_score_default 0)" True "Real (real_score_default 9)"]
    by blast
qed

end
