(* ===== verification/PeerInfo.thy ===== *)
theory PeerInfo
  imports Score Methods RpcConfig
begin

text \<open>
  What the node knows of one peer: \<open>peer_manager/peerdb/peer_info.rs\<close> with the connection
  status, \<open>sync_status.rs\<close>, \<open>client.rs\<close>, and the small types of \<open>types/subnet.rs\<close> and
  \<open>types/sync_state.rs\<close>.

  Hash sets that the code iterates over are lists without duplicates, in some iteration order.
  Connection counters are words of eight bits: \<open>+= 1\<close> wraps as in a release build.
\<close>

section \<open>Sync status and sync state\<close>

record sync_info =
  si_head_slot :: nat
  si_head_root :: nat
  si_finalized_epoch :: nat
  si_finalized_root :: nat
  si_earliest_available_slot :: "nat option"

definition has_slot :: "sync_info \<Rightarrow> nat \<Rightarrow> bool" where
  "has_slot i slot \<longleftrightarrow> (case si_earliest_available_slot i of Some e \<Rightarrow> e \<le> slot | None \<Rightarrow> True)"

datatype sync_status =
    SyncedStatus sync_info
  | AdvancedStatus sync_info
  | BehindStatus sync_info
  | IrrelevantPeer
  | UnknownStatus

fun sync_status_eq :: "sync_status \<Rightarrow> sync_status \<Rightarrow> bool" where
  "sync_status_eq (SyncedStatus _) (SyncedStatus _) = True"
| "sync_status_eq (AdvancedStatus _) (AdvancedStatus _) = True"
| "sync_status_eq (BehindStatus _) (BehindStatus _) = True"
| "sync_status_eq IrrelevantPeer IrrelevantPeer = True"
| "sync_status_eq UnknownStatus UnknownStatus = True"
| "sync_status_eq _ _ = False"

fun is_advanced :: "sync_status \<Rightarrow> bool" where
  "is_advanced (AdvancedStatus _) = True"
| "is_advanced _ = False"

fun is_synced_status :: "sync_status \<Rightarrow> bool" where
  "is_synced_status (SyncedStatus _) = True"
| "is_synced_status _ = False"

fun is_behind :: "sync_status \<Rightarrow> bool" where
  "is_behind (BehindStatus _) = True"
| "is_behind _ = False"

definition sync_status_update :: "sync_status \<Rightarrow> sync_status \<Rightarrow> bool \<times> sync_status" where
  "sync_status_update s new_state = (\<not> sync_status_eq s new_state, new_state)"

fun sync_status_as_str :: "sync_status \<Rightarrow> string" where
  "sync_status_as_str (AdvancedStatus _) = ''Advanced''"
| "sync_status_as_str (BehindStatus _) = ''Behind''"
| "sync_status_as_str (SyncedStatus _) = ''Synced''"
| "sync_status_as_str UnknownStatus = ''Unknown''"
| "sync_status_as_str IrrelevantPeer = ''Irrelevant''"

datatype sync_state =
    SyncingFinalized nat nat
  | SyncingHead nat nat
  | BackFillSyncing nat nat
  | SyncTransition
  | SyncedState
  | Stalled

fun sync_state_eq :: "sync_state \<Rightarrow> sync_state \<Rightarrow> bool" where
  "sync_state_eq (SyncingFinalized _ _) (SyncingFinalized _ _) = True"
| "sync_state_eq (SyncingHead _ _) (SyncingHead _ _) = True"
| "sync_state_eq SyncedState SyncedState = True"
| "sync_state_eq Stalled Stalled = True"
| "sync_state_eq SyncTransition SyncTransition = True"
| "sync_state_eq (BackFillSyncing _ _) (BackFillSyncing _ _) = True"
| "sync_state_eq _ _ = False"

fun is_syncing :: "sync_state \<Rightarrow> bool" where
  "is_syncing (SyncingFinalized _ _) = True"
| "is_syncing (SyncingHead _ _) = True"
| "is_syncing SyncTransition = True"
| "is_syncing (BackFillSyncing _ _) = False"
| "is_syncing SyncedState = False"
| "is_syncing Stalled = False"

fun is_syncing_finalized :: "sync_state \<Rightarrow> bool" where
  "is_syncing_finalized (SyncingFinalized _ _) = True"
| "is_syncing_finalized (SyncingHead _ _) = False"
| "is_syncing_finalized SyncTransition = False"
| "is_syncing_finalized (BackFillSyncing _ _) = False"
| "is_syncing_finalized SyncedState = False"
| "is_syncing_finalized Stalled = False"

fun is_synced_state :: "sync_state \<Rightarrow> bool" where
  "is_synced_state SyncedState = True"
| "is_synced_state (BackFillSyncing _ _) = True"
| "is_synced_state _ = False"

fun is_stalled :: "sync_state \<Rightarrow> bool" where
  "is_stalled Stalled = True"
| "is_stalled _ = False"

lemma sync_state_classes: "is_syncing s \<longleftrightarrow> \<not> is_synced_state s \<and> \<not> is_stalled s"
  by (cases s) simp_all

section \<open>Clients\<close>

datatype client_kind = Grandine | Lighthouse | Nimbus | Teku | Prysm | Lodestar | Caplin | UnknownClient

record client =
  cl_kind :: client_kind
  cl_version :: string
  cl_os_version :: string
  cl_protocol_version :: string
  cl_agent_string :: "string option"

definition client_default :: client where
  "client_default =
     \<lparr>cl_kind = UnknownClient, cl_version = ''unknown'', cl_os_version = ''unknown'',
      cl_protocol_version = ''unknown'', cl_agent_string = None\<rparr>"

text \<open>
  The rest of the split agent string after the client name: version and OS version are the next
  two parts, for some clients after one part that is skipped.
\<close>

fun version_parts :: "string list \<Rightarrow> string \<times> string" where
  "version_parts [] = (''unknown'', ''unknown'')"
| "version_parts [v] = (v, ''unknown'')"
| "version_parts (v # os # _) = (v, os)"

fun skip_version_parts :: "string list \<Rightarrow> string \<times> string" where
  "skip_version_parts [] = (''unknown'', ''unknown'')"
| "skip_version_parts (_ # parts) = version_parts parts"

definition client_from_agent_version :: "string \<Rightarrow> client_kind \<times> string \<times> string" where
  "client_from_agent_version agent =
     (case split_on (CHR ''/'') agent of
        [] \<Rightarrow> (UnknownClient, ''unknown'', ''unknown'')
      | name # rest \<Rightarrow>
          if name = ''Grandine'' then (Grandine, version_parts rest)
          else if name = ''Lighthouse'' then (Lighthouse, version_parts rest)
          else if name = ''teku'' then (Teku, skip_version_parts rest)
          else if name = ''github.com'' then (Prysm, ''unknown'', ''unknown'')
          else if name = ''Prysm'' then (Prysm, skip_version_parts rest)
          else if name = ''nimbus'' then (Nimbus, skip_version_parts rest)
          else if name = ''nim-libp2p'' then (Nimbus, version_parts rest)
          else if name = ''js-libp2p'' \<or> name = ''lodestar'' then (Lodestar, version_parts rest)
          else if name = ''erigon''
          then (if rest \<noteq> [] \<and> hd rest = ''caplin'' then Caplin else UnknownClient, ''unknown'', ''unknown'')
          else (UnknownClient, ''unknown'', ''unknown''))"

definition client_from_identify_info :: "string \<Rightarrow> string \<Rightarrow> client" where
  "client_from_identify_info agent protocol_ver =
     (let (kind, version, os_version) = client_from_agent_version agent in
      \<lparr>cl_kind = kind, cl_version = version, cl_os_version = os_version,
       cl_protocol_version = protocol_ver, cl_agent_string = Some agent\<rparr>)"

section \<open>Addresses, subnets, connection status\<close>

datatype subnet = Attestation nat | SyncCommittee nat | DataColumn nat

datatype addr_protocol = Ip4 nat | Ip6 nat | OtherAddr nat

type_synonym multiaddr = "addr_protocol list"

datatype ip_addr = IpV4 nat | IpV6 nat

fun ip_of_protocol :: "addr_protocol \<Rightarrow> ip_addr option" where
  "ip_of_protocol (Ip4 ip) = Some (IpV4 ip)"
| "ip_of_protocol (Ip6 ip) = Some (IpV6 ip)"
| "ip_of_protocol (OtherAddr _) = None"

fun find_map :: "('a \<Rightarrow> 'b option) \<Rightarrow> 'a list \<Rightarrow> 'b option" where
  "find_map f [] = None"
| "find_map f (x # xs) = (case f x of Some y \<Rightarrow> Some y | None \<Rightarrow> find_map f xs)"

datatype connection_direction = Incoming | Outgoing

datatype peer_connection_status =
    Connected (cs_multiaddr: multiaddr) (n_in: "8 word") (n_out: "8 word")
  | Disconnecting (to_ban: bool)
  | Disconnected (dc_since: nanos)
  | Banned (ban_since: nanos)
  | Dialing (dial_since: nanos)
  | UnknownConn

text \<open>The fields of an ENR that the peer database reads, as the accessors of \<open>Eth2Enr\<close> return them.\<close>

record enr =
  enr_attestation_bitfield :: "bitfield option"
  enr_sync_committee_bitfield :: "bitfield option"

record peer_info =
  pi_score :: score
  pi_client :: client
  connection_status :: peer_connection_status
  listening_addresses :: "multiaddr list"
  seen_multiaddrs :: "multiaddr list"
  pi_sync_status :: sync_status
  pi_meta_data :: "meta_data option"
  subnets :: "subnet set"
  custody_subnets :: "nat list"
  min_ttl :: "nanos option"
  is_trusted :: bool
  pi_connection_direction :: "connection_direction option"
  pi_enr :: "enr option"

definition peer_info_default :: "nanos \<Rightarrow> peer_info" where
  "peer_info_default now =
     \<lparr>pi_score = score_default now, pi_client = client_default, connection_status = UnknownConn,
      listening_addresses = [], seen_multiaddrs = [], pi_sync_status = UnknownStatus,
      pi_meta_data = None, subnets = {}, custody_subnets = [], min_ttl = None,
      is_trusted = False, pi_connection_direction = None, pi_enr = None\<rparr>"

definition trusted_peer_info :: "nanos \<Rightarrow> peer_info" where
  "trusted_peer_info now = (peer_info_default now)\<lparr>pi_score := max_score, is_trusted := True\<rparr>"

section \<open>Queries\<close>

text \<open>\<open>BitVector::get(i).unwrap_or(false)\<close> and \<open>last_one().unwrap_or(0)\<close>.\<close>

definition bit_get :: "bitfield \<Rightarrow> nat \<Rightarrow> bool" where
  "bit_get b i \<longleftrightarrow> i < length b \<and> b ! i"

definition last_one_or_zero :: "bitfield \<Rightarrow> nat" where
  "last_one_or_zero b = fold (\<lambda>i m. if b ! i then i else m) [0..<length b] 0"

definition set_bits :: "bitfield \<Rightarrow> nat list" where
  "set_bits b = filter (bit_get b) [0..<last_one_or_zero b + 1]"

definition is_assigned_to_custody_subnet :: "peer_info \<Rightarrow> nat \<Rightarrow> bool" where
  "is_assigned_to_custody_subnet i s \<longleftrightarrow> s \<in> set (custody_subnets i)"

definition on_subnet_metadata :: "peer_info \<Rightarrow> subnet \<Rightarrow> bool" where
  "on_subnet_metadata i s =
     (case pi_meta_data i of
        None \<Rightarrow> False
      | Some md \<Rightarrow>
          (case s of
             Attestation n \<Rightarrow> bit_get (attnets md) n
           | SyncCommittee n \<Rightarrow> (case syncnets md of None \<Rightarrow> False | Some b \<Rightarrow> bit_get b n)
           | DataColumn n \<Rightarrow> is_assigned_to_custody_subnet i n))"

definition is_incoming_ipv4_connection :: "peer_info \<Rightarrow> bool" where
  "is_incoming_ipv4_connection i \<longleftrightarrow>
     list_ex (\<lambda>a. list_ex (\<lambda>p. case p of Ip4 _ \<Rightarrow> True | _ \<Rightarrow> False) a) (seen_multiaddrs i)"

definition is_incoming_ipv6_connection :: "peer_info \<Rightarrow> bool" where
  "is_incoming_ipv6_connection i \<longleftrightarrow>
     list_ex (\<lambda>a. list_ex (\<lambda>p. case p of Ip6 _ \<Rightarrow> True | _ \<Rightarrow> False) a) (seen_multiaddrs i)"

definition long_lived_subnets :: "peer_info \<Rightarrow> subnet list" where
  "long_lived_subnets i =
     (case pi_meta_data i of
        Some md \<Rightarrow>
          map Attestation (set_bits (attnets md))
          @ (case syncnets md of Some b \<Rightarrow> map SyncCommittee (set_bits b) | None \<Rightarrow> [])
      | None \<Rightarrow>
          (case pi_enr i of
             Some e \<Rightarrow>
               (case enr_attestation_bitfield e of Some b \<Rightarrow> map Attestation (set_bits b) | None \<Rightarrow> [])
               @ (case enr_sync_committee_bitfield e of Some b \<Rightarrow> map SyncCommittee (set_bits b) | None \<Rightarrow> [])
           | None \<Rightarrow> []))
     @ map DataColumn (custody_subnets i)"

definition on_subnet_gossipsub :: "peer_info \<Rightarrow> subnet \<Rightarrow> bool" where
  "on_subnet_gossipsub i s \<longleftrightarrow> s \<in> subnets i"

definition custody_subnet_count :: "peer_info \<Rightarrow> nat" where
  "custody_subnet_count i = length (custody_subnets i)"

definition no_bits :: "bitfield \<Rightarrow> bool" where
  "no_bits b \<longleftrightarrow> True \<notin> set b"

definition has_long_lived_subnet :: "peer_info \<Rightarrow> bool" where
  "has_long_lived_subnet i \<longleftrightarrow>
     (case pi_meta_data i of
        Some md \<Rightarrow> (\<not> no_bits (attnets md) \<and> subnets i \<noteq> {})
                   \<or> (case syncnets md of Some b \<Rightarrow> \<not> no_bits b | None \<Rightarrow> False)
      | None \<Rightarrow> False)
     \<or> (case pi_enr i of
          Some e \<Rightarrow> (case enr_attestation_bitfield e of
                       Some b \<Rightarrow> \<not> no_bits b \<and> subnets i \<noteq> {} | None \<Rightarrow> False)
        | None \<Rightarrow> False)
     \<or> list_ex (\<lambda>n. DataColumn n \<in> subnets i) (custody_subnets i)"

definition seen_ip_addresses :: "peer_info \<Rightarrow> ip_addr list" where
  "seen_ip_addresses i = List.map_filter (\<lambda>a. find_map ip_of_protocol a) (seen_multiaddrs i)"

definition has_future_duty :: "peer_info \<Rightarrow> nanos \<Rightarrow> bool" where
  "has_future_duty i now \<longleftrightarrow> (case min_ttl i of Some t \<Rightarrow> now \<le> t | None \<Rightarrow> False)"

definition pi_score_state :: "peer_info \<Rightarrow> score_state" where
  "pi_score_state i = score_state (pi_score i)"

definition pi_is_good_gossipsub_peer :: "peer_info \<Rightarrow> bool" where
  "pi_is_good_gossipsub_peer i \<longleftrightarrow> is_good_gossipsub_peer (pi_score i)"

definition is_connected :: "peer_info \<Rightarrow> bool" where
  "is_connected i \<longleftrightarrow> is_Connected (connection_status i)"

definition is_synced_or_advanced :: "peer_info \<Rightarrow> bool" where
  "is_synced_or_advanced i \<longleftrightarrow> is_synced_status (pi_sync_status i) \<or> is_advanced (pi_sync_status i)"

definition is_dialing :: "peer_info \<Rightarrow> bool" where
  "is_dialing i \<longleftrightarrow> is_Dialing (connection_status i)"

definition is_connected_or_dialing :: "peer_info \<Rightarrow> bool" where
  "is_connected_or_dialing i \<longleftrightarrow> is_connected i \<or> is_dialing i"

definition is_banned :: "peer_info \<Rightarrow> bool" where
  "is_banned i \<longleftrightarrow> is_Banned (connection_status i)"

definition score_is_banned :: "peer_info \<Rightarrow> bool" where
  "score_is_banned i \<longleftrightarrow> score_state (pi_score i) = BannedState"

definition is_disconnected :: "peer_info \<Rightarrow> bool" where
  "is_disconnected i \<longleftrightarrow> is_Disconnected (connection_status i)"

definition is_outbound_only :: "peer_info \<Rightarrow> bool" where
  "is_outbound_only i \<longleftrightarrow>
     (case connection_status i of Connected _ a b \<Rightarrow> a = 0 \<and> 0 < b | _ \<Rightarrow> False)"

definition connections :: "peer_info \<Rightarrow> 8 word \<times> 8 word" where
  "connections i = (case connection_status i of Connected _ a b \<Rightarrow> (a, b) | _ \<Rightarrow> (0, 0))"

section \<open>Updates\<close>

definition update_sync_status :: "peer_info \<Rightarrow> sync_status \<Rightarrow> bool \<times> peer_info" where
  "update_sync_status i s =
     (let (changed, s') = sync_status_update (pi_sync_status i) s in (changed, i\<lparr>pi_sync_status := s'\<rparr>))"

definition set_listening_addresses :: "peer_info \<Rightarrow> multiaddr list \<Rightarrow> multiaddr list \<times> peer_info" where
  "set_listening_addresses i as = (listening_addresses i, i\<lparr>listening_addresses := as\<rparr>)"

definition decay_peer_score :: "peer_info \<Rightarrow> nanos \<Rightarrow> peer_info" where
  "decay_peer_score i now = (if is_trusted i then i else i\<lparr>pi_score := score_update (pi_score i) now\<rparr>)"

definition apply_peer_action_to_score :: "peer_info \<Rightarrow> peer_action \<Rightarrow> peer_info" where
  "apply_peer_action_to_score i a =
     (if is_trusted i then i else i\<lparr>pi_score := apply_peer_action (pi_score i) a\<rparr>)"

definition pi_update_gossipsub_score :: "peer_info \<Rightarrow> nanos \<Rightarrow> f64 \<Rightarrow> bool \<Rightarrow> peer_info" where
  "pi_update_gossipsub_score i now x ignore =
     i\<lparr>pi_score := update_gossipsub_score (pi_score i) now x ignore\<rparr>"

definition set_dialing_peer :: "peer_info \<Rightarrow> nanos \<Rightarrow> (peer_info, string) result" where
  "set_dialing_peer i now =
     (case connection_status i of
        Connected _ _ _ \<Rightarrow> Err ''Dialing connected peer''
      | Dialing _ \<Rightarrow> Err ''Dialing an already dialing peer''
      | Disconnecting _ \<Rightarrow> Err ''Dialing a disconnecting peer''
      | _ \<Rightarrow> Ok (i\<lparr>connection_status := Dialing now\<rparr>))"

definition connect_ingoing :: "peer_info \<Rightarrow> multiaddr \<Rightarrow> peer_info" where
  "connect_ingoing i a =
     (let i = i\<lparr>seen_multiaddrs := List.insert a (seen_multiaddrs i)\<rparr> in
      case connection_status i of
        Connected m ni no \<Rightarrow> i\<lparr>connection_status := Connected m (ni + 1) no\<rparr>
      | _ \<Rightarrow> i\<lparr>connection_status := Connected a 1 0, pi_connection_direction := Some Incoming\<rparr>)"

definition connect_outgoing :: "peer_info \<Rightarrow> multiaddr \<Rightarrow> peer_info" where
  "connect_outgoing i a =
     (let i = i\<lparr>seen_multiaddrs := List.insert a (seen_multiaddrs i)\<rparr> in
      case connection_status i of
        Connected m ni no \<Rightarrow> i\<lparr>connection_status := Connected m ni (no + 1)\<rparr>
      | _ \<Rightarrow> i\<lparr>connection_status := Connected a 0 1, pi_connection_direction := Some Outgoing\<rparr>)"

section \<open>Facts\<close>

lemma last_one_bound: "bit_get b i \<Longrightarrow> i \<le> last_one_or_zero b"
proof -
  have "\<forall>i < n. b ! i \<longrightarrow> i \<le> fold (\<lambda>i m. if b ! i then i else m) [0..<n] 0" for n
  proof (induction n)
    case (Suc n)
    then show ?case by (auto simp: less_Suc_eq)
  qed simp
  then show "bit_get b i \<Longrightarrow> i \<le> last_one_or_zero b"
    by (auto simp: bit_get_def last_one_or_zero_def)
qed

text \<open>The loop up to the last set bit finds exactly the set bits.\<close>

lemma set_set_bits: "set (set_bits b) = {i. bit_get b i}"
  using last_one_bound [of b] by (auto simp: set_bits_def le_less)

lemma distinct_set_bits: "distinct (set_bits b)"
  by (simp add: set_bits_def)

lemmas status_queries =
  is_connected_def is_dialing_def is_banned_def is_disconnected_def is_connected_or_dialing_def

lemma connect_status:
  "is_connected (connect_ingoing i a)" "is_connected (connect_outgoing i a)"
  by (auto simp: connect_ingoing_def connect_outgoing_def is_connected_def Let_def
      split: peer_connection_status.splits)

lemma connect_fields [simp]:
  "pi_score (connect_ingoing i a) = pi_score i" "pi_score (connect_outgoing i a) = pi_score i"
  "is_trusted (connect_ingoing i a) = is_trusted i" "is_trusted (connect_outgoing i a) = is_trusted i"
  "set (seen_multiaddrs (connect_ingoing i a)) = insert a (set (seen_multiaddrs i))"
  "set (seen_multiaddrs (connect_outgoing i a)) = insert a (set (seen_multiaddrs i))"
  by (auto simp: connect_ingoing_def connect_outgoing_def Let_def split: peer_connection_status.splits)

lemma set_dialing_Ok:
  "set_dialing_peer i now = Ok i' \<longleftrightarrow>
     i' = i\<lparr>connection_status := Dialing now\<rparr> \<and>
     (is_disconnected i \<or> is_banned i \<or> connection_status i = UnknownConn)"
  by (auto simp: set_dialing_peer_def status_queries split: peer_connection_status.splits)

text \<open>A trusted peer keeps its maximal score under every operation.\<close>

definition trusted_max :: "peer_info \<Rightarrow> bool" where
  "trusted_max i \<longleftrightarrow> (is_trusted i \<longrightarrow> pi_score i = MaxScore)"

lemma trusted_max_ops:
  "trusted_max i \<Longrightarrow> trusted_max (decay_peer_score i now)"
  "trusted_max i \<Longrightarrow> trusted_max (apply_peer_action_to_score i a)"
  "trusted_max i \<Longrightarrow> trusted_max (pi_update_gossipsub_score i now x ignore)"
  by (auto simp: trusted_max_def decay_peer_score_def apply_peer_action_to_score_def
      pi_update_gossipsub_score_def)

lemma trusted_max_healthy: "trusted_max i \<Longrightarrow> is_trusted i \<Longrightarrow> pi_score_state i = Healthy"
  by (simp add: trusted_max_def pi_score_state_def score_state_def state_of_value_def score_constants)

end
