(* ===== verification/Float32.thy ===== *)
theory Float32
  imports Prelude
begin

text \<open>
  Single precision arithmetic of \<open>f32\<close> as the peer limits use it: non-negative values, rounded to
  24 significant bits, half to even, after every operation. A value is a natural number of
  units of \<open>2 ^ - 27\<close>; the literals of the source are exact at that scale.
\<close>

fun bit_length :: "nat \<Rightarrow> nat" where
  "bit_length n = (if n = 0 then 0 else Suc (bit_length (n div 2)))"

declare bit_length.simps [simp del]

text \<open>The low bits that do not fit are cut off, rounding to the nearest value.\<close>

definition round_shift :: "nat \<Rightarrow> nat \<Rightarrow> nat" where
  "round_shift s n =
     (let q = n div 2 ^ s; r = n mod 2 ^ s in
      if 2 ^ s < 2 * r \<or> (2 * r = 2 ^ s \<and> odd q) then q + 1 else q)"

definition f32_round :: "nat \<Rightarrow> nat" where
  "f32_round n = (let s = bit_length n - 24 in round_shift s n * 2 ^ s)"

definition F32_ONE :: nat where "F32_ONE = 2 ^ 27"

definition f32_add :: "nat \<Rightarrow> nat \<Rightarrow> nat" where
  "f32_add x y = f32_round (x + y)"

text \<open>\<open>(n as f32 * x).ceil() as usize\<close>, which saturates.\<close>

definition f32_scale_ceil :: "nat \<Rightarrow> nat \<Rightarrow> nat" where
  "f32_scale_ceil n x = min u64_max ((f32_round (f32_round n * x) + (F32_ONE - 1)) div F32_ONE)"

section \<open>Rounding\<close>

lemma bit_length_0 [simp]: "bit_length n = 0 \<longleftrightarrow> n = 0"
  by (simp add: bit_length.simps [of n])

lemma bit_length_pos: "n \<noteq> 0 \<Longrightarrow> bit_length n = Suc (bit_length (n div 2))"
  by (simp add: bit_length.simps [of n])

lemma bit_length_bounds: "n < 2 ^ bit_length n" "n \<noteq> 0 \<Longrightarrow> 2 ^ (bit_length n - 1) \<le> n"
proof (induction n rule: bit_length.induct)
  case (1 n)
  { case 1
    show ?case
    proof (cases "n = 0")
      case False
      then have "n div 2 < 2 ^ bit_length (n div 2)" by (rule "1.IH"(1))
      then have "n < 2 * 2 ^ bit_length (n div 2)" by linarith
      then show ?thesis using False by (simp add: bit_length.simps [of n])
    qed simp
  next
    case 2
    show ?case
    proof (cases "n div 2 = 0")
      case True
      then have "bit_length n = 1" using bit_length_pos [OF 2] by simp
      then show ?thesis using 2 by simp
    next
      case False
      have "2 ^ (bit_length (n div 2) - 1) \<le> n div 2" using "1.IH"(2) [OF 2 False] .
      moreover have "2 ^ bit_length (n div 2) = (2 :: nat) * 2 ^ (bit_length (n div 2) - 1)"
        using False by (cases "bit_length (n div 2)") simp_all
      ultimately have "2 ^ bit_length (n div 2) \<le> n" by linarith
      then show ?thesis unfolding bit_length_pos [OF 2] by simp
    qed }
qed

lemma bit_length_mono: "m \<le> n \<Longrightarrow> bit_length m \<le> bit_length n"
proof (rule ccontr)
  assume "m \<le> n" "\<not> bit_length m \<le> bit_length n"
  then have "bit_length n \<le> bit_length m - 1" "bit_length m \<noteq> 0" by linarith+
  then have "(2 :: nat) ^ bit_length n \<le> 2 ^ (bit_length m - 1)" "2 ^ (bit_length m - 1) \<le> m"
    using bit_length_bounds(2) [of m] by (auto intro: power_increasing)
  then show False using bit_length_bounds(1) [of n] \<open>m \<le> n\<close> by linarith
qed

lemma round_shift_error:
  "2 * n \<le> 2 * (round_shift s n * 2 ^ s) + 2 ^ s" "2 * (round_shift s n * 2 ^ s) \<le> 2 * n + 2 ^ s"
proof -
  define q r u :: nat where "q = n div 2 ^ s" "r = n mod 2 ^ s" "u = 2 ^ s"
  have n: "n = q * u + r" unfolding q_r_u_def by (rule div_mult_mod_eq [symmetric])
  have r: "r < u" unfolding q_r_u_def by simp
  have e: "round_shift s n = (if u < 2 * r \<or> (2 * r = u \<and> odd q) then q + 1 else q)"
    unfolding q_r_u_def round_shift_def Let_def ..
  have "2 * n \<le> 2 * (round_shift s n * u) + u" "2 * (round_shift s n * u) \<le> 2 * n + u"
    unfolding e using n r by (auto simp: algebra_simps)
  then show "2 * n \<le> 2 * (round_shift s n * 2 ^ s) + 2 ^ s" "2 * (round_shift s n * 2 ^ s) \<le> 2 * n + 2 ^ s"
    unfolding q_r_u_def .
qed

lemma f32_round_small: "n < 2 ^ 24 \<Longrightarrow> f32_round n = n"
  using bit_length_mono [of n "2 ^ 24 - 1"] by (simp add: f32_round_def round_shift_def bit_length.simps)

lemma f32_round_error:
  "n * 2 ^ 24 \<le> f32_round n * 2 ^ 24 + n" "f32_round n * 2 ^ 24 \<le> n * 2 ^ 24 + n"
proof -
  have "n * 2 ^ 24 \<le> f32_round n * 2 ^ 24 + n \<and> f32_round n * 2 ^ 24 \<le> n * 2 ^ 24 + n"
  proof (cases "n < 2 ^ 24")
    case False
    let ?s = "bit_length n - 24"
    have "24 < bit_length n"
      using False bit_length_bounds(1) [of n] power_increasing [of "bit_length n" 24 "2 :: nat"] by linarith
    then have "2 ^ (?s + 23) \<le> n" using bit_length_bounds(2) [of n] False by simp
    then have "2 ^ ?s * 2 ^ 23 \<le> n" by (simp add: power_add)
    then show ?thesis using round_shift_error(1) [of n ?s] round_shift_error(2) [of ?s n]
      unfolding f32_round_def Let_def by simp
  qed (simp add: f32_round_small)
  then show "n * 2 ^ 24 \<le> f32_round n * 2 ^ 24 + n" "f32_round n * 2 ^ 24 \<le> n * 2 ^ 24 + n" by blast+
qed

lemma round_shift_mono:
  assumes "m \<le> n"
  shows "round_shift s m \<le> round_shift s n"
proof (cases "m div 2 ^ s = n div 2 ^ s")
  case True
  have "m mod 2 ^ s \<le> n mod 2 ^ s"
    using assms div_mult_mod_eq [of m "2 ^ s"] div_mult_mod_eq [of n "2 ^ s"] unfolding True by linarith
  then show ?thesis unfolding round_shift_def Let_def True by auto
next
  case False
  then have "m div 2 ^ s < n div 2 ^ s" using div_le_mono [OF assms] by (simp add: le_neq_implies_less)
  then show ?thesis unfolding round_shift_def Let_def by auto
qed

lemma f32_round_mono:
  assumes "m \<le> n"
  shows "f32_round m \<le> f32_round n"
proof (cases "bit_length m - 24 = bit_length n - 24")
  case True
  then show ?thesis using round_shift_mono [OF assms] by (simp add: f32_round_def Let_def)
next
  case False
  let ?s = "bit_length m - 24" and ?t = "bit_length n - 24"
  have less: "bit_length m < bit_length n" "24 < bit_length n" using False bit_length_mono [OF assms] by linarith+
  have "m < 2 ^ (?s + 24)"
    using bit_length_bounds(1) [of m] power_increasing [of "bit_length m" "?s + 24" "2 :: nat"] by linarith
  then have "m < 2 ^ 24 * 2 ^ ?s" unfolding power_add by (simp only: mult.commute)
  then have "m div 2 ^ ?s < 2 ^ 24" by (rule less_mult_imp_div_less)
  then have "round_shift ?s m \<le> 2 ^ 24" by (simp add: round_shift_def Let_def)
  then have "round_shift ?s m * 2 ^ ?s \<le> 2 ^ 24 * 2 ^ ?s" by (rule mult_le_mono1)
  also have "\<dots> \<le> 2 ^ 23 * 2 ^ ?t"
  proof -
    have "24 + ?s \<le> 23 + ?t" using less False by linarith
    then have "(2 :: nat) ^ (24 + ?s) \<le> 2 ^ (23 + ?t)" by (rule power_increasing) simp
    then show ?thesis unfolding power_add .
  qed
  also have "\<dots> \<le> round_shift ?t n * 2 ^ ?t"
  proof -
    have "n \<noteq> 0" using less(2) by (metis bit_length_0 not_less0)
    then have "2 ^ (bit_length n - 1) \<le> n" by (rule bit_length_bounds)
    moreover have "bit_length n - 1 = 23 + ?t" using less by simp
    ultimately have "2 ^ (23 + ?t) \<le> n" by (simp only:)
    then have "2 ^ 23 * 2 ^ ?t \<le> n" by (simp only: power_add)
    then have "2 ^ 23 \<le> n div 2 ^ ?t" by (subst less_eq_div_iff_mult_less_eq) (simp, assumption)
    then have "2 ^ 23 \<le> round_shift ?t n" by (simp add: round_shift_def Let_def)
    then show ?thesis by (rule mult_le_mono1)
  qed
  finally show ?thesis by (simp only: f32_round_def Let_def)
qed

lemma f32_scale_ceil_mono: "m \<le> n \<Longrightarrow> x \<le> y \<Longrightarrow> f32_scale_ceil m x \<le> f32_scale_ceil n y"
  unfolding f32_scale_ceil_def
  by (intro min.mono order_refl div_le_mono add_le_mono1 f32_round_mono mult_le_mono)

text \<open>A factor that exceeds one by more than two rounding errors does not decrease.\<close>

lemma f32_scale_ceil_ge:
  assumes "n \<le> u64_max" "F32_ONE + 32 \<le> x"
  shows "n \<le> f32_scale_ceil n x"
proof -
  let ?m = "f32_round n"
  have "n * 2 ^ 27 \<le> f32_round (?m * x)"
  proof -
    have "n * (2 ^ 24 - 1) \<le> ?m * 2 ^ 24" using f32_round_error(1) [of n] by simp
    then have "n * (2 ^ 24 - 1) * ((2 ^ 24 - 1) * (2 ^ 27 + 32)) \<le> ?m * 2 ^ 24 * ((2 ^ 24 - 1) * x)"
      using assms(2) [unfolded F32_ONE_def] by (rule mult_le_mono [OF _ mult_le_mono2])
    also have "\<dots> = ?m * x * (2 ^ 24 - 1) * 2 ^ 24" by simp
    also have "\<dots> \<le> f32_round (?m * x) * 2 ^ 24 * 2 ^ 24"
      using f32_round_error(1) [of "?m * x"] by simp
    finally show ?thesis by simp
  qed
  then show ?thesis using assms(1) by (simp add: f32_scale_ceil_def F32_ONE_def less_eq_div_iff_mult_less_eq)
qed

text \<open>A factor of at most one half does not increase.\<close>

lemma f32_scale_ceil_le:
  assumes "x \<le> 2 ^ 26"
  shows "f32_scale_ceil n x \<le> n"
proof -
  let ?m = "f32_round n"
  have "f32_round (?m * x) * 2 ^ 24 * 2 ^ 24 \<le> ?m * x * (2 ^ 24 + 1) * 2 ^ 24"
    using f32_round_error(2) [of "?m * x"] by simp
  also have "\<dots> = ?m * 2 ^ 24 * ((2 ^ 24 + 1) * x)" by simp
  also have "\<dots> \<le> n * (2 ^ 24 + 1) * ((2 ^ 24 + 1) * 2 ^ 26)"
  proof (rule mult_le_mono)
    show "?m * 2 ^ 24 \<le> n * (2 ^ 24 + 1)" using f32_round_error(2) [of n] by simp
  qed (use assms in simp)
  finally have "f32_round (?m * x) \<le> n * 2 ^ 27" by simp
  then show ?thesis unfolding f32_scale_ceil_def F32_ONE_def by (intro min.coboundedI2) simp
qed

end
