(* ===== verification/PeerDB.thy ===== *)
theory PeerDB
  imports PeerInfo Float32
begin

text \<open>
  The peer database of \<open>peer_manager/peerdb.rs\<close>: the table of peers, the counters of
  disconnected and banned peers kept beside it, the connection state machine, reports and score
  updates, and the loops that bound its size.

  The hash map of peers is an association list with distinct keys, in its iteration order.
  \<open>Instant::now()\<close> is an argument. Logging and metrics are left out.
\<close>

section \<open>Counting banned peers\<close>

definition MAX_DC_PEERS :: nat where "MAX_DC_PEERS = 500"
definition MAX_BANNED_PEERS :: nat where "MAX_BANNED_PEERS = 1000"
abbreviation BANNED_PEERS_PER_IP_THRESHOLD :: nat where "BANNED_PEERS_PER_IP_THRESHOLD \<equiv> 5"
abbreviation DIAL_TIMEOUT :: nat where "DIAL_TIMEOUT \<equiv> 15"

record banned_peers_count =
  banned_peers :: nat
  banned_peers_per_ip :: "ip_addr \<rightharpoonup> nat"

definition banned_peers_count_default :: banned_peers_count where
  "banned_peers_count_default = \<lparr>banned_peers = 0, banned_peers_per_ip = Map.empty\<rparr>"

fun dec_ips :: "(ip_addr \<rightharpoonup> nat) \<Rightarrow> ip_addr list \<Rightarrow> (ip_addr \<rightharpoonup> nat)" where
  "dec_ips m [] = m"
| "dec_ips m (ip # ips) =
     dec_ips (case m ip of Some c \<Rightarrow> m(ip \<mapsto> sat_sub c 1) | None \<Rightarrow> m) ips"

definition remove_banned_peer :: "banned_peers_count \<Rightarrow> ip_addr list \<Rightarrow> banned_peers_count" where
  "remove_banned_peer b ips =
     \<lparr>banned_peers = sat_sub (banned_peers b) 1, banned_peers_per_ip = dec_ips (banned_peers_per_ip b) ips\<rparr>"

fun inc_ips :: "(ip_addr \<rightharpoonup> nat) \<Rightarrow> ip_addr list \<Rightarrow> (ip_addr \<rightharpoonup> nat)" where
  "inc_ips m [] = m"
| "inc_ips m (ip # ips) =
     inc_ips (m(ip \<mapsto> (case m ip of Some c \<Rightarrow> c | None \<Rightarrow> 0) + 1)) ips"

definition add_banned_peer :: "banned_peers_count \<Rightarrow> ip_addr list \<Rightarrow> banned_peers_count" where
  "add_banned_peer b ips =
     \<lparr>banned_peers = sat_add (banned_peers b) 1, banned_peers_per_ip = inc_ips (banned_peers_per_ip b) ips\<rparr>"

definition banned_ips :: "banned_peers_count \<Rightarrow> ip_addr set" where
  "banned_ips b =
     {ip. case banned_peers_per_ip b ip of Some c \<Rightarrow> BANNED_PEERS_PER_IP_THRESHOLD < c | None \<Rightarrow> False}"

definition count_ip_is_banned :: "banned_peers_count \<Rightarrow> ip_addr \<Rightarrow> bool" where
  "count_ip_is_banned b ip \<longleftrightarrow>
     (case banned_peers_per_ip b ip of Some c \<Rightarrow> BANNED_PEERS_PER_IP_THRESHOLD < c | None \<Rightarrow> False)"

section \<open>The database and its queries\<close>

record 'p peer_db =
  peers :: "('p \<times> peer_info) list"
  disconnected_peers :: nat
  db_banned :: banned_peers_count
  disable_peer_scoring :: bool

definition db_new :: "nanos \<Rightarrow> 'p list \<Rightarrow> bool \<Rightarrow> 'p peer_db" where
  "db_new now trusted disable =
     \<lparr>peers = fold (\<lambda>p xs. AList.update p (trusted_peer_info now) xs) trusted [],
      disconnected_peers = 0, db_banned = banned_peers_count_default, disable_peer_scoring = disable\<rparr>"

definition peer_info_of :: "'p peer_db \<Rightarrow> 'p \<Rightarrow> peer_info option" where
  "peer_info_of db p = map_of (peers db) p"

definition put_info :: "'p peer_db \<Rightarrow> 'p \<Rightarrow> peer_info \<Rightarrow> 'p peer_db" where
  "put_info db p i = db\<lparr>peers := AList.update p i (peers db)\<rparr>"

definition db_score :: "'p peer_db \<Rightarrow> nanos \<Rightarrow> 'p \<Rightarrow> f64" where
  "db_score db now p = score_value (case peer_info_of db p of Some i \<Rightarrow> pi_score i | None \<Rightarrow> score_default now)"

definition set_trusted_peer :: "'p peer_db \<Rightarrow> nanos \<Rightarrow> 'p \<Rightarrow> 'p peer_db" where
  "set_trusted_peer db now p =
     (case peer_info_of db p of
        Some i \<Rightarrow> put_info db p (i\<lparr>pi_score := max_score, is_trusted := True\<rparr>)
      | None \<Rightarrow> put_info db p (trusted_peer_info now))"

definition unset_trusted_peer :: "'p peer_db \<Rightarrow> nanos \<Rightarrow> 'p \<Rightarrow> 'p peer_db" where
  "unset_trusted_peer db now p =
     (case peer_info_of db p of
        Some i \<Rightarrow> put_info db p (i\<lparr>is_trusted := False, pi_score := score_default now\<rparr>)
      | None \<Rightarrow> db)"

definition ids_where :: "(peer_info \<Rightarrow> bool) \<Rightarrow> 'p peer_db \<Rightarrow> 'p list" where
  "ids_where P db = map fst (filter (\<lambda>x. P (snd x)) (peers db))"

definition trusted_peers :: "'p peer_db \<Rightarrow> 'p list" where
  "trusted_peers = ids_where is_trusted"

definition db_connection_status :: "'p peer_db \<Rightarrow> 'p \<Rightarrow> peer_connection_status option" where
  "db_connection_status db p = map_option connection_status (peer_info_of db p)"

definition db_is_connected :: "'p peer_db \<Rightarrow> 'p \<Rightarrow> bool" where
  "db_is_connected db p \<longleftrightarrow>
     (case db_connection_status db p of Some (Connected _ _ _) \<Rightarrow> True | _ \<Rightarrow> False)"

definition db_is_connected_or_dialing :: "'p peer_db \<Rightarrow> 'p \<Rightarrow> bool" where
  "db_is_connected_or_dialing db p \<longleftrightarrow>
     (case db_connection_status db p of
        Some (Connected _ _ _) \<Rightarrow> True | Some (Dialing _) \<Rightarrow> True | _ \<Rightarrow> False)"

definition is_connected_or_disconnecting :: "'p peer_db \<Rightarrow> 'p \<Rightarrow> bool" where
  "is_connected_or_disconnecting db p \<longleftrightarrow>
     (case db_connection_status db p of
        Some (Connected _ _ _) \<Rightarrow> True | Some (Disconnecting _) \<Rightarrow> True | _ \<Rightarrow> False)"

definition info_banned_ip :: "'p peer_db \<Rightarrow> peer_info \<Rightarrow> ip_addr option" where
  "info_banned_ip db i = find (count_ip_is_banned (db_banned db)) (seen_ip_addresses i)"

definition is_ip_banned :: "'p peer_db \<Rightarrow> ip_addr \<Rightarrow> bool" where
  "is_ip_banned db ip \<longleftrightarrow> count_ip_is_banned (db_banned db) ip"

definition score_state_banned_or_disconnected :: "'p peer_db \<Rightarrow> 'p \<Rightarrow> bool" where
  "score_state_banned_or_disconnected db p \<longleftrightarrow>
     (case peer_info_of db p of
        Some i \<Rightarrow> (case pi_score_state i of
                     BannedState \<Rightarrow> True | ForcedDisconnect \<Rightarrow> True
                   | Healthy \<Rightarrow> info_banned_ip db i \<noteq> None)
      | None \<Rightarrow> False)"

definition should_dial :: "'p peer_db \<Rightarrow> 'p \<Rightarrow> bool" where
  "should_dial db p \<longleftrightarrow>
     (case db_connection_status db p of
        Some (Disconnected _) \<Rightarrow> True | Some UnknownConn \<Rightarrow> True | None \<Rightarrow> True | _ \<Rightarrow> False)
     \<and> \<not> score_state_banned_or_disconnected db p"

definition db_is_synced :: "'p peer_db \<Rightarrow> 'p \<Rightarrow> bool" where
  "db_is_synced db p \<longleftrightarrow>
     (case peer_info_of db p of Some i \<Rightarrow> is_synced_status (pi_sync_status i) | None \<Rightarrow> False)"

datatype ban_result = BadScoreBan | BannedIpBan ip_addr

definition ban_status :: "'p peer_db \<Rightarrow> 'p \<Rightarrow> ban_result option" where
  "ban_status db p =
     (case peer_info_of db p of
        None \<Rightarrow> None
      | Some i \<Rightarrow> if pi_score_state i = BannedState then Some BadScoreBan
                  else map_option BannedIpBan (info_banned_ip db i))"

definition connected_peers :: "'p peer_db \<Rightarrow> ('p \<times> peer_info) list" where
  "connected_peers db = filter (\<lambda>x. is_connected (snd x)) (peers db)"

definition connected_peer_ids :: "'p peer_db \<Rightarrow> 'p list" where
  "connected_peer_ids = ids_where is_connected"

definition connected_or_dialing_peers :: "'p peer_db \<Rightarrow> 'p list" where
  "connected_or_dialing_peers = ids_where (\<lambda>i. is_connected i \<or> is_dialing i)"

definition connected_outbound_only_peers :: "'p peer_db \<Rightarrow> 'p list" where
  "connected_outbound_only_peers = ids_where is_outbound_only"

definition synced_peers :: "'p peer_db \<Rightarrow> 'p list" where
  "synced_peers = ids_where (\<lambda>i.
     if is_synced_status (pi_sync_status i) \<or> is_advanced (pi_sync_status i) then is_connected i else False)"

definition has_slot_status :: "nat \<Rightarrow> sync_status \<Rightarrow> bool" where
  "has_slot_status slot s =
     (case s of SyncedStatus i \<Rightarrow> has_slot i slot | AdvancedStatus i \<Rightarrow> has_slot i slot | _ \<Rightarrow> False)"

text \<open>\<open>start_slot_at\<close> stands for \<open>misc::compute_start_slot_at_epoch\<close>.\<close>

definition synced_peers_for_epoch :: "(nat \<Rightarrow> nat) \<Rightarrow> nat \<Rightarrow> 'p peer_db \<Rightarrow> 'p list" where
  "synced_peers_for_epoch start_slot_at epoch =
     ids_where (\<lambda>i. is_connected i \<and> has_slot_status (start_slot_at epoch) (pi_sync_status i))"

definition advanced_peers :: "'p peer_db \<Rightarrow> 'p list" where
  "advanced_peers = ids_where (\<lambda>i. if is_advanced (pi_sync_status i) then is_connected i else False)"

definition good_peers_on_subnet :: "subnet \<Rightarrow> 'p peer_db \<Rightarrow> 'p list" where
  "good_peers_on_subnet s =
     ids_where (\<lambda>i. is_connected i \<and> is_synced_or_advanced i \<and> on_subnet_metadata i s
                    \<and> on_subnet_gossipsub i s \<and> pi_is_good_gossipsub_peer i)"

definition good_custody_subnet_peer :: "nat \<Rightarrow> 'p peer_db \<Rightarrow> 'p list" where
  "good_custody_subnet_peer s =
     ids_where (\<lambda>i. is_connected i \<and> pi_is_good_gossipsub_peer i
                    \<and> is_assigned_to_custody_subnet i s \<and> is_synced_or_advanced i)"

text \<open>The nested loop with early return: subnets are struck off until none remains.\<close>

fun strike_subnets :: "nat set \<Rightarrow> nat list \<Rightarrow> nat set \<times> bool" where
  "strike_subnets remaining [] = (remaining, False)"
| "strike_subnets remaining (s # ss) =
     (if s \<in> remaining
      then (let r = remaining - {s} in if r = {} then (r, True) else strike_subnets r ss)
      else strike_subnets remaining ss)"

fun strike_peers :: "nat set \<Rightarrow> peer_info list \<Rightarrow> bool" where
  "strike_peers remaining [] = False"
| "strike_peers remaining (i # is) =
     (let (r, finished) = strike_subnets remaining (custody_subnets i) in
      if finished then True else strike_peers r is)"

definition has_good_custody_range_sync_peer :: "(nat \<Rightarrow> nat) \<Rightarrow> 'p peer_db \<Rightarrow> nat set \<Rightarrow> nat \<Rightarrow> bool" where
  "has_good_custody_range_sync_peer start_slot_at db wanted epoch =
     strike_peers wanted
       (filter (\<lambda>i. is_connected i \<and> has_slot_status (start_slot_at epoch) (pi_sync_status i))
         (map snd (peers db)))"

fun count_until :: "(peer_info \<Rightarrow> bool) \<Rightarrow> nat \<Rightarrow> nat \<Rightarrow> peer_info list \<Rightarrow> bool" where
  "count_until P target n [] = False"
| "count_until P target n (i # is) =
     (let n' = (if P i then n + 1 else n) in if target \<le> n' then True else count_until P target n' is)"

definition has_good_peers_in_custody_subnet :: "'p peer_db \<Rightarrow> nat \<Rightarrow> nat \<Rightarrow> bool" where
  "has_good_peers_in_custody_subnet db s target =
     count_until (\<lambda>i. is_assigned_to_custody_subnet i s) target 0
       (filter (\<lambda>i. is_connected i \<and> is_synced_or_advanced i) (map snd (peers db)))"

definition disconnected_peer_ids :: "'p peer_db \<Rightarrow> 'p list" where
  "disconnected_peer_ids = ids_where is_disconnected"

definition banned_peer_ids :: "'p peer_db \<Rightarrow> 'p list" where
  "banned_peer_ids = ids_where is_banned"

definition banned_peers_by_score :: "'p peer_db \<Rightarrow> 'p list" where
  "banned_peers_by_score = ids_where score_is_banned"

definition cmp_info :: "bool \<Rightarrow> 'p \<times> peer_info \<Rightarrow> 'p \<times> peer_info \<Rightarrow> ordering" where
  "cmp_info reverse a b = score_total_cmp (pi_score (snd a)) (pi_score (snd b)) reverse"

interpretation info_order: comparison "cmp_info reverse" for reverse
  unfolding comparison_def cmp_info_def using score_order.cmp_swap score_order.cmp_trans by blast

definition worst_connected_peers :: "'p peer_db \<Rightarrow> ('p \<times> peer_info) list" where
  "worst_connected_peers db = sort_by (cmp_info False) (filter (\<lambda>x. is_connected (snd x)) (peers db))"

definition best_peers_by_status :: "(peer_info \<Rightarrow> bool) \<Rightarrow> 'p peer_db \<Rightarrow> ('p \<times> peer_info) list" where
  "best_peers_by_status is_status db = sort_by (cmp_info True) (filter (\<lambda>x. is_status (snd x)) (peers db))"

definition best_by_status :: "(peer_info \<Rightarrow> bool) \<Rightarrow> 'p peer_db \<Rightarrow> 'p option" where
  "best_by_status is_status db =
     map_option fst (max_by (cmp_info False) (filter (\<lambda>x. is_status (snd x)) (peers db)))"

section \<open>The connection state machine\<close>

datatype new_connection_state =
    NewConnected "enr option" multiaddr connection_direction
  | NewDisconnecting bool
  | NewDialing "enr option"
  | NewDisconnected
  | NewBanned
  | NewUnbanned

datatype ban_operation =
    TemporaryBan | DisconnectThePeer | ReadyToBan "ip_addr list" | PeerDisconnecting

definition set_enr :: "peer_info \<Rightarrow> enr option \<Rightarrow> peer_info" where
  "set_enr i e = (case e of Some x \<Rightarrow> i\<lparr>pi_enr := Some x\<rparr> | None \<Rightarrow> i)"

definition dec_disconnected :: "'p peer_db \<Rightarrow> 'p peer_db" where
  "dec_disconnected db = db\<lparr>disconnected_peers := sat_sub (disconnected_peers db) 1\<rparr>"

text \<open>The plain \<open>+= 1\<close>, of a counter of table entries, and the saturating increment.\<close>

definition inc_disconnected :: "'p peer_db \<Rightarrow> 'p peer_db" where
  "inc_disconnected db = db\<lparr>disconnected_peers := disconnected_peers db + 1\<rparr>"

definition sat_inc_disconnected :: "'p peer_db \<Rightarrow> 'p peer_db" where
  "sat_inc_disconnected db = db\<lparr>disconnected_peers := sat_add (disconnected_peers db) 1\<rparr>"

definition uncount_ban :: "'p peer_db \<Rightarrow> peer_info \<Rightarrow> 'p peer_db" where
  "uncount_ban db i = db\<lparr>db_banned := remove_banned_peer (db_banned db) (seen_ip_addresses i)\<rparr>"

definition count_ban :: "'p peer_db \<Rightarrow> peer_info \<Rightarrow> 'p peer_db" where
  "count_ban db i = db\<lparr>db_banned := add_banned_peer (db_banned db) (seen_ip_addresses i)\<rparr>"

definition known_banned_ips :: "'p peer_db \<Rightarrow> peer_info \<Rightarrow> ip_addr list" where
  "known_banned_ips db i = filter (\<lambda>ip. ip \<in> banned_ips (db_banned db)) (seen_ip_addresses i)"

lemma known_banned_ips_code [code]:
  "known_banned_ips db i = filter (count_ip_is_banned (db_banned db)) (seen_ip_addresses i)"
  unfolding known_banned_ips_def by (rule filter_cong) (simp_all add: banned_ips_def count_ip_is_banned_def)

text \<open>The entry of a peer, created when it is missing.\<close>

definition entry_info :: "'p peer_db \<Rightarrow> nanos \<Rightarrow> 'p \<Rightarrow> peer_info" where
  "entry_info db now p =
     (case peer_info_of db p of
        Some i \<Rightarrow> i
      | None \<Rightarrow> if disable_peer_scoring db then trusted_peer_info now else peer_info_default now)"

definition to_connected ::
    "'p peer_db \<Rightarrow> 'p \<Rightarrow> peer_info \<Rightarrow> enr option \<Rightarrow> multiaddr \<Rightarrow> connection_direction \<Rightarrow> 'p peer_db" where
  "to_connected db p i e a dir =
     (let i = set_enr i e;
          db = (case connection_status i of
                  Disconnected _ \<Rightarrow> dec_disconnected db
                | Banned _ \<Rightarrow> uncount_ban db i
                | _ \<Rightarrow> db)
      in put_info db p (case dir of Incoming \<Rightarrow> connect_ingoing i a | Outgoing \<Rightarrow> connect_outgoing i a))"

definition to_dialing :: "'p peer_db \<Rightarrow> nanos \<Rightarrow> 'p \<Rightarrow> peer_info \<Rightarrow> enr option \<Rightarrow> 'p peer_db" where
  "to_dialing db now p i e =
     (let db = (case connection_status i of
                  Banned _ \<Rightarrow> uncount_ban db i
                | Disconnected _ \<Rightarrow> dec_disconnected db
                | _ \<Rightarrow> db);
          i = set_enr i e
      in put_info db p (case set_dialing_peer i now of Inr i' \<Rightarrow> i' | Inl _ \<Rightarrow> i))"

definition to_disconnected ::
    "'p peer_db \<Rightarrow> nanos \<Rightarrow> 'p \<Rightarrow> peer_info \<Rightarrow> ban_operation option \<times> 'p peer_db" where
  "to_disconnected db now p i =
     (let i = i\<lparr>subnets := {}\<rparr> in
      case connection_status i of
        Banned _ \<Rightarrow> (None, put_info db p i)
      | Disconnected _ \<Rightarrow> (None, put_info db p i)
      | Disconnecting ban \<Rightarrow>
          if ban
          then let i = i\<lparr>connection_status := Banned now\<rparr>;
                   db = count_ban (put_info db p i) i
               in (Some (ReadyToBan (known_banned_ips db i)), db)
          else (Some TemporaryBan, inc_disconnected (put_info db p (i\<lparr>connection_status := Disconnected now\<rparr>)))
      | _ \<Rightarrow> (None, inc_disconnected (put_info db p (i\<lparr>connection_status := Disconnected now\<rparr>))))"

definition to_disconnecting :: "'p peer_db \<Rightarrow> 'p \<Rightarrow> peer_info \<Rightarrow> bool \<Rightarrow> 'p peer_db" where
  "to_disconnecting db p i ban =
     (let db = (case connection_status i of Disconnected _ \<Rightarrow> dec_disconnected db | _ \<Rightarrow> db)
      in put_info db p (i\<lparr>connection_status := Disconnecting ban\<rparr>))"

definition to_banned ::
    "'p peer_db \<Rightarrow> nanos \<Rightarrow> 'p \<Rightarrow> peer_info \<Rightarrow> ban_operation option \<times> 'p peer_db" where
  "to_banned db now p i =
     (case connection_status i of
        Disconnected _ \<Rightarrow>
          (let i = i\<lparr>connection_status := Banned now\<rparr>;
               db = dec_disconnected (count_ban (put_info db p i) i)
           in (Some (ReadyToBan (known_banned_ips db i)), db))
      | Disconnecting _ \<Rightarrow>
          (Some PeerDisconnecting, put_info db p (i\<lparr>connection_status := Disconnecting True\<rparr>))
      | Banned _ \<Rightarrow> (Some (ReadyToBan (known_banned_ips db i)), put_info db p i)
      | UnknownConn \<Rightarrow>
          (let i = i\<lparr>connection_status := Banned now\<rparr>;
               db = count_ban (put_info db p i) i
           in (Some (ReadyToBan (known_banned_ips db i)), db))
      | _ \<Rightarrow> (Some DisconnectThePeer, put_info db p (i\<lparr>connection_status := Disconnecting True\<rparr>)))"

definition to_unbanned :: "'p peer_db \<Rightarrow> 'p \<Rightarrow> peer_info \<Rightarrow> 'p peer_db" where
  "to_unbanned db p i =
     (case connection_status i of
        Banned since \<Rightarrow>
          (let i = i\<lparr>connection_status := Disconnected since\<rparr> in
           sat_inc_disconnected (uncount_ban (put_info db p i) i))
      | _ \<Rightarrow> put_info db p i)"

definition update_connection_state ::
    "'p peer_db \<Rightarrow> nanos \<Rightarrow> 'p \<Rightarrow> new_connection_state \<Rightarrow> ban_operation option \<times> 'p peer_db" where
  "update_connection_state db now p new_state =
     (let i = entry_info db now p in
      case new_state of
        NewConnected e a dir \<Rightarrow> (None, to_connected db p i e a dir)
      | NewDialing e \<Rightarrow> (None, to_dialing db now p i e)
      | NewDisconnected \<Rightarrow> to_disconnected db now p i
      | NewDisconnecting ban \<Rightarrow> (None, to_disconnecting db p i ban)
      | NewBanned \<Rightarrow>
          to_banned db now p
            (if pi_score_state i = BannedState then i else apply_peer_action_to_score i Fatal)
      | NewUnbanned \<Rightarrow> (None, to_unbanned db p i))"

section \<open>Bounding the size of the database\<close>

fun banned_entry :: "'p \<times> peer_info \<Rightarrow> ('p \<times> peer_info \<times> nanos) option" where
  "banned_entry (p, i) = (case connection_status i of Banned since \<Rightarrow> Some (p, i, since) | _ \<Rightarrow> None)"

definition oldest_banned :: "'p peer_db \<Rightarrow> ('p \<times> peer_info \<times> nanos) option" where
  "oldest_banned db = min_by_key (\<lambda>(p, i, since). since) (List.map_filter banned_entry (peers db))"

text \<open>One iteration of the first loop, then the loop.\<close>

definition drop_banned :: "'p peer_db \<Rightarrow> ('p \<times> ip_addr list) option \<times> 'p peer_db" where
  "drop_banned db =
     (case oldest_banned db of
        Some (p, i, _) \<Rightarrow>
          (let db = uncount_ban db i;
               unbanned_ips = filter (\<lambda>ip. \<not> is_ip_banned db ip) (seen_ip_addresses i)
           in (Some (p, unbanned_ips), db\<lparr>peers := AList.delete p (peers db)\<rparr>))
      | None \<Rightarrow> (None, db\<lparr>db_banned := banned_peers_count_default\<rparr>))"

function shrink_banned :: "'p peer_db \<Rightarrow> ('p \<times> ip_addr list) list \<times> 'p peer_db" where
  "shrink_banned db =
     (if MAX_BANNED_PEERS < banned_peers (db_banned db)
      then let (dropped, db') = drop_banned db;
               (rest, db'') = shrink_banned db'
           in (case dropped of Some x \<Rightarrow> (x # rest, db'') | None \<Rightarrow> (rest, db''))
      else ([], db))"
  by pat_completeness auto

lemma drop_banned_decreases:
  "MAX_BANNED_PEERS < banned_peers (db_banned db) \<Longrightarrow>
   banned_peers (db_banned (snd (drop_banned db))) < banned_peers (db_banned db)"
  by (auto simp: drop_banned_def uncount_ban_def remove_banned_peer_def sat_sub_def MAX_BANNED_PEERS_def
      banned_peers_count_default_def Let_def split: option.splits)

termination shrink_banned
  by (relation "measure (\<lambda>db. banned_peers (db_banned db))")
    (auto, metis drop_banned_decreases snd_conv)

declare shrink_banned.simps [simp del]

definition oldest_disconnected :: "'p peer_db \<Rightarrow> 'p option" where
  "oldest_disconnected db =
     map_option fst
       (min_by_key snd
         (List.map_filter
           (\<lambda>(p, i). case connection_status i of Disconnected since \<Rightarrow> Some (p, since) | _ \<Rightarrow> None)
           (filter (\<lambda>(p, i). is_disconnected i \<and> \<not> is_trusted i) (peers db))))"

definition drop_disconnected :: "'p peer_db \<Rightarrow> 'p peer_db" where
  "drop_disconnected db =
     dec_disconnected
       (case oldest_disconnected db of
          Some p \<Rightarrow> db\<lparr>peers := AList.delete p (peers db)\<rparr>
        | None \<Rightarrow> db)"

function shrink_disconnected :: "'p peer_db \<Rightarrow> 'p peer_db" where
  "shrink_disconnected db =
     (if MAX_DC_PEERS < disconnected_peers db then shrink_disconnected (drop_disconnected db) else db)"
  by pat_completeness auto

lemma disconnected_drop:
  "disconnected_peers (drop_disconnected db) = disconnected_peers db - 1"
  by (simp add: drop_disconnected_def dec_disconnected_def sat_sub_def split: option.splits)

termination shrink_disconnected
  by (relation "measure disconnected_peers") (auto simp: disconnected_drop MAX_DC_PEERS_def)

declare shrink_disconnected.simps [simp del]

definition shrink_to_fit :: "'p peer_db \<Rightarrow> ('p \<times> ip_addr list) list \<times> 'p peer_db" where
  "shrink_to_fit db = (let (unbanned, db') = shrink_banned db in (unbanned, shrink_disconnected db'))"

definition inject_disconnect ::
    "'p peer_db \<Rightarrow> nanos \<Rightarrow> 'p \<Rightarrow> (ban_operation option \<times> ('p \<times> ip_addr list) list) \<times> 'p peer_db" where
  "inject_disconnect db now p =
     (let (maybe_ban_op, db') = update_connection_state db now p NewDisconnected;
          (purged, db'') = shrink_to_fit db'
      in ((maybe_ban_op, purged), db''))"

definition notify_disconnecting :: "'p peer_db \<Rightarrow> nanos \<Rightarrow> 'p \<Rightarrow> bool \<Rightarrow> 'p peer_db" where
  "notify_disconnecting db now p ban = snd (update_connection_state db now p (NewDisconnecting ban))"

definition dialing_peer :: "'p peer_db \<Rightarrow> nanos \<Rightarrow> 'p \<Rightarrow> enr option \<Rightarrow> 'p peer_db" where
  "dialing_peer db now p e = snd (update_connection_state db now p (NewDialing e))"

definition db_connect_ingoing :: "'p peer_db \<Rightarrow> nanos \<Rightarrow> 'p \<Rightarrow> multiaddr \<Rightarrow> enr option \<Rightarrow> 'p peer_db" where
  "db_connect_ingoing db now p a e = snd (update_connection_state db now p (NewConnected e a Incoming))"

definition db_connect_outgoing :: "'p peer_db \<Rightarrow> nanos \<Rightarrow> 'p \<Rightarrow> multiaddr \<Rightarrow> enr option \<Rightarrow> 'p peer_db" where
  "db_connect_outgoing db now p a e = snd (update_connection_state db now p (NewConnected e a Outgoing))"

section \<open>Scores and reports\<close>

datatype score_transition_result = TrDisconnected | TrBanned | TrUnbanned | TrNoAction

datatype score_update_result = BanUpdate ban_operation | DisconnectUpdate | UnbannedUpdate "ip_addr list" | NoAction

definition of_ban_operation :: "ban_operation option \<Rightarrow> score_update_result" where
  "of_ban_operation x = (case x of None \<Rightarrow> NoAction | Some b \<Rightarrow> BanUpdate b)"

definition handle_score_transition :: "score_state \<Rightarrow> peer_info \<Rightarrow> score_transition_result" where
  "handle_score_transition previous_state i =
     (case (pi_score_state i, previous_state) of
        (BannedState, Healthy) \<Rightarrow> TrBanned
      | (BannedState, ForcedDisconnect) \<Rightarrow> TrBanned
      | (ForcedDisconnect, BannedState) \<Rightarrow>
          if is_connected_or_dialing i then TrDisconnected else TrUnbanned
      | (ForcedDisconnect, Healthy) \<Rightarrow>
          if is_connected_or_dialing i then TrDisconnected else TrNoAction
      | (Healthy, ForcedDisconnect) \<Rightarrow> TrNoAction
      | (Healthy, BannedState) \<Rightarrow> TrUnbanned
      | (Healthy, Healthy) \<Rightarrow> TrNoAction
      | (ForcedDisconnect, ForcedDisconnect) \<Rightarrow> TrNoAction
      | (BannedState, BannedState) \<Rightarrow> TrNoAction)"

text \<open>The IP addresses of a peer that are not banned, as reported with an unban.\<close>

definition unbanned_ips :: "'p peer_db \<Rightarrow> 'p \<Rightarrow> ip_addr list" where
  "unbanned_ips db p =
     (case peer_info_of db p of
        Some i \<Rightarrow> filter (\<lambda>ip. \<not> is_ip_banned db ip) (seen_ip_addresses i)
      | None \<Rightarrow> [])"

definition unban_peer :: "'p peer_db \<Rightarrow> nanos \<Rightarrow> 'p \<Rightarrow> score_update_result \<times> 'p peer_db" where
  "unban_peer db now p =
     (let db = snd (update_connection_state db now p NewUnbanned) in (UnbannedUpdate (unbanned_ips db p), db))"

fun unban_peers :: "'p peer_db \<Rightarrow> nanos \<Rightarrow> 'p list \<Rightarrow> ('p \<times> score_update_result) list \<times> 'p peer_db" where
  "unban_peers db now [] = ([], db)"
| "unban_peers db now (p # ps) =
     (let (r, db') = unban_peer db now p; (rs, db'') = unban_peers db' now ps in ((p, r) # rs, db''))"

definition update_scores :: "'p peer_db \<Rightarrow> nanos \<Rightarrow> ('p \<times> score_update_result) list \<times> 'p peer_db" where
  "update_scores db now =
     (let peers_to_unban =
            map fst (filter (\<lambda>x. handle_score_transition (pi_score_state (snd x)) (decay_peer_score (snd x) now) = TrUnbanned)
                      (peers db));
          db' = db\<lparr>peers := map (\<lambda>x. (fst x, decay_peer_score (snd x) now)) (peers db)\<rparr>
      in unban_peers db' now peers_to_unban)"

text \<open>
  \<open>update_gossipsub_scores\<close>: \<open>gossip\<close> stands for the score gossipsub gives a peer, \<open>sort_desc\<close> for
  the unstable sort of the standard library by descending score. \<open>fold_gossip\<close> is the loop over
  the sorted peers, counting down the negative scores it may ignore.
\<close>

abbreviation ALLOWED_NEGATIVE_GOSSIPSUB_FACTOR :: nat where "ALLOWED_NEGATIVE_GOSSIPSUB_FACTOR \<equiv> 13421773"

definition allowed_negative_peers :: "nat \<Rightarrow> nat" where
  "allowed_negative_peers target_peers = f32_scale_ceil target_peers ALLOWED_NEGATIVE_GOSSIPSUB_FACTOR"

fun fold_gossip ::
    "'p peer_db \<Rightarrow> nanos \<Rightarrow> nat \<Rightarrow> ('p \<times> f64) list \<Rightarrow> ('p \<times> score_transition_result) list \<times> 'p peer_db" where
  "fold_gossip db now to_ignore [] = ([], db)"
| "fold_gossip db now to_ignore ((p, s) # ps) =
     (case peer_info_of db p of
        None \<Rightarrow> fold_gossip db now to_ignore ps
      | Some i \<Rightarrow>
          (let ignore = (f64_lt s (Fin 0) \<and> 0 < to_ignore);
               i' = pi_update_gossipsub_score i now s ignore;
               (rs, db') = fold_gossip (put_info db p i') now (if ignore then to_ignore - 1 else to_ignore) ps
           in ((p, handle_score_transition (pi_score_state i) i') # rs, db')))"

definition apply_gossip_transition ::
    "'p peer_db \<Rightarrow> nanos \<Rightarrow> 'p \<Rightarrow> score_transition_result \<Rightarrow> score_update_result \<times> 'p peer_db" where
  "apply_gossip_transition db now p t =
     (case t of
        TrBanned \<Rightarrow> (let (op, db') = update_connection_state db now p NewBanned in (of_ban_operation op, db'))
      | TrDisconnected \<Rightarrow> (DisconnectUpdate, snd (update_connection_state db now p (NewDisconnecting False)))
      | TrNoAction \<Rightarrow> (NoAction, db)
      | TrUnbanned \<Rightarrow> unban_peer db now p)"

fun apply_gossip_transitions ::
    "'p peer_db \<Rightarrow> nanos \<Rightarrow> ('p \<times> score_transition_result) list \<Rightarrow> ('p \<times> score_update_result) list \<times> 'p peer_db" where
  "apply_gossip_transitions db now [] = ([], db)"
| "apply_gossip_transitions db now ((p, t) # ts) =
     (let (r, db') = apply_gossip_transition db now p t;
          (rs, db'') = apply_gossip_transitions db' now ts
      in (if r = NoAction then (rs, db'') else ((p, r) # rs, db'')))"

definition update_gossipsub_scores ::
    "('p \<Rightarrow> f64 option) \<Rightarrow> (('p \<times> f64) list \<Rightarrow> ('p \<times> f64) list) \<Rightarrow> 'p peer_db \<Rightarrow> nanos \<Rightarrow> nat \<Rightarrow>
     ('p \<times> score_update_result) list \<times> 'p peer_db" where
  "update_gossipsub_scores gossip sort_desc db now target_peers =
     (let scored = List.map_filter (\<lambda>p. map_option (Pair p) (gossip p)) (connected_peer_ids db);
          (actions, db') = fold_gossip db now (allowed_negative_peers target_peers) (sort_desc scored)
      in apply_gossip_transitions db' now actions)"

definition db_report_peer :: "'p peer_db \<Rightarrow> nanos \<Rightarrow> 'p \<Rightarrow> peer_action \<Rightarrow> score_update_result \<times> 'p peer_db" where
  "db_report_peer db now p action =
     (case peer_info_of db p of
        None \<Rightarrow> (NoAction, db)
      | Some i \<Rightarrow>
          (let i' = apply_peer_action_to_score i action;
               db' = put_info db p i'
           in case handle_score_transition (pi_score_state i) i' of
                TrBanned \<Rightarrow>
                  (let (op, db'') = update_connection_state db' now p NewBanned in (of_ban_operation op, db''))
              | TrDisconnected \<Rightarrow>
                  (DisconnectUpdate, snd (update_connection_state db' now p (NewDisconnecting False)))
              | TrNoAction \<Rightarrow> (NoAction, db')
              | TrUnbanned \<Rightarrow> (NoAction, db')))"

section \<open>Other updates\<close>

definition stale_dialing :: "nanos \<Rightarrow> peer_info \<Rightarrow> bool" where
  "stale_dialing now i =
     (case connection_status i of Dialing since \<Rightarrow> since + secs DIAL_TIMEOUT < now | _ \<Rightarrow> False)"

definition cleanup_dialing_peers :: "'p peer_db \<Rightarrow> nanos \<Rightarrow> 'p peer_db" where
  "cleanup_dialing_peers db now =
     fold (\<lambda>p db. snd (update_connection_state db now p NewDisconnected)) (ids_where (stale_dialing now) db) db"

definition db_update_sync_status :: "'p peer_db \<Rightarrow> 'p \<Rightarrow> sync_status \<Rightarrow> bool option \<times> 'p peer_db" where
  "db_update_sync_status db p s =
     (case peer_info_of db p of
        None \<Rightarrow> (None, db)
      | Some i \<Rightarrow> (let (changed, i') = update_sync_status i s in (Some changed, put_info db p i')))"

definition longer_ttl :: "peer_info \<Rightarrow> nanos \<Rightarrow> peer_info" where
  "longer_ttl i t =
     (case min_ttl i of None \<Rightarrow> i\<lparr>min_ttl := Some t\<rparr> | Some t0 \<Rightarrow> if t0 < t then i\<lparr>min_ttl := Some t\<rparr> else i)"

definition update_min_ttl :: "'p peer_db \<Rightarrow> nanos \<Rightarrow> 'p \<Rightarrow> nanos \<Rightarrow> 'p peer_db" where
  "update_min_ttl db now p t =
     put_info db p (longer_ttl (case peer_info_of db p of Some i \<Rightarrow> i | None \<Rightarrow> peer_info_default now) t)"

definition add_subscription :: "'p peer_db \<Rightarrow> 'p \<Rightarrow> subnet \<Rightarrow> 'p peer_db" where
  "add_subscription db p s =
     (case peer_info_of db p of
        Some i \<Rightarrow> put_info db p (i\<lparr>subnets := insert s (subnets i)\<rparr>) | None \<Rightarrow> db)"

definition remove_subscription :: "'p peer_db \<Rightarrow> 'p \<Rightarrow> subnet \<Rightarrow> 'p peer_db" where
  "remove_subscription db p s =
     (case peer_info_of db p of
        Some i \<Rightarrow> put_info db p (i\<lparr>subnets := subnets i - {s}\<rparr>) | None \<Rightarrow> db)"

definition extend_peers_on_subnet :: "'p peer_db \<Rightarrow> subnet \<Rightarrow> nanos \<Rightarrow> 'p peer_db" where
  "extend_peers_on_subnet db s t =
     db\<lparr>peers := map (\<lambda>(p, i).
          (p, if is_connected i \<and> on_subnet_metadata i s \<and> on_subnet_gossipsub i s then longer_ttl i t else i))
        (peers db)\<rparr>"

end
