(* ===== verification/PeerDBInvariant.thy ===== *)
theory PeerDBInvariant
  imports PeerDB "HOL-Library.Multiset"
begin

text \<open>
  The invariant of the peer database: how the counters of disconnected and banned peers relate to
  the table of peers, for every operation of \<open>PeerDB\<close>; the bounds that \<open>shrink_to_fit\<close> enforces;
  trusted peers; what reports and score updates can do to a peer.

  Two uses of the database make its counters inexact: telling a banned peer to disconnect, and a
  disconnection while there are many trusted peers. Every lemma therefore has a flag \<open>exact\<close>: with it
  the counters are exact and these uses are excluded, without it nothing is excluded and the counters are
  bounds.
\<close>

section \<open>Counters as totals\<close>

definition dc_weight :: "peer_info \<Rightarrow> nat" where
  "dc_weight i = of_bool (is_disconnected i)"

definition ban_weight :: "peer_info \<Rightarrow> nat" where
  "ban_weight i = of_bool (is_banned i)"

definition ip_weight :: "ip_addr \<Rightarrow> peer_info \<Rightarrow> nat" where
  "ip_weight ip i = (if is_banned i then count_list (seen_ip_addresses i) ip else 0)"

definition count_at :: "(ip_addr \<rightharpoonup> nat) \<Rightarrow> ip_addr \<Rightarrow> nat" where
  "count_at m ip = (case m ip of Some c \<Rightarrow> c | None \<Rightarrow> 0)"

definition ip_count :: "banned_peers_count \<Rightarrow> ip_addr \<Rightarrow> nat" where
  "ip_count b ip = count_at (banned_peers_per_ip b) ip"

definition agree :: "bool \<Rightarrow> nat \<Rightarrow> nat \<Rightarrow> bool" where
  "agree exact a b \<longleftrightarrow> (if exact then a = b else a \<le> b)"

lemma agree_refl [simp]: "agree exact a a"
  by (simp add: agree_def)

lemma agree_le: "agree exact a b \<Longrightarrow> a \<le> b"
  by (simp add: agree_def split: if_splits)

definition db_inv :: "bool \<Rightarrow> 'p peer_db \<Rightarrow> bool" where
  "db_inv exact db \<longleftrightarrow>
     distinct (map fst (peers db)) \<and>
     agree exact (disconnected_peers db) (total_of dc_weight (peers db)) \<and>
     agree exact (total_of ban_weight (peers db)) (banned_peers (db_banned db)) \<and>
     (\<forall>ip. agree exact (total_of (ip_weight ip) (peers db)) (ip_count (db_banned db) ip))"

definition small :: "'p peer_db \<Rightarrow> bool" where
  "small db \<longleftrightarrow> length (peers db) < u64_max"

lemma total_le_length:
  assumes "\<And>v. f v \<le> 1"
  shows "total_of f xs \<le> length xs"
proof (induction xs)
  case (Cons x xs)
  then show ?case using assms [of "snd x"] by simp
qed simp

lemma count_at_upd [simp]: "count_at (m(k \<mapsto> c)) ip = (if ip = k then c else count_at m ip)"
  by (simp add: count_at_def)

lemma count_at_inc: "count_at (inc_ips m ips) ip = count_at m ip + count_list ips ip"
  by (induction ips arbitrary: m) (simp_all add: count_at_def [symmetric])

lemma count_at_dec: "count_at (dec_ips m ips) ip = count_at m ip - count_list ips ip"
proof (induction ips arbitrary: m)
  case (Cons k ips)
  then show ?case by (cases "m k") (auto simp: sat_sub_def count_at_def)
qed simp

lemma count_add_banned [simp]:
  "ip_count (add_banned_peer b ips) ip = ip_count b ip + count_list ips ip"
  by (simp add: ip_count_def add_banned_peer_def count_at_inc)

lemma count_remove_banned [simp]:
  "ip_count (remove_banned_peer b ips) ip = ip_count b ip - count_list ips ip"
  by (simp add: ip_count_def remove_banned_peer_def count_at_dec)

lemma banned_add [simp]:
  "banned_peers (add_banned_peer b ips) = (if banned_peers b < u64_max then banned_peers b + 1 else u64_max)"
  by (simp add: add_banned_peer_def sat_add_def)

lemma banned_remove [simp]: "banned_peers (remove_banned_peer b ips) = banned_peers b - 1"
  by (simp add: remove_banned_peer_def sat_sub_def)

lemmas weights = dc_weight_def ban_weight_def ip_weight_def status_queries

lemma entry_unknown: "peer_info_of db p = None \<Longrightarrow> connection_status (entry_info db now p) = UnknownConn"
  by (simp add: entry_info_def trusted_peer_info_def peer_info_default_def)

lemma entry_weight:
  assumes "f \<in> insert dc_weight (insert ban_weight (range ip_weight))"
  shows "weight_at f (peers db) p = f (entry_info db now p)"
proof (cases "peer_info_of db p")
  case None
  then show ?thesis using assms entry_unknown [OF None, of now]
    by (auto simp: weight_at_def peer_info_of_def weights)
next
  case (Some i)
  then show ?thesis by (simp add: weight_at_def peer_info_of_def entry_info_def)
qed

text \<open>
  One entry is replaced and the counters are changed by what it contributed before and
  contributes now: then the invariant is kept. Every transition is an instance.
\<close>

lemma agree_replace:
  assumes "agree exact t c" "t' + w = t + w'" "agree exact (c + w') (c' + w)"
  shows "agree exact t' c'"
  using assms by (auto simp: agree_def split: if_splits)

lemma ban_weight_le: "ban_weight i \<le> 1"
  by (simp add: ban_weight_def of_bool_def)

lemma dc_weight_le: "dc_weight i \<le> 1"
  by (simp add: dc_weight_def of_bool_def)

lemma inv_replace:
  assumes inv: "db_inv exact db"
    and peers: "peers db' = AList.update p i' (peers db)"
    and dc: "disconnected_peers db' = disconnected_peers db + dc_weight i' - dc_weight (entry_info db now p)"
    and ban: "agree exact (banned_peers (db_banned db) + ban_weight i')
                (banned_peers (db_banned db') + ban_weight (entry_info db now p))
              \<or> small db \<and> banned_peers (db_banned db') = u64_max \<and> u64_max \<le> banned_peers (db_banned db)"
    and ip: "\<And>ip. agree exact (ip_count (db_banned db) ip + ip_weight ip i')
                (ip_count (db_banned db') ip + ip_weight ip (entry_info db now p))"
  shows "db_inv exact db'"
proof -
  let ?e = "entry_info db now p"
  have d: "distinct (map fst (peers db))" using inv by (simp add: db_inv_def)
  have upd: "total_of f (peers db') + f ?e = total_of f (peers db) + f i'"
    if "f \<in> insert dc_weight (insert ban_weight (range ip_weight))" for f
    using total_update [OF d, of f p i'] entry_weight [OF that, of db p now] by (simp add: peers)
  have le: "f ?e \<le> total_of f (peers db)" if "f \<in> insert dc_weight (insert ban_weight (range ip_weight))" for f
    using weight_at_le_total [of f "peers db" p] entry_weight [OF that, of db p now] by simp
  have "agree exact (disconnected_peers db') (total_of dc_weight (peers db'))"
    using inv dc upd [of dc_weight] le [of dc_weight] by (auto simp: db_inv_def agree_def split: if_splits)
  moreover have "agree exact (total_of ban_weight (peers db')) (banned_peers (db_banned db'))"
    using ban
  proof
    assume "agree exact (banned_peers (db_banned db) + ban_weight i') (banned_peers (db_banned db') + ban_weight ?e)"
    from agree_replace [OF _ upd this] show ?thesis using inv by (simp add: db_inv_def)
  next
    assume s: "small db \<and> banned_peers (db_banned db') = u64_max \<and> u64_max \<le> banned_peers (db_banned db)"
    have "total_of ban_weight (peers db) < u64_max"
      using s total_le_length [of ban_weight "peers db"] ban_weight_le by (auto simp: small_def)
    moreover have "total_of ban_weight (peers db') \<le> total_of ban_weight (peers db) + 1"
      using upd [of ban_weight] ban_weight_le [of i'] by simp
    ultimately show ?thesis using s inv by (auto simp: db_inv_def agree_def)
  qed
  moreover have "agree exact (total_of (ip_weight ip) (peers db')) (ip_count (db_banned db') ip)" for ip
    by (rule agree_replace [OF _ upd ip]) (use inv in \<open>simp_all add: db_inv_def\<close>)
  ultimately show ?thesis using d by (simp add: db_inv_def peers AList.distinct_update)
qed

lemma disconnected_less:
  assumes "db_inv exact db" "small db"
  shows "disconnected_peers db < u64_max"
  using assms total_le_length [of dc_weight "peers db"] dc_weight_le agree_le
  by (force simp: db_inv_def small_def)

lemma db_op_fields [simp]:
  "peers (dec_disconnected db) = peers db" "peers (inc_disconnected db) = peers db"
  "peers (uncount_ban db i) = peers db" "peers (count_ban db i) = peers db"
  "disconnected_peers (dec_disconnected db) = disconnected_peers db - 1"
  "disconnected_peers (inc_disconnected db) = disconnected_peers db + 1"
  "disconnected_peers db < u64_max \<Longrightarrow> disconnected_peers (sat_inc_disconnected db) = disconnected_peers db + 1"
  "peers (sat_inc_disconnected db) = peers db" "db_banned (sat_inc_disconnected db) = db_banned db"
  "disconnected_peers (uncount_ban db i) = disconnected_peers db"
  "disconnected_peers (count_ban db i) = disconnected_peers db"
  "db_banned (dec_disconnected db) = db_banned db" "db_banned (inc_disconnected db) = db_banned db"
  "db_banned (uncount_ban db i) = remove_banned_peer (db_banned db) (seen_ip_addresses i)"
  "db_banned (count_ban db i) = add_banned_peer (db_banned db) (seen_ip_addresses i)"
  "peers (put_info db p i) = AList.update p i (peers db)"
  "disconnected_peers (put_info db p i) = disconnected_peers db"
  "db_banned (put_info db p i) = db_banned db"
  by (simp_all add: dec_disconnected_def inc_disconnected_def sat_inc_disconnected_def uncount_ban_def count_ban_def put_info_def sat_sub_def sat_add_def)

lemma seen_ip_cong: "seen_multiaddrs i = seen_multiaddrs j \<Longrightarrow> seen_ip_addresses i = seen_ip_addresses j"
  by (simp add: seen_ip_addresses_def)

lemma set_enr_fields [simp]:
  "connection_status (set_enr i e) = connection_status i" "seen_multiaddrs (set_enr i e) = seen_multiaddrs i"
  "pi_score (set_enr i e) = pi_score i" "is_trusted (set_enr i e) = is_trusted i"
  by (simp_all add: set_enr_def split: option.splits)

lemma seen_ip_simps [simp]:
  "seen_ip_addresses (i\<lparr>connection_status := s\<rparr>) = seen_ip_addresses i"
  "seen_ip_addresses (i\<lparr>subnets := a\<rparr>) = seen_ip_addresses i"
  "seen_ip_addresses (i\<lparr>pi_score := sc\<rparr>) = seen_ip_addresses i"
  "seen_ip_addresses (set_enr i e) = seen_ip_addresses i"
  by (simp_all add: seen_ip_addresses_def)

section \<open>Every operation keeps the invariant\<close>

text \<open>\<open>like i j\<close>: the two infos count alike.\<close>

definition like :: "peer_info \<Rightarrow> peer_info \<Rightarrow> bool" where
  "like i j \<longleftrightarrow> connection_status i = connection_status j \<and> seen_multiaddrs i = seen_multiaddrs j"

lemma like_simps [simp]:
  "like i i" "like (set_enr i e) j \<longleftrightarrow> like i j" "like (i\<lparr>subnets := a\<rparr>) j \<longleftrightarrow> like i j"
  "like (i\<lparr>pi_score := sc\<rparr>) j \<longleftrightarrow> like i j" "like (apply_peer_action_to_score i act) j \<longleftrightarrow> like i j"
  by (auto simp: like_def set_enr_def apply_peer_action_to_score_def split: option.splits)

lemma like_weights:
  "like i j \<Longrightarrow> dc_weight i = dc_weight j" "like i j \<Longrightarrow> ban_weight i = ban_weight j"
  "like i j \<Longrightarrow> ip_weight ip i = ip_weight ip j"
  by (simp_all add: like_def weights seen_ip_addresses_def)

lemma connect_status_disc [simp]:
  "\<not> is_Disconnected (connection_status (connect_ingoing i a))" "\<not> is_Banned (connection_status (connect_ingoing i a))"
  "\<not> is_Disconnected (connection_status (connect_outgoing i a))" "\<not> is_Banned (connection_status (connect_outgoing i a))"
  using connect_status [of i a] by (auto simp: is_connected_def split: peer_connection_status.splits)

lemma inv_replace_like:
  assumes "db_inv exact db" "like i (entry_info db now p)" "peers db' = AList.update p i' (peers db)"
    "disconnected_peers db' = disconnected_peers db + dc_weight i' - dc_weight i"
    "agree exact (banned_peers (db_banned db) + ban_weight i') (banned_peers (db_banned db') + ban_weight i)
     \<or> small db \<and> banned_peers (db_banned db') = u64_max \<and> u64_max \<le> banned_peers (db_banned db)"
    "\<And>ip. agree exact (ip_count (db_banned db) ip + ip_weight ip i') (ip_count (db_banned db') ip + ip_weight ip i)"
  shows "db_inv exact db'"
  using inv_replace [OF assms(1,3), of now] assms(4-6) like_weights [OF assms(2)] by simp

lemma like_le:
  assumes "db_inv exact db" "like i (entry_info db now p)"
  shows "ban_weight i \<le> banned_peers (db_banned db)" "ip_weight ip i \<le> ip_count (db_banned db) ip"
proof -
  have le: "f i \<le> total_of f (peers db)" if "f \<in> insert ban_weight (range ip_weight)" for f
    using weight_at_le_total [of f "peers db" p] entry_weight [of f db p now] like_weights [OF assms(2)] that by auto
  show "ban_weight i \<le> banned_peers (db_banned db)" "ip_weight ip i \<le> ip_count (db_banned db) ip"
    using assms(1) le [of ban_weight] le [of "ip_weight ip"] agree_le order_trans by (fastforce simp: db_inv_def)+
qed

lemma status_same:
  "connection_status i = s \<Longrightarrow> i\<lparr>subnets := a, connection_status := s\<rparr> = i\<lparr>subnets := a\<rparr>"
  by (cases i) simp

lemma inv_to_connected:
  assumes "db_inv exact db" "like i (entry_info db now p)"
  shows "db_inv exact (to_connected db p i e a dir)"
  by (rule inv_replace_like [OF assms, where
        i' = "case dir of Incoming \<Rightarrow> connect_ingoing (set_enr i e) a | Outgoing \<Rightarrow> connect_outgoing (set_enr i e) a"])
    (use like_le [OF assms] in \<open>auto simp: to_connected_def Let_def weights
      split: peer_connection_status.splits connection_direction.splits\<close>)

lemma inv_to_dialing:
  assumes "db_inv exact db" "like i (entry_info db now p)"
  shows "db_inv exact (to_dialing db now' p i e)"
  by (rule inv_replace_like [OF assms, where
        i' = "case set_dialing_peer (set_enr i e) now' of Inr i' \<Rightarrow> i' | Inl _ \<Rightarrow> set_enr i e"])
    (use like_le [OF assms] in \<open>auto simp: to_dialing_def Let_def weights set_dialing_peer_def
      split: peer_connection_status.splits\<close>)

lemma inv_to_disconnected:
  assumes "db_inv exact db" "like i (entry_info db now p)" "small db"
  shows "db_inv exact (snd (to_disconnected db now' p i))"
  by (rule inv_replace_like [OF assms(1,2), where
        i' = "i\<lparr>subnets := {}, connection_status := case connection_status i of
                 Banned t \<Rightarrow> Banned t | Disconnected t \<Rightarrow> Disconnected t
               | Disconnecting ban \<Rightarrow> if ban then Banned now' else Disconnected now'
               | _ \<Rightarrow> Disconnected now'\<rparr>"])
    (use like_le [OF assms(1,2)] disconnected_less [OF assms(1,3)] assms(3) in
      \<open>auto simp: to_disconnected_def Let_def weights status_same split: peer_connection_status.splits\<close>)

lemma inv_to_disconnecting:
  assumes "db_inv exact db" "like i (entry_info db now p)" "exact \<Longrightarrow> \<not> is_banned i"
  shows "db_inv exact (to_disconnecting db p i ban)"
  by (rule inv_replace_like [OF assms(1,2), where i' = "i\<lparr>connection_status := Disconnecting ban\<rparr>"])
    (use assms(3) in
      \<open>auto simp: to_disconnecting_def Let_def weights agree_def split: peer_connection_status.splits\<close>)

lemma inv_to_banned:
  assumes "db_inv exact db" "like i (entry_info db now p)" "small db"
  shows "db_inv exact (snd (to_banned db now' p i))"
  by (rule inv_replace_like [OF assms(1,2), where
        i' = "case connection_status i of
                 Disconnected t \<Rightarrow> i\<lparr>connection_status := Banned now'\<rparr>
               | UnknownConn \<Rightarrow> i\<lparr>connection_status := Banned now'\<rparr>
               | Banned t \<Rightarrow> i
               | _ \<Rightarrow> i\<lparr>connection_status := Disconnecting True\<rparr>"])
    (use like_le [OF assms(1,2)] disconnected_less [OF assms(1,3)] assms(3) in
      \<open>auto simp: to_banned_def Let_def weights split: peer_connection_status.splits\<close>)

lemma inv_to_unbanned:
  assumes "db_inv exact db" "like i (entry_info db now p)" "small db"
  shows "db_inv exact (to_unbanned db p i)"
  by (rule inv_replace_like [OF assms(1,2), where
        i' = "case connection_status i of Banned t \<Rightarrow> i\<lparr>connection_status := Disconnected t\<rparr> | _ \<Rightarrow> i"])
    (use like_le [OF assms(1,2)] disconnected_less [OF assms(1,3)] assms(3) in \<open>auto simp: to_unbanned_def Let_def weights split: peer_connection_status.splits\<close>)

lemma inv_update_connection_state:
  assumes "db_inv exact db" "small db"
    "case new_state of NewDisconnecting _ \<Rightarrow> exact \<longrightarrow> \<not> is_banned (entry_info db now p) | _ \<Rightarrow> True"
  shows "db_inv exact (snd (update_connection_state db now p new_state))"
  using assms
  by (cases new_state)
    (auto simp: update_connection_state_def Let_def intro: inv_to_connected [where now = now]
      inv_to_dialing [where now = now] inv_to_disconnected [where now = now]
      inv_to_disconnecting [where now = now] inv_to_banned [where now = now] inv_to_unbanned [where now = now])

text \<open>Replacing an info by one that counts alike, for one peer or for all.\<close>

lemma inv_put_like:
  assumes "db_inv exact db" "peer_info_of db p = Some i" "like i' i"
  shows "db_inv exact (put_info db p i')"
proof -
  have e: "like i (entry_info db 0 p)" using assms(2) by (simp add: entry_info_def)
  show ?thesis
    by (rule inv_replace_like [OF assms(1) e, where i' = i']) (simp_all add: like_weights [OF assms(3)])
qed

lemma inv_map_like:
  assumes "db_inv exact db" "\<And>x. x \<in> set (peers db) \<Longrightarrow> like (f x) (snd x)"
  shows "db_inv exact (db\<lparr>peers := map (\<lambda>x. (fst x, f x)) (peers db)\<rparr>)"
proof -
  have "total_of w (map (\<lambda>x. (fst x, f x)) xs) = total_of w xs"
    if "\<And>x. x \<in> set xs \<Longrightarrow> w (f x) = w (snd x)" for w and xs :: "('a \<times> peer_info) list"
    using that by (induction xs) auto
  then show ?thesis using assms by (simp add: db_inv_def like_weights comp_def)
qed

section \<open>Dropping peers\<close>

lemma inv_delete:
  assumes "db_inv exact db" "map_of (peers db) p = Some i" "peers db' = AList.delete p (peers db)"
    "disconnected_peers db' = disconnected_peers db - dc_weight i"
    "banned_peers (db_banned db') = banned_peers (db_banned db) - ban_weight i"
    "\<And>ip. ip_count (db_banned db') ip = ip_count (db_banned db) ip - ip_weight ip i"
  shows "db_inv exact db'"
proof -
  have t: "total_of f (peers db) = total_of f (AList.delete p (peers db)) + f i" for f
    using total_delete [of "peers db" f p] assms(1,2) by (simp add: weight_at_def db_inv_def)
  have "agree exact (a - w) b" if "agree exact a (b + w)" for a b w using that by (auto simp: agree_def split: if_splits)
  moreover have "agree exact b (a - w)" if "agree exact (b + w) a" for a b w using that by (auto simp: agree_def split: if_splits)
  ultimately show ?thesis
    using assms(1) unfolding db_inv_def t assms(3-6) by (simp add: AList.distinct_delete)
qed

lemma set_map_filter: "x \<in> set (List.map_filter f xs) \<longleftrightarrow> (\<exists>y \<in> set xs. f y = Some x)"
  by (induction xs) (auto simp: List.map_filter_simps split: option.splits)

lemma oldest_banned_Some:
  assumes "oldest_banned db = Some (p, i, since)"
  shows "(p, i) \<in> set (peers db)" "connection_status i = Banned since"
    "\<And>q j t. (q, j) \<in> set (peers db) \<Longrightarrow> connection_status j = Banned t \<Longrightarrow> since \<le> t"
proof -
  have b: "banned_entry y = Some (q, j, t) \<longleftrightarrow> y = (q, j) \<and> connection_status j = Banned t" for y and q :: 'a and j t
    by (cases y) (auto split: peer_connection_status.splits)
  note mn = min_by_key_Some [OF assms [unfolded oldest_banned_def]]
  have "(p, i, since) \<in> set (List.map_filter banned_entry (peers db))" using mn by blast
  then show "(p, i) \<in> set (peers db)" "connection_status i = Banned since"
    by (auto simp: set_map_filter b)
  show "since \<le> t" if "(q, j) \<in> set (peers db)" "connection_status j = Banned t" for q j t
  proof -
    have "(q, j, t) \<in> set (List.map_filter banned_entry (peers db))" using that by (auto simp: set_map_filter b)
    then show ?thesis using mn by fastforce
  qed
qed

lemma oldest_banned_None: "oldest_banned db = None \<longleftrightarrow> (\<forall>x \<in> set (peers db). \<not> is_banned (snd x))"
  by (force simp: oldest_banned_def List.map_filter_def filter_empty_conv status_queries
      split: peer_connection_status.splits)

text \<open>With exact counters there is a banned peer to drop; otherwise there may be none, and the counters are reset.\<close>

lemma inv_drop_banned:
  assumes "db_inv exact db" "MAX_BANNED_PEERS < banned_peers (db_banned db)"
  shows "db_inv exact (snd (drop_banned db))"
    "(\<exists>p i since. oldest_banned db = Some (p, i, since) \<and> peers (snd (drop_banned db)) = AList.delete p (peers db))
     \<or> peers (snd (drop_banned db)) = peers db"
proof -
  have "db_inv exact (snd (drop_banned db)) \<and>
    ((\<exists>p i since. oldest_banned db = Some (p, i, since) \<and> peers (snd (drop_banned db)) = AList.delete p (peers db))
     \<or> peers (snd (drop_banned db)) = peers db)"
  proof (cases "oldest_banned db")
    case None
    then have z: "total_of ban_weight (peers db) = 0" "total_of (ip_weight ip) (peers db) = 0" for ip
      unfolding oldest_banned_None by (simp_all add: total_eq_0 ban_weight_def ip_weight_def)
    then show ?thesis using assms None
      by (auto simp: db_inv_def agree_def drop_banned_def banned_peers_count_default_def ip_count_def count_at_def split: if_splits)
  next
    case (Some y)
    then obtain p i since where o: "oldest_banned db = Some (p, i, since)" by (cases y) auto
    note ob = oldest_banned_Some [OF o]
    have mp: "map_of (peers db) p = Some i" using ob(1) assms(1) by (simp add: db_inv_def)
    have "db_inv exact (snd (drop_banned db))"
      by (rule inv_delete [OF assms(1) mp])
        (use ob(2) in \<open>simp_all add: drop_banned_def o weights Let_def\<close>)
    then show ?thesis by (simp add: o drop_banned_def Let_def)
  qed
  then show "db_inv exact (snd (drop_banned db))"
    "(\<exists>p i since. oldest_banned db = Some (p, i, since) \<and> peers (snd (drop_banned db)) = AList.delete p (peers db))
     \<or> peers (snd (drop_banned db)) = peers db" by blast+
qed

lemma shrink_banned_unfold:
  "snd (shrink_banned db) =
     (if MAX_BANNED_PEERS < banned_peers (db_banned db) then snd (shrink_banned (snd (drop_banned db))) else db)"
  by (subst shrink_banned.simps) (auto simp: Let_def split: prod.splits option.splits)

text \<open>
  \<open>drops P db db'\<close>: \<open>db'\<close> is \<open>db\<close> without some of the peers that satisfy \<open>P\<close>, and holds the other
  peers unchanged; a peer that is dropped was in its state no later than every peer that satisfies
  \<open>P\<close> and is kept, as \<open>age\<close> measures it.
\<close>

definition drops :: "(peer_info \<Rightarrow> bool) \<Rightarrow> (peer_info \<Rightarrow> nat) \<Rightarrow> 'p peer_db \<Rightarrow> 'p peer_db \<Rightarrow> bool" where
  "drops P age db db' \<longleftrightarrow>
     (\<forall>p i. peer_info_of db' p = Some i \<longrightarrow> peer_info_of db p = Some i) \<and>
     (\<forall>p i. peer_info_of db p = Some i \<and> peer_info_of db' p = None \<longrightarrow>
        P i \<and> (\<forall>q j. peer_info_of db' q = Some j \<and> P j \<longrightarrow> age i \<le> age j))"

definition since_of :: "peer_info \<Rightarrow> nat" where
  "since_of i = (case connection_status i of Disconnected t \<Rightarrow> t | Banned t \<Rightarrow> t | _ \<Rightarrow> 0)"

lemma drops_refl [simp]: "drops P age db db"
  by (auto simp: drops_def)

lemma drops_step:
  assumes "peers db1 = AList.delete p (peers db)" "peer_info_of db p = Some i" "P i"
    "\<And>q j. peer_info_of db q = Some j \<Longrightarrow> P j \<Longrightarrow> age i \<le> age j" "drops P age db1 db2"
  shows "drops P age db db2"
proof -
  have d1: "peer_info_of db1 q = (if q = p then None else peer_info_of db q)" for q
    using assms(1) by (simp add: peer_info_of_def AList.delete_conv')
  have s: "peer_info_of db q = Some j" "q \<noteq> p" if "peer_info_of db2 q = Some j" for q j
    using that assms(5) d1 [of q] by (auto simp: drops_def split: if_splits)
  show ?thesis
    unfolding drops_def
  proof (intro conjI allI impI; (elim conjE)?)
    fix q j assume "peer_info_of db2 q = Some j" then show "peer_info_of db q = Some j" by (rule s)
  next
    fix q j assume q: "peer_info_of db q = Some j" "peer_info_of db2 q = None"
    show "P j" using q assms(2,3,5) d1 [of q] by (cases "q = p") (auto simp: drops_def)
    fix r k assume r: "peer_info_of db2 r = Some k" "P k"
    show "age j \<le> age k"
      using q r assms(2,4) assms(5) [unfolded drops_def] d1 [of q] s [OF r(1)] by (cases "q = p") auto
  qed
qed

lemma drops_same:
  "peers db1 = peers db \<Longrightarrow> drops P age db1 db2 \<Longrightarrow> drops P age db db2"
  by (auto simp: drops_def peer_info_of_def)

lemma inv_shrink_banned:
  assumes "db_inv exact db"
  shows "db_inv exact (snd (shrink_banned db)) \<and> banned_peers (db_banned (snd (shrink_banned db))) \<le> MAX_BANNED_PEERS
    \<and> drops is_banned since_of db (snd (shrink_banned db))"
  using assms
proof (induction db rule: shrink_banned.induct)
  case (1 db)
  show ?case
  proof (cases "MAX_BANNED_PEERS < banned_peers (db_banned db)")
    case True
    have d: "distinct (map fst (peers db))" using 1(2) by (simp add: db_inv_def)
    note IH = 1(1) [OF True refl prod.collapse inv_drop_banned(1) [OF 1(2) True]]
    note rest = IH [THEN conjunct2, THEN conjunct2]
    from inv_drop_banned(2) [OF 1(2) True] have "drops is_banned since_of db (snd (shrink_banned (snd (drop_banned db))))"
    proof (elim disjE exE conjE)
      fix p i since
      assume o: "oldest_banned db = Some (p, i, since)" and pe: "peers (snd (drop_banned db)) = AList.delete p (peers db)"
      note ob = oldest_banned_Some [OF o]
      show ?thesis
        by (rule drops_step [OF pe _ _ _ rest, where i = i])
          (use ob d in \<open>auto simp: peer_info_of_def status_queries since_of_def
            split: peer_connection_status.splits dest: map_of_SomeD\<close>)
    qed (rule drops_same [OF _ rest])
    then show ?thesis using IH True by (subst (1 2 3) shrink_banned_unfold) simp
  next
    case False
    then show ?thesis using 1(2) by (subst (1 2 3) shrink_banned_unfold) simp
  qed
qed

text \<open>The second loop drops disconnected peers that are not trusted.\<close>

definition droppable :: "peer_info \<Rightarrow> bool" where
  "droppable i \<longleftrightarrow> is_disconnected i \<and> \<not> is_trusted i"

definition trusted_disconnected :: "'p peer_db \<Rightarrow> nat" where
  "trusted_disconnected db = total_of (\<lambda>i. of_bool (is_disconnected i \<and> is_trusted i)) (peers db)"

lemma disconnected_since:
  "(case connection_status i of Disconnected since \<Rightarrow> Some (p, since) | _ \<Rightarrow> None) = Some x
     \<longleftrightarrow> p = fst x \<and> connection_status i = Disconnected (snd x)"
  by (cases x) (auto split: peer_connection_status.splits)

lemma set_disconnected:
  assumes "distinct (map fst (peers db))"
  shows "(q, t) \<in> set (List.map_filter
        (\<lambda>(p, i). case connection_status i of Disconnected since \<Rightarrow> Some (p, since) | _ \<Rightarrow> None)
        (filter (\<lambda>(p, i). is_disconnected i \<and> \<not> is_trusted i) (peers db)))
    \<longleftrightarrow> (\<exists>j. peer_info_of db q = Some j \<and> droppable j \<and> since_of j = t)" (is "?l = ?r")
proof
  assume ?l
  then obtain j where j: "(q, j) \<in> set (peers db)" "droppable j" "connection_status j = Disconnected t"
    by (auto simp: set_map_filter droppable_def disconnected_since)
  then show ?r using assms by (auto simp: peer_info_of_def since_of_def)
next
  assume ?r
  then obtain j where j: "(q, j) \<in> set (peers db)" "droppable j" "since_of j = t"
    by (auto simp: peer_info_of_def dest: map_of_SomeD)
  then have "connection_status j = Disconnected t"
    by (auto simp: droppable_def status_queries since_of_def split: peer_connection_status.splits)
  with j show ?l by (auto simp: set_map_filter droppable_def disconnected_since)
qed

lemma oldest_disconnected_Some:
  assumes "oldest_disconnected db = Some p" "distinct (map fst (peers db))"
  obtains i where "peer_info_of db p = Some i" "droppable i"
    "\<forall>q j. peer_info_of db q = Some j \<longrightarrow> droppable j \<longrightarrow> since_of i \<le> since_of j"
proof -
  obtain t where t: "min_by_key snd (List.map_filter
        (\<lambda>(p, i). case connection_status i of Disconnected since \<Rightarrow> Some (p, since) | _ \<Rightarrow> None)
        (filter (\<lambda>(p, i). is_disconnected i \<and> \<not> is_trusted i) (peers db))) = Some (p, t)"
    using assms(1) by (auto simp: oldest_disconnected_def)
  note mn = min_by_key_Some [OF t]
  then obtain i where i: "peer_info_of db p = Some i" "droppable i" "since_of i = t"
    using set_disconnected [OF assms(2), of p t] by blast
  have "since_of i \<le> since_of j" if "peer_info_of db q = Some j" "droppable j" for q j
    using bspec [OF conjunct2 [OF mn] iffD2 [OF set_disconnected [OF assms(2), of q "since_of j"]]] that i(3) by auto
  with i(1,2) that show ?thesis by blast
qed

lemma oldest_disconnected_None:
  assumes "oldest_disconnected db = None" "distinct (map fst (peers db))" "x \<in> set (peers db)"
  shows "\<not> droppable (snd x)"
  using assms set_disconnected [OF assms(2), of "fst x" "since_of (snd x)"]
  by (cases x) (auto simp: oldest_disconnected_def peer_info_of_def)

lemma drop_disconnected_step:
  assumes "db_inv exact db" "MAX_DC_PEERS < disconnected_peers db" "exact \<Longrightarrow> trusted_disconnected db \<le> MAX_DC_PEERS"
  shows "db_inv exact (drop_disconnected db)" "trusted_disconnected (drop_disconnected db) = trusted_disconnected db"
    "peers (drop_disconnected db) = peers db \<or>
     (\<exists>p i. peers (drop_disconnected db) = AList.delete p (peers db) \<and> peer_info_of db p = Some i \<and> droppable i \<and>
        (\<forall>q j. peer_info_of db q = Some j \<longrightarrow> droppable j \<longrightarrow> since_of i \<le> since_of j))"
proof -
  have d: "distinct (map fst (peers db))" using assms(1) by (simp add: db_inv_def)
  have "db_inv exact (drop_disconnected db) \<and> trusted_disconnected (drop_disconnected db) = trusted_disconnected db \<and>
    (peers (drop_disconnected db) = peers db \<or>
     (\<exists>p i. peers (drop_disconnected db) = AList.delete p (peers db) \<and> peer_info_of db p = Some i \<and> droppable i \<and>
        (\<forall>q j. peer_info_of db q = Some j \<longrightarrow> droppable j \<longrightarrow> since_of i \<le> since_of j)))"
  proof (cases "oldest_disconnected db")
    case None
    have "total_of dc_weight (peers db) = trusted_disconnected db"
      unfolding trusted_disconnected_def total_of_def
      using oldest_disconnected_None [OF None d]
      by (intro arg_cong [where f = sum_list] map_cong) (auto simp: dc_weight_def droppable_def)
    then have "\<not> exact" using assms by (auto simp: db_inv_def agree_def)
    then show ?thesis
      using assms(1) by (auto simp: db_inv_def agree_def drop_disconnected_def None trusted_disconnected_def)
  next
    case p: (Some p)
    obtain i where i: "peer_info_of db p = Some i" "droppable i"
      "\<forall>q j. peer_info_of db q = Some j \<longrightarrow> droppable j \<longrightarrow> since_of i \<le> since_of j"
      by (rule oldest_disconnected_Some [OF p d]) auto
    have pe: "peers (drop_disconnected db) = AList.delete p (peers db)" by (simp add: drop_disconnected_def p)
    have mp: "map_of (peers db) p = Some i" using i(1) by (simp add: peer_info_of_def)
    have inv: "db_inv exact (drop_disconnected db)"
      by (rule inv_delete [OF assms(1) mp pe])
        (use i(2) in \<open>auto simp: drop_disconnected_def p droppable_def weights split: peer_connection_status.splits\<close>)
    have "trusted_disconnected (drop_disconnected db) = trusted_disconnected db"
      using total_delete [OF d, of "\<lambda>i. of_bool (is_disconnected i \<and> is_trusted i)" p] i(2)
      by (simp add: trusted_disconnected_def pe weight_at_def mp droppable_def)
    then show ?thesis using inv pe i by blast
  qed
  then show "db_inv exact (drop_disconnected db)" "trusted_disconnected (drop_disconnected db) = trusted_disconnected db"
    "peers (drop_disconnected db) = peers db \<or>
     (\<exists>p i. peers (drop_disconnected db) = AList.delete p (peers db) \<and> peer_info_of db p = Some i \<and> droppable i \<and>
        (\<forall>q j. peer_info_of db q = Some j \<longrightarrow> droppable j \<longrightarrow> since_of i \<le> since_of j))" by blast+
qed

lemma drop_disconnected_banned [simp]: "db_banned (drop_disconnected db) = db_banned db"
  by (simp add: drop_disconnected_def split: option.splits)

lemma inv_shrink_disconnected:
  assumes "db_inv exact db" "exact \<Longrightarrow> trusted_disconnected db \<le> MAX_DC_PEERS"
  shows "db_inv exact (shrink_disconnected db) \<and> disconnected_peers (shrink_disconnected db) \<le> MAX_DC_PEERS
    \<and> drops droppable since_of db (shrink_disconnected db)
    \<and> db_banned (shrink_disconnected db) = db_banned db"
  using assms
proof (induction db rule: shrink_disconnected.induct)
  case (1 db)
  show ?case
  proof (cases "MAX_DC_PEERS < disconnected_peers db")
    case True
    have step: "db_inv exact (drop_disconnected db)" "trusted_disconnected (drop_disconnected db) = trusted_disconnected db"
    "peers (drop_disconnected db) = peers db \<or>
     (\<exists>p i. peers (drop_disconnected db) = AList.delete p (peers db) \<and> peer_info_of db p = Some i \<and> droppable i \<and>
        (\<forall>q j. peer_info_of db q = Some j \<longrightarrow> droppable j \<longrightarrow> since_of i \<le> since_of j))"
      using drop_disconnected_step [OF 1(2) True] 1(3) by blast+
    have t: "trusted_disconnected (drop_disconnected db) \<le> MAX_DC_PEERS" if exact using step(2) 1(3) [OF that] by simp
    note IH = 1(1) [OF True step(1) t]
    have u: "shrink_disconnected db = shrink_disconnected (drop_disconnected db)"
      using True by (subst shrink_disconnected.simps) simp
    from step(3) have "drops droppable since_of db (shrink_disconnected (drop_disconnected db))"
    proof (elim disjE exE conjE)
      fix p i
      assume p: "peers (drop_disconnected db) = AList.delete p (peers db)" "peer_info_of db p = Some i"
        "droppable i" "\<forall>q j. peer_info_of db q = Some j \<longrightarrow> droppable j \<longrightarrow> since_of i \<le> since_of j"
      show ?thesis
        by (rule drops_step [OF p(1,2), where P = droppable and age = since_of]) (use p(3,4) IH in blast)+
    qed (use IH in \<open>blast intro: drops_same\<close>)
    then show ?thesis unfolding u using IH by simp
  next
    case False
    then have "shrink_disconnected db = db" by (subst shrink_disconnected.simps) simp
    then show ?thesis using 1(2) False by simp
  qed
qed

section \<open>Composite operations\<close>

definition keys_of :: "'p peer_db \<Rightarrow> 'p list" where
  "keys_of db = map fst (peers db)"

definition touches :: "'p \<Rightarrow> 'p peer_db \<Rightarrow> 'p peer_db \<Rightarrow> bool" where
  "touches p db db' \<longleftrightarrow> db' = db \<or> (\<exists>i. peers db' = AList.update p i (peers db))"

lemma touches_update: "touches p db (snd (update_connection_state db now p s))"
  by (auto simp: touches_def update_connection_state_def to_connected_def to_dialing_def to_disconnected_def
      to_disconnecting_def to_banned_def to_unbanned_def Let_def
      split: new_connection_state.splits peer_connection_status.splits)

lemma touches_put [simp]: "touches p db (put_info db p i)"
  by (auto simp: touches_def)

lemma touches_other: "touches p db db' \<Longrightarrow> q \<noteq> p \<Longrightarrow> peer_info_of db' q = peer_info_of db q"
  by (auto simp: touches_def peer_info_of_def AList.update_conv')

lemma touches_keys: "touches p db db' \<Longrightarrow> p \<in> set (keys_of db) \<Longrightarrow> keys_of db' = keys_of db"
  by (force simp: touches_def keys_of_def AList.update_keys)

lemma small_keys: "small db \<longleftrightarrow> length (keys_of db) < u64_max"
  by (simp add: small_def keys_of_def)

lemma touches_small: "touches p db db' \<Longrightarrow> p \<in> set (keys_of db) \<Longrightarrow> small db \<Longrightarrow> small db'"
  by (simp add: small_keys touches_keys)

lemma peer_info_keys: "peer_info_of db p = Some i \<Longrightarrow> p \<in> set (keys_of db)"
  by (force simp: peer_info_of_def keys_of_def dest: map_of_SomeD)

lemma touches_unban: "touches p db (snd (unban_peer db now p))"
  by (simp add: unban_peer_def touches_update Let_def)

lemma inv_unban_peer: "db_inv exact db \<Longrightarrow> small db \<Longrightarrow> db_inv exact (snd (unban_peer db now p))"
  by (simp add: unban_peer_def Let_def inv_update_connection_state)

lemma inv_unban_peers:
  assumes "db_inv exact db" "small db" "set ps \<subseteq> set (keys_of db)"
  shows "db_inv exact (snd (unban_peers db now ps))"
  using assms
proof (induction ps arbitrary: db)
  case (Cons p ps)
  let ?db = "snd (unban_peer db now p)"
  have k: "keys_of ?db = keys_of db" using touches_keys [OF touches_unban, of p db now] Cons.prems(3) by simp
  have "db_inv exact (snd (unban_peers ?db now ps))"
    using Cons inv_unban_peer [of exact db now p] k by (simp add: small_keys)
  then show ?case by (simp add: split_beta Let_def)
qed simp

lemma inv_update_scores:
  assumes "db_inv exact db" "small db"
  shows "db_inv exact (snd (update_scores db now))"
proof -
  let ?db = "db\<lparr>peers := map (\<lambda>x. (fst x, decay_peer_score (snd x) now)) (peers db)\<rparr>"
  have k: "keys_of ?db = keys_of db" by (simp add: keys_of_def comp_def)
  have "db_inv exact ?db" by (rule inv_map_like [OF assms(1)]) (simp add: decay_peer_score_def)
  then show ?thesis
    unfolding update_scores_def Let_def
    by (rule inv_unban_peers) (use k assms(2) in \<open>auto simp: small_keys keys_of_def\<close>)
qed

lemma handle_TrDisconnected: "handle_score_transition s i = TrDisconnected \<Longrightarrow> is_connected_or_dialing i"
  by (auto simp: handle_score_transition_def split: score_state.splits if_splits)

lemma connected_or_dialing_not_banned: "is_connected_or_dialing i \<Longrightarrow> \<not> is_banned i"
  by (auto simp: status_queries split: peer_connection_status.splits)

lemma like_queries:
  "like i j \<Longrightarrow> is_connected_or_dialing i \<longleftrightarrow> is_connected_or_dialing j" "like i j \<Longrightarrow> is_banned i \<longleftrightarrow> is_banned j"
  by (simp_all add: like_def status_queries)

lemma entry_Some [simp]: "peer_info_of db p = Some i \<Longrightarrow> entry_info db now p = i"
  by (simp add: entry_info_def)

lemma peer_info_put [simp]: "peer_info_of (put_info db p i) q = (if q = p then Some i else peer_info_of db q)"
  by (simp add: peer_info_of_def put_info_def AList.update_conv')

lemma inv_report:
  assumes "db_inv exact db" "small db"
  shows "db_inv exact (snd (db_report_peer db now p act))"
proof (cases "peer_info_of db p")
  case (Some i)
  let ?i = "apply_peer_action_to_score i act"
  let ?db = "put_info db p ?i"
  have inv: "db_inv exact ?db" by (rule inv_put_like [OF assms(1) Some]) simp
  have sm: "small ?db" using touches_small [OF touches_put peer_info_keys [OF Some] assms(2)] .
  have "\<not> is_banned ?i" if "handle_score_transition (pi_score_state i) ?i = TrDisconnected"
    using connected_or_dialing_not_banned [OF handle_TrDisconnected [OF that]] .
  then show ?thesis
    using inv sm by (auto simp: db_report_peer_def Some Let_def split_beta
        split: score_transition_result.splits intro!: inv_update_connection_state)
qed (simp add: db_report_peer_def assms(1))

lemma inv_cleanup:
  assumes "db_inv exact db" "small db"
  shows "db_inv exact (cleanup_dialing_peers db now)"
proof -
  have "db_inv exact (fold (\<lambda>p db. snd (update_connection_state db now p NewDisconnected)) ps db)"
    if "db_inv exact db" "small db" "set ps \<subseteq> set (keys_of db)" for ps db
    using that
  proof (induction ps arbitrary: db)
    case (Cons p ps)
    then show ?case
      using touches_keys [OF touches_update, of p db now NewDisconnected]
      by (simp add: small_keys inv_update_connection_state)
  qed simp
  from this [OF assms, of "ids_where (stale_dialing now) db"] show ?thesis
    unfolding cleanup_dialing_peers_def by (auto simp: ids_where_def keys_of_def)
qed

text \<open>The two loops of the gossipsub update.\<close>

definition alike :: "'p peer_db \<Rightarrow> 'p peer_db \<Rightarrow> bool" where
  "alike db db' \<longleftrightarrow> keys_of db = keys_of db' \<and> (\<forall>q. rel_option like (peer_info_of db' q) (peer_info_of db q))"

lemma like_trans: "like i j \<Longrightarrow> like j k \<Longrightarrow> like i k"
  by (simp add: like_def)

lemma like_gossip [simp]: "like (pi_update_gossipsub_score i now s ig) i"
  by (simp add: like_def pi_update_gossipsub_score_def)

lemma alike_trans: "alike a b \<Longrightarrow> alike b c \<Longrightarrow> alike a c"
  using option.rel_transp [of like] like_trans unfolding alike_def transp_def by metis

lemma alike_put: "peer_info_of db p = Some i \<Longrightarrow> like i' i \<Longrightarrow> alike db (put_info db p i')"
  using touches_keys [OF touches_put peer_info_keys, of db p i i']
  by (auto simp: alike_def option.rel_refl)

lemma alike_refl [simp]: "alike db db"
  by (simp add: alike_def option.rel_refl)

definition sound_actions :: "'p peer_db \<Rightarrow> ('p \<times> score_transition_result) list \<Rightarrow> bool" where
  "sound_actions db rs \<longleftrightarrow> distinct (map fst rs) \<and>
     (\<forall>x \<in> set rs. \<exists>i. peer_info_of db (fst x) = Some i \<and> (snd x = TrDisconnected \<longrightarrow> is_connected_or_dialing i))"

lemma sound_actions_Cons:
  assumes "peer_info_of db p = Some i" "t = TrDisconnected \<Longrightarrow> is_connected_or_dialing i"
    "sound_actions (put_info db p i') rs" "p \<notin> fst ` set rs"
  shows "sound_actions db ((p, t) # rs)"
  unfolding sound_actions_def
proof (intro conjI ballI)
  fix x assume x: "x \<in> set ((p, t) # rs)"
  show "\<exists>i. peer_info_of db (fst x) = Some i \<and> (snd x = TrDisconnected \<longrightarrow> is_connected_or_dialing i)"
  proof (cases "x = (p, t)")
    case False
    with x assms(4) have "x \<in> set rs" "fst x \<noteq> p" by auto
    with assms(3) show ?thesis unfolding sound_actions_def by fastforce
  qed (use assms(1,2) in simp)
qed (use assms(3,4) in \<open>simp add: sound_actions_def\<close>)

lemma fold_gossip_ok:
  assumes "db_inv exact db" "distinct (map fst ps)" "fold_gossip db now n ps = (rs, db')"
  shows "db_inv exact db' \<and> alike db db' \<and> fst ` set rs \<subseteq> fst ` set ps \<and> sound_actions db rs"
  using assms
proof (induction ps arbitrary: db n rs db')
  case (Cons x ps)
  obtain p s where x: "x = (p, s)" by (cases x)
  show ?case
  proof (cases "peer_info_of db p")
    case None
    then show ?thesis using Cons.IH [of db n rs db'] Cons.prems by (auto simp: x)
  next
    case (Some i)
    let ?ig = "f64_lt s (Fin 0) \<and> 0 < n"
    let ?i = "pi_update_gossipsub_score i now s ?ig"
    let ?db = "put_info db p ?i"
    obtain rs' where f: "fold_gossip ?db now (if ?ig then n - 1 else n) ps = (rs', db')"
      and rs: "rs = (p, handle_score_transition (pi_score_state i) ?i) # rs'"
      using Cons.prems(3) by (auto simp: x Some Let_def split: prod.splits)
    have "db_inv exact ?db" by (rule inv_put_like [OF Cons.prems(1) Some]) simp
    note IH = Cons.IH [OF this _ f]
    have d: "p \<notin> fst ` set ps" "distinct (map fst ps)" using Cons.prems(2) by (auto simp: x)
    have IH': "db_inv exact db'" "alike ?db db'" "fst ` set rs' \<subseteq> fst ` set ps" "sound_actions ?db rs'"
      using IH d(2) by auto
    have "sound_actions db rs" unfolding rs
    proof (rule sound_actions_Cons [OF Some _ IH'(4)])
      show "is_connected_or_dialing i" if "handle_score_transition (pi_score_state i) ?i = TrDisconnected"
        using handle_TrDisconnected [OF that] like_queries(1) [OF like_gossip] by blast
      show "p \<notin> fst ` set rs'" using d(1) IH'(3) by blast
    qed
    moreover have "alike db db'" by (rule alike_trans [OF alike_put [OF Some like_gossip] IH'(2)])
    moreover have "fst ` set rs \<subseteq> fst ` set (x # ps)" using IH'(3) by (simp add: rs x subset_insertI2)
    ultimately show ?thesis using IH'(1) by simp
  qed
qed (simp add: sound_actions_def)

lemma sound_actions_alike:
  assumes "alike db db'" "sound_actions db rs"
  shows "sound_actions db' rs"
  unfolding sound_actions_def
proof (intro conjI ballI)
  fix x assume "x \<in> set rs"
  then obtain i where i: "peer_info_of db (fst x) = Some i" "snd x = TrDisconnected \<longrightarrow> is_connected_or_dialing i"
    using assms(2) by (auto simp: sound_actions_def)
  have "rel_option like (peer_info_of db' (fst x)) (Some i)" using assms(1) i(1) unfolding alike_def by metis
  then obtain j where "peer_info_of db' (fst x) = Some j" "like j i" by (auto simp: option_rel_Some2)
  then show "\<exists>i. peer_info_of db' (fst x) = Some i \<and> (snd x = TrDisconnected \<longrightarrow> is_connected_or_dialing i)"
    using i(2) like_queries(1) by blast
qed (use assms(2) in \<open>simp add: sound_actions_def\<close>)

lemma touches_gossip: "touches p db (snd (apply_gossip_transition db now p t))"
  by (auto simp: apply_gossip_transition_def split_beta Let_def touches_update touches_unban touches_def [where db' = db]
      split: score_transition_result.splits)

lemma inv_gossip_transitions:
  assumes "db_inv exact db" "small db" "sound_actions db ts"
  shows "db_inv exact (snd (apply_gossip_transitions db now ts))"
  using assms
proof (induction ts arbitrary: db)
  case (Cons x ts)
  obtain p t where x: "x = (p, t)" by (cases x)
  let ?db = "snd (apply_gossip_transition db now p t)"
  obtain i where i: "peer_info_of db p = Some i" "t = TrDisconnected \<Longrightarrow> is_connected_or_dialing i"
    using Cons.prems(3) by (auto simp: x sound_actions_def)
  have inv: "db_inv exact ?db"
    using Cons.prems(1,2) i connected_or_dialing_not_banned
    by (auto simp: apply_gossip_transition_def split_beta Let_def inv_unban_peer
        split: score_transition_result.splits intro!: inv_update_connection_state)
  have sm: "small ?db" by (rule touches_small [OF touches_gossip peer_info_keys [OF i(1)] Cons.prems(2)])
  have "sound_actions ?db ts"
    using Cons.prems(3) touches_other [OF touches_gossip [of p db now t]]
    by (force simp: sound_actions_def x)
  from Cons.IH [OF inv sm this] show ?case by (auto simp: x split_beta Let_def)
qed simp

lemma map_filter_pairs: "map fst (List.map_filter (\<lambda>p. map_option (Pair p) (g p)) ps) = filter (\<lambda>p. g p \<noteq> None) ps"
  by (induction ps) (auto simp: List.map_filter_simps split: option.splits)

lemma inv_update_gossipsub_scores:
  assumes "db_inv exact db" "small db" "\<And>xs. mset (sort_desc xs) = mset xs"
  shows "db_inv exact (snd (update_gossipsub_scores gossip sort_desc db now target))"
proof -
  let ?xs = "List.map_filter (\<lambda>p. map_option (Pair p) (gossip p)) (connected_peer_ids db)"
  have "distinct (connected_peer_ids db)"
    using assms(1) by (simp add: connected_peer_ids_def ids_where_def db_inv_def distinct_map_filter)
  then have "distinct (map fst ?xs)" by (simp add: map_filter_pairs)
  then have "distinct (map fst (sort_desc ?xs))"
    by (metis assms(3) mset_map mset_eq_imp_distinct_iff)
  moreover obtain rs db' where f: "fold_gossip db now (allowed_negative_peers target) (sort_desc ?xs) = (rs, db')"
    by fastforce
  ultimately have ok: "db_inv exact db'" "alike db db'" "sound_actions db rs"
    using fold_gossip_ok [OF assms(1)] by blast+
  have "small db'" using ok(2) assms(2) by (simp add: alike_def small_keys)
  from inv_gossip_transitions [OF ok(1) this sound_actions_alike [OF ok(2,3)]] show ?thesis
    by (simp add: update_gossipsub_scores_def f)
qed

section \<open>The operations as a step relation\<close>

text \<open>
  \<open>db_call orderly db db'\<close>: one public operation of the database, which changes \<open>db\<close> to \<open>db'\<close>. The table is
  smaller than the address space. \<open>mutate\<close> is a change through \<open>peer_info_mut\<close> (client, meta data,
  addresses to listen on), which leaves the connection, the score and the trust of the peer alone.

  Nothing in the code keeps its callers from telling a banned peer to disconnect
  (\<open>Network::remove_trusted_peer\<close> does so) or from having more trusted peers than \<open>MAX_DC_PEERS\<close> when a
  peer disconnects. An orderly call is neither of these; \<open>db_step\<close> is any call.
\<close>

inductive db_call :: "bool \<Rightarrow> 'p peer_db \<Rightarrow> 'p peer_db \<Rightarrow> bool" for orderly where
  trust: "db_call orderly db (set_trusted_peer db now p)"
| untrust: "db_call orderly db (unset_trusted_peer db now p)"
| mutate: "peer_info_of db p = Some i \<Longrightarrow> like i' i \<Longrightarrow> pi_score i' = pi_score i \<Longrightarrow> is_trusted i' = is_trusted i \<Longrightarrow>
    db_call orderly db (put_info db p i')"
| connect_in: "small db \<Longrightarrow> db_call orderly db (db_connect_ingoing db now p a e)"
| connect_out: "small db \<Longrightarrow> db_call orderly db (db_connect_outgoing db now p a e)"
| dial: "small db \<Longrightarrow> db_call orderly db (dialing_peer db now p e)"
| disconnecting: "small db \<Longrightarrow> (orderly \<Longrightarrow> \<not> is_banned (entry_info db now p)) \<Longrightarrow>
    db_call orderly db (notify_disconnecting db now p ban)"
| disconnect: "small db \<Longrightarrow>
    (orderly \<Longrightarrow> length (trusted_peers (snd (update_connection_state db now p NewDisconnected))) \<le> MAX_DC_PEERS) \<Longrightarrow>
    db_call orderly db (snd (inject_disconnect db now p))"
| report: "small db \<Longrightarrow> db_call orderly db (snd (db_report_peer db now p act))"
| scores: "small db \<Longrightarrow> db_call orderly db (snd (update_scores db now))"
| gossip: "small db \<Longrightarrow> (\<And>xs. mset (sort_desc xs) = mset xs) \<Longrightarrow>
    db_call orderly db (snd (update_gossipsub_scores score_of sort_desc db now target))"
| cleanup: "small db \<Longrightarrow> db_call orderly db (cleanup_dialing_peers db now)"
| sync_status: "db_call orderly db (snd (db_update_sync_status db p st))"
| min_ttl: "db_call orderly db (update_min_ttl db now p t)"
| subscribe: "db_call orderly db (add_subscription db p sn)"
| unsubscribe: "db_call orderly db (remove_subscription db p sn)"
| extend: "db_call orderly db (extend_peers_on_subnet db sn t)"

abbreviation db_step :: "'p peer_db \<Rightarrow> 'p peer_db \<Rightarrow> bool" where
  "db_step \<equiv> db_call False"

lemma orderly_step: "db_call orderly db db' \<Longrightarrow> db_step db db'"
  by (induction rule: db_call.induct) (auto intro: db_call.intros)

lemma trusted_disconnected_le: "trusted_disconnected db \<le> length (trusted_peers db)"
proof -
  have "total_of (\<lambda>i. of_bool (is_disconnected i \<and> is_trusted i)) xs
      \<le> length (filter (\<lambda>x. is_trusted (snd x)) xs)" for xs :: "('a \<times> peer_info) list"
    by (induction xs) auto
  then show ?thesis by (simp add: trusted_disconnected_def trusted_peers_def ids_where_def)
qed

lemma shrink_banned_trusted:
  assumes "db_inv exact db"
  shows "trusted_disconnected (snd (shrink_banned db)) = trusted_disconnected db"
  using assms
proof (induction db rule: shrink_banned.induct)
  case (1 db)
  show ?case
  proof (cases "MAX_BANNED_PEERS < banned_peers (db_banned db)")
    case True
    have d: "distinct (map fst (peers db))" using 1(2) by (simp add: db_inv_def)
    from inv_drop_banned(2) [OF 1(2) True]
    have "trusted_disconnected (snd (drop_banned db)) = trusted_disconnected db"
    proof (elim disjE exE conjE)
      fix p i since
      assume o: "oldest_banned db = Some (p, i, since)" and pe: "peers (snd (drop_banned db)) = AList.delete p (peers db)"
      show ?thesis
        using total_delete [OF d, of "\<lambda>i. of_bool (is_disconnected i \<and> is_trusted i)" p] oldest_banned_Some(1,2) [OF o] d
        by (simp add: trusted_disconnected_def pe weight_at_def is_disconnected_def)
    qed (simp add: trusted_disconnected_def)
    then show ?thesis
      using 1(1) [OF True refl prod.collapse inv_drop_banned(1) [OF 1(2) True]] True
      by (subst shrink_banned_unfold) simp
  qed (simp add: shrink_banned_unfold)
qed

lemma inv_inject_disconnect:
  assumes "db_inv exact db" "small db"
    "exact \<Longrightarrow> length (trusted_peers (snd (update_connection_state db now p NewDisconnected))) \<le> MAX_DC_PEERS"
  shows "db_inv exact (snd (inject_disconnect db now p))"
    "disconnected_peers (snd (inject_disconnect db now p)) \<le> MAX_DC_PEERS"
    "banned_peers (db_banned (snd (inject_disconnect db now p))) \<le> MAX_BANNED_PEERS"
    "\<exists>db1. drops is_banned since_of (snd (update_connection_state db now p NewDisconnected)) db1
           \<and> drops droppable since_of db1 (snd (inject_disconnect db now p))"
proof -
  let ?u = "snd (update_connection_state db now p NewDisconnected)"
  have u: "db_inv exact ?u" using assms by (simp add: inv_update_connection_state)
  note sb = inv_shrink_banned [OF u]
  have t: "trusted_disconnected (snd (shrink_banned ?u)) \<le> MAX_DC_PEERS" if exact
    using shrink_banned_trusted [OF u] trusted_disconnected_le [of ?u] assms(3) [OF that] by simp
  note sd = inv_shrink_disconnected [OF conjunct1 [OF sb] t]
  have e: "snd (inject_disconnect db now p) = shrink_disconnected (snd (shrink_banned ?u))"
    by (simp add: inject_disconnect_def shrink_to_fit_def split_beta Let_def)
  show "db_inv exact (snd (inject_disconnect db now p))"
    "disconnected_peers (snd (inject_disconnect db now p)) \<le> MAX_DC_PEERS"
    "banned_peers (db_banned (snd (inject_disconnect db now p))) \<le> MAX_BANNED_PEERS"
    "\<exists>db1. drops is_banned since_of ?u db1 \<and> drops droppable since_of db1 (snd (inject_disconnect db now p))"
    unfolding e using sb sd by auto
qed

lemma inv_step:
  assumes "db_call exact db db'" "db_inv exact db"
  shows "db_inv exact db'"
  using assms
proof (cases rule: db_call.cases)
  case (trust now p)
  then show ?thesis
  proof (cases "peer_info_of db p")
    case None
    show ?thesis
      by (rule inv_replace [OF assms(2), of _ p "trusted_peer_info now" now])
        (use trust None entry_unknown [OF None, of now] in \<open>simp_all add: set_trusted_peer_def weights
          trusted_peer_info_def peer_info_default_def\<close>)
  next
    case (Some i)
    then show ?thesis using trust inv_put_like [OF assms(2) Some] by (simp add: set_trusted_peer_def like_def)
  qed
next
  case (untrust now p)
  then show ?thesis using assms(2) inv_put_like [OF assms(2)]
    by (auto simp: unset_trusted_peer_def like_def split: option.splits)
next
  case (min_ttl now p t)
  show ?thesis
  proof (cases "peer_info_of db p")
    case None
    show ?thesis
      by (rule inv_replace [OF assms(2), of _ p "longer_ttl (peer_info_default now) t" now])
        (use min_ttl None entry_unknown [OF None, of now] in \<open>simp_all add: update_min_ttl_def weights
          longer_ttl_def peer_info_default_def\<close>)
  next
    case (Some i)
    then show ?thesis using min_ttl inv_put_like [OF assms(2) Some]
      by (simp add: update_min_ttl_def longer_ttl_def like_def split: option.splits)
  qed
next
  case (extend sn t)
  have "db_inv exact (db\<lparr>peers := map (\<lambda>x. (fst x, if is_connected (snd x) \<and> on_subnet_metadata (snd x) sn
      \<and> on_subnet_gossipsub (snd x) sn then longer_ttl (snd x) t else snd x)) (peers db)\<rparr>)"
    by (rule inv_map_like [OF assms(2)]) (simp add: longer_ttl_def like_def split: option.splits)
  then show ?thesis using extend by (simp add: extend_peers_on_subnet_def split_beta')
qed (auto simp: db_connect_ingoing_def db_connect_outgoing_def dialing_peer_def notify_disconnecting_def
    db_update_sync_status_def update_sync_status_def add_subscription_def remove_subscription_def like_def Let_def
    intro!: inv_update_connection_state inv_inject_disconnect inv_report inv_update_scores
      inv_update_gossipsub_scores inv_cleanup inv_put_like
    split: option.splits prod.splits)

end
