(* ===== verification/PeerDBProperties.thy ===== *)
theory PeerDBProperties
  imports PeerDBInvariant
begin

text \<open>
  What the peer database promises its users: what its counters say in every reachable state, bounds on
  the number of peers it remembers, bans and their end, trusted peers, and the queries used to
  choose peers.
\<close>

section \<open>Reachable databases\<close>

text \<open>
  \<open>reachable_db\<close>: what any sequence of operations makes of a new database. \<open>orderly_db\<close>: what a sequence
  of orderly operations makes of it, that is, no banned peer was told to disconnect and at most
  \<open>MAX_DC_PEERS\<close> peers were trusted whenever a peer disconnected.
\<close>

definition reached :: "bool \<Rightarrow> 'p peer_db \<Rightarrow> bool" where
  "reached orderly db \<longleftrightarrow> (\<exists>now trusted disable. rtranclp (db_call orderly) (db_new now trusted disable) db)"

abbreviation reachable_db :: "'p peer_db \<Rightarrow> bool" where
  "reachable_db \<equiv> reached False"

abbreviation orderly_db :: "'p peer_db \<Rightarrow> bool" where
  "orderly_db \<equiv> reached True"

lemma reached_reachable: "reached orderly db \<Longrightarrow> reachable_db db"
  unfolding reached_def using mono_rtranclp [of "db_call orderly" db_step] orderly_step by blast

lemma inv_db_new: "db_inv exact (db_new now trusted disable)"
proof -
  have "let ys = fold (\<lambda>p xs. AList.update p (trusted_peer_info now) xs) ps xs in
      distinct (map fst ys) \<and> (\<forall>x \<in> set ys. snd x = trusted_peer_info now)"
    if "distinct (map fst xs)" "\<forall>x \<in> set xs. snd x = trusted_peer_info now"
    for ps and xs :: "('a \<times> peer_info) list"
    using that
  proof (induction ps arbitrary: xs)
    case (Cons p ps)
    have "set (AList.update p i xs) \<subseteq> insert (p, i) (set xs)" for i by (induction xs) auto
    then have "\<forall>x \<in> set (AList.update p (trusted_peer_info now) xs). snd x = trusted_peer_info now"
      using Cons.prems(2) by fastforce
    from Cons.IH [OF AList.distinct_update [OF Cons.prems(1)] this] show ?case by simp
  qed simp
  from this [of "[]" trusted]
  have d: "distinct (map fst (peers (db_new now trusted disable)))"
    and t: "\<And>x. x \<in> set (peers (db_new now trusted disable)) \<Longrightarrow> snd x = trusted_peer_info now"
    by (auto simp: db_new_def Let_def)
  have z: "total_of f (peers (db_new now trusted disable)) = 0" if "f (trusted_peer_info now) = 0" for f
    using t that by (auto simp: total_eq_0)
  have "dc_weight (trusted_peer_info now) = 0" "ban_weight (trusted_peer_info now) = 0"
    "ip_weight ip (trusted_peer_info now) = 0" for ip
    by (simp_all add: weights trusted_peer_info_def peer_info_default_def)
  then show ?thesis using d
    by (simp add: db_inv_def z) (simp add: db_new_def banned_peers_count_default_def ip_count_def count_at_def)
qed

lemma reached_inv: "reached exact db \<Longrightarrow> db_inv exact db"
proof -
  have "rtranclp (db_call exact) db0 db \<Longrightarrow> db_inv exact db0 \<Longrightarrow> db_inv exact db" for db0
    by (induction rule: rtranclp_induct) (auto intro: inv_step)
  then show "reached exact db \<Longrightarrow> db_inv exact db" using inv_db_new unfolding reached_def by blast
qed

lemma total_ids:
  "total_of dc_weight (peers db) = length (disconnected_peer_ids db)"
  "total_of ban_weight (peers db) = length (banned_peer_ids db)"
proof -
  have "total_of (\<lambda>i. of_bool (P i)) xs = length (filter (\<lambda>x. P (snd x)) xs)" for P :: "peer_info \<Rightarrow> bool"
    and xs :: "('a \<times> peer_info) list"
    by (induction xs) auto
  then show "total_of dc_weight (peers db) = length (disconnected_peer_ids db)"
    "total_of ban_weight (peers db) = length (banned_peer_ids db)"
    unfolding disconnected_peer_ids_def banned_peer_ids_def ids_where_def dc_weight_def [abs_def]
      ban_weight_def [abs_def] by simp_all
qed

text \<open>All addresses a banned peer was seen with, over all banned peers.\<close>

definition banned_addresses :: "'p peer_db \<Rightarrow> ip_addr list" where
  "banned_addresses db = concat (map (\<lambda>x. seen_ip_addresses (snd x)) (filter (\<lambda>x. is_banned (snd x)) (peers db)))"

lemma total_ip: "total_of (ip_weight ip) (peers db) = count_list (banned_addresses db) ip"
proof -
  have "total_of (ip_weight ip) xs
      = count_list (concat (map (\<lambda>x. seen_ip_addresses (snd x)) (filter (\<lambda>x. is_banned (snd x)) xs))) ip"
    for xs :: "('a \<times> peer_info) list"
    by (induction xs) (auto simp: ip_weight_def)
  then show ?thesis by (simp add: banned_addresses_def)
qed

lemma ip_banned_count: "is_ip_banned db ip \<longleftrightarrow> BANNED_PEERS_PER_IP_THRESHOLD < ip_count (db_banned db) ip"
  by (auto simp: is_ip_banned_def count_ip_is_banned_def ip_count_def count_at_def split: option.splits)

text \<open>
  C1. whatever operations are applied to a new database, in any order, its counters err on one side
  only: the counter of disconnected peers is at most the number of disconnected peers in the table,
  the counter of banned peers is at least the number of banned peers, and an address that occurs
  more than \<open>BANNED_PEERS_PER_IP_THRESHOLD\<close> times among the addresses the banned peers were seen with
  (one per multiaddress, not one per peer) is refused. If no banned peer was told to disconnect and
  never more than \<open>MAX_DC_PEERS\<close> peers were trusted when a peer disconnected, both counters are exact
  and these addresses are the only ones refused.
\<close>

theorem counters_exact:
  assumes "reached orderly db"
  shows "disconnected_peers db \<le> length (disconnected_peer_ids db)
    \<and> length (banned_peer_ids db) \<le> banned_peers (db_banned db)
    \<and> (\<forall>ip. BANNED_PEERS_PER_IP_THRESHOLD < count_list (banned_addresses db) ip \<longrightarrow> is_ip_banned db ip)
    \<and> (orderly \<longrightarrow> disconnected_peers db = length (disconnected_peer_ids db)
         \<and> banned_peers (db_banned db) = length (banned_peer_ids db)
         \<and> (\<forall>ip. is_ip_banned db ip \<longleftrightarrow> BANNED_PEERS_PER_IP_THRESHOLD < count_list (banned_addresses db) ip))"
proof -
  have "orderly \<Longrightarrow> db_inv True db" using reached_inv [OF assms] by (cases orderly) simp_all
  moreover have "db_inv False db" by (rule reached_inv [OF reached_reachable [OF assms]])
  ultimately show ?thesis
    by (auto simp: db_inv_def agree_def total_ids total_ip ip_banned_count intro: less_le_trans)
qed

text \<open>A peer that connects from several ports of one address, is reported and disconnects.\<close>

definition demo_addr :: "nat \<Rightarrow> multiaddr" where
  "demo_addr port = [Ip4 1, OtherAddr port]"

definition demo_info :: "nat list \<Rightarrow> peer_info" where
  "demo_info ports = (peer_info_default 0)\<lparr>
     connection_status := Connected (demo_addr (last ports)) (of_nat (length ports)) 0,
     seen_multiaddrs := map demo_addr ports, pi_connection_direction := Some Incoming\<rparr>"

definition demo_db :: "nat list \<Rightarrow> nat peer_db" where
  "demo_db ports = (db_new 0 [] False)\<lparr>peers := [(7, demo_info ports)]\<rparr>"

definition demo_banned_info :: "nat list \<Rightarrow> peer_info" where
  "demo_banned_info ports = (apply_peer_action_to_score (demo_info ports) Fatal)\<lparr>connection_status := Banned 2\<rparr>"

definition demo_banned :: "nat list \<Rightarrow> nat peer_db" where
  "demo_banned ports =
     \<lparr>peers = [(7, demo_banned_info ports)], disconnected_peers = 0,
      db_banned = add_banned_peer banned_peers_count_default (replicate (length ports) (IpV4 1)),
      disable_peer_scoring = False\<rparr>"

lemma demo_connect:
  "db_connect_ingoing (db_new 0 [] False) 0 7 (demo_addr p) None = demo_db [p]"
  "ports \<noteq> [] \<Longrightarrow> p \<notin> set ports \<Longrightarrow>
   db_connect_ingoing (demo_db ports) 0 7 (demo_addr p) None = demo_db (p # ports)"
  by (auto simp: db_connect_ingoing_def update_connection_state_def to_connected_def entry_info_def
      peer_info_of_def set_enr_def put_info_def db_new_def Let_def connect_ingoing_def demo_db_def demo_info_def
      peer_info_default_def List.insert_def demo_addr_def)

lemma fatal_banned:
  "pi_score i = Real s \<Longrightarrow> \<not> is_trusted i \<Longrightarrow> pi_score_state (apply_peer_action_to_score i Fatal) = BannedState"
  by (simp add: pi_score_state_def score_state_def state_of_value_def apply_peer_action_to_score_def
      set_peer_score_def combined_low score_constants)

lemma fatal_report:
  assumes "peer_info_of db p = Some i" "is_connected i" "pi_score i = Real s" "\<not> is_trusted i"
    "pi_score_state i \<noteq> BannedState"
  shows "db_report_peer db now p Fatal =
    (BanUpdate DisconnectThePeer,
     put_info (put_info db p (apply_peer_action_to_score i Fatal)) p
       ((apply_peer_action_to_score i Fatal)\<lparr>connection_status := Disconnecting True\<rparr>))"
proof -
  note f = fatal_banned [OF assms(3,4)]
  have "handle_score_transition (pi_score_state i) (apply_peer_action_to_score i Fatal) = TrBanned"
    using assms(5) f by (cases "pi_score_state i") (simp_all add: handle_score_transition_def)
  moreover have "connection_status (apply_peer_action_to_score i Fatal) = connection_status i"
    by (simp add: apply_peer_action_to_score_def)
  ultimately show ?thesis
    using assms(1,2) f
    by (auto simp: db_report_peer_def Let_def update_connection_state_def to_banned_def of_ban_operation_def
        is_connected_def split: peer_connection_status.splits)
qed

lemma disconnect_to_ban:
  assumes "peer_info_of db p = Some i" "connection_status i = Disconnecting True"
  shows "update_connection_state db now p NewDisconnected =
    (let i' = i\<lparr>subnets := {}, connection_status := Banned now\<rparr>; db' = count_ban (put_info db p i') i'
     in (Some (ReadyToBan (known_banned_ips db' i')), db'))"
  using assms by (simp add: update_connection_state_def to_disconnected_def Let_def)

lemma shrink_to_fit_small:
  "banned_peers (db_banned db) \<le> MAX_BANNED_PEERS \<Longrightarrow> shrink_to_fit db = ([], shrink_disconnected db)"
  "disconnected_peers db \<le> MAX_DC_PEERS \<Longrightarrow> shrink_disconnected db = db"
  by (simp_all add: shrink_to_fit_def shrink_banned.simps [of db] shrink_disconnected.simps [of db])

lemma seen_ip_action [simp]: "seen_ip_addresses (apply_peer_action_to_score i act) = seen_ip_addresses i"
  by (simp add: apply_peer_action_to_score_def)

lemma demo_info_facts [simp]:
  "is_connected (demo_info ports)" "\<not> is_trusted (demo_info ports)" "subnets (demo_info ports) = {}"
  "pi_score (demo_info ports) = Real (real_score_default 0)" "pi_score_state (demo_info ports) = Healthy"
  "seen_ip_addresses (demo_info ports) = replicate (length ports) (IpV4 1)"
proof -
  have "List.map_filter (\<lambda>a. find_map ip_of_protocol a) (map demo_addr ports) = replicate (length ports) (IpV4 1)"
    by (induction ports) (simp_all add: List.map_filter_simps demo_addr_def)
  then show "is_connected (demo_info ports)" "\<not> is_trusted (demo_info ports)" "subnets (demo_info ports) = {}"
    "pi_score (demo_info ports) = Real (real_score_default 0)" "pi_score_state (demo_info ports) = Healthy"
    "seen_ip_addresses (demo_info ports) = replicate (length ports) (IpV4 1)"
    by (simp_all add: demo_info_def peer_info_default_def is_connected_def pi_score_state_def score_state_def
        state_of_value_def score_default_def real_score_default_def score_constants seen_ip_addresses_def)
qed

lemma demo_lookup [simp]: "peer_info_of (demo_db ports) 7 = Some (demo_info ports)"
  by (simp add: demo_db_def peer_info_of_def)

lemma demo_disconnect:
  "inject_disconnect (snd (db_report_peer (demo_db ports) 2 7 Fatal)) 2 7 =
     ((Some (ReadyToBan (known_banned_ips (demo_banned ports) (demo_banned_info ports))), []), demo_banned ports)"
proof -
  let ?i = "(apply_peer_action_to_score (demo_info ports) Fatal)\<lparr>connection_status := Disconnecting True\<rparr>"
  let ?db = "snd (db_report_peer (demo_db ports) 2 7 Fatal)"
  have r: "?db = (demo_db ports)\<lparr>peers := [(7, ?i)]\<rparr>"
    by (subst fatal_report [OF demo_lookup]) (simp_all add: demo_db_def put_info_def)
  have l: "peer_info_of ?db 7 = Some ?i" by (simp add: r peer_info_of_def)
  have e: "?i\<lparr>subnets := {}, connection_status := Banned 2\<rparr> = demo_banned_info ports"
    by (simp add: demo_banned_info_def apply_peer_action_to_score_def demo_info_def peer_info_default_def)
  have b: "count_ban (put_info ?db 7 (demo_banned_info ports)) (demo_banned_info ports) = demo_banned ports"
    unfolding r by (simp add: count_ban_def put_info_def demo_banned_def demo_db_def db_new_def demo_banned_info_def)
  have "update_connection_state ?db 2 7 NewDisconnected =
      (Some (ReadyToBan (known_banned_ips (demo_banned ports) (demo_banned_info ports))), demo_banned ports)"
    by (subst disconnect_to_ban [OF l]) (simp_all only: Let_def e b, simp)
  moreover have "shrink_to_fit (demo_banned ports) = ([], demo_banned ports)"
    by (simp add: shrink_to_fit_small demo_banned_def MAX_BANNED_PEERS_def MAX_DC_PEERS_def
        add_banned_peer_def banned_peers_count_default_def sat_add_def)
  ultimately show ?thesis by (simp add: inject_disconnect_def)
qed

lemma small_demo: "length (peers db) \<le> 1 \<Longrightarrow> small db"
  by (simp add: small_def u64_max_def)

lemma demo_db_reachable:
  assumes "distinct ports" "ports \<noteq> []"
  shows "rtranclp (db_call orderly) (db_new 0 [] False) (demo_db ports)"
  using assms
proof (induction ports)
  case (Cons p ports)
  show ?case
  proof (cases "ports = []")
    case True
    have "db_call orderly (db_new 0 [] False) (demo_db [p])"
      unfolding demo_connect(1) [symmetric] by (rule db_call.connect_in) (simp add: small_demo db_new_def)
    then show ?thesis by (simp add: True r_into_rtranclp)
  next
    case False
    have "db_call orderly (demo_db ports) (db_connect_ingoing (demo_db ports) 0 7 (demo_addr p) None)"
      by (rule db_call.connect_in) (simp add: small_demo demo_db_def)
    then have "db_call orderly (demo_db ports) (demo_db (p # ports))" using Cons.prems False by (simp add: demo_connect(2))
    then show ?thesis using Cons False by (auto intro: rtranclp.rtrancl_into_rtrancl)
  qed
qed simp

lemma demo_banned_reachable:
  assumes "distinct ports" "ports \<noteq> []"
  shows "reached orderly (demo_banned ports)"
proof -
  let ?db = "snd (db_report_peer (demo_db ports) 2 7 Fatal)"
  have p: "peers ?db = [(7, (apply_peer_action_to_score (demo_info ports) Fatal)\<lparr>connection_status := Disconnecting True\<rparr>)]"
    by (subst fatal_report [OF demo_lookup]) (simp_all add: demo_db_def put_info_def)
  have "db_call orderly (demo_db ports) ?db" by (rule db_call.report) (simp add: small_demo demo_db_def)
  moreover have "db_call orderly ?db (snd (inject_disconnect ?db 2 7))"
  proof (rule db_call.disconnect)
    show "small ?db" by (simp add: small_demo p)
    have "length (keys_of (snd (update_connection_state ?db 2 7 NewDisconnected))) = 1"
      using touches_keys [OF touches_update, of 7 ?db 2 NewDisconnected] by (simp add: keys_of_def p)
    then have "length (trusted_peers (snd (update_connection_state ?db 2 7 NewDisconnected))) \<le> 1"
      unfolding trusted_peers_def ids_where_def keys_of_def using length_filter_le by (metis length_map)
    then show "length (trusted_peers (snd (update_connection_state ?db 2 7 NewDisconnected))) \<le> MAX_DC_PEERS"
      by (simp add: MAX_DC_PEERS_def)
  qed
  ultimately show ?thesis
    unfolding reached_def using demo_db_reachable [OF assms, of orderly] demo_disconnect [of ports]
    by (metis rtranclp.rtrancl_into_rtrancl snd_conv)
qed

theorem counters_exact_witness:
  "orderly_db (demo_banned [5, 4, 3, 2, 1, 0])
   \<and> length (banned_peer_ids (demo_banned [5, 4, 3, 2, 1, 0])) = 1
   \<and> is_ip_banned (demo_banned [5, 4, 3, 2, 1, 0]) (IpV4 1)"
proof -
  have r: "orderly_db (demo_banned [5, 4, 3, 2, 1, 0])" by (rule demo_banned_reachable) simp_all
  have "banned_addresses (demo_banned [5, 4, 3, 2, 1, 0]) = replicate 6 (IpV4 1)"
    by (simp add: banned_addresses_def demo_banned_def demo_banned_info_def is_banned_def eval_nat_numeral)
  moreover have "banned_peers (db_banned (demo_banned [5, 4, 3, 2, 1, 0])) = 1"
    by (simp add: demo_banned_def add_banned_peer_def banned_peers_count_default_def sat_add_def u64_max_def)
  ultimately show ?thesis
    using r counters_exact [OF r] by (simp add: eval_nat_numeral)
qed

section \<open>Bounds on the number of peers kept\<close>

text \<open>
  C21. after a disconnection at most \<open>MAX_BANNED_PEERS\<close> banned peers remain in the table, and at most
  \<open>MAX_DC_PEERS\<close> disconnected ones, the latter provided that the database was only used in an orderly
  way and that no more than \<open>MAX_DC_PEERS\<close> peers are trusted. Peers other than the one that
  disconnected are kept as they were or dropped; only banned peers and disconnected peers that are
  not trusted are dropped, of either kind the ones that have been so for longest first, whatever
  their scores.
\<close>

theorem disconnect_bounds_table:
  fixes db :: "'p peer_db" and now :: nanos and p :: 'p
  assumes "reached orderly db" "small db"
  defines "db' \<equiv> snd (inject_disconnect db now p)"
  shows "length (banned_peer_ids db') \<le> MAX_BANNED_PEERS
    \<and> (orderly \<and> length (trusted_peers (snd (update_connection_state db now p NewDisconnected))) \<le> MAX_DC_PEERS \<longrightarrow>
         length (disconnected_peer_ids db') \<le> MAX_DC_PEERS)
    \<and> (\<forall>q i. q \<noteq> p \<and> peer_info_of db q = Some i \<longrightarrow>
         (case peer_info_of db' q of
            Some j \<Rightarrow> j = i
          | None \<Rightarrow> is_banned i \<and> (\<forall>r j. peer_info_of db' r = Some j \<and> is_banned j \<longrightarrow> since_of i \<le> since_of j)
                   \<or> droppable i \<and> (\<forall>r j. peer_info_of db' r = Some j \<and> droppable j \<longrightarrow> since_of i \<le> since_of j)))"
proof -
  let ?u = "snd (update_connection_state db now p NewDisconnected)"
  note inv = inv_inject_disconnect [of False, OF reached_inv [OF reached_reachable [OF assms(1)]] assms(2),
      where now = now and p = p, simplified, folded db'_def]
  obtain db1 where d1: "drops is_banned since_of ?u db1" and d2: "drops droppable since_of db1 db'"
    using inv(4) by blast
  have "length (banned_peer_ids db') \<le> MAX_BANNED_PEERS"
    using inv(1,3) by (simp add: db_inv_def agree_def total_ids)
  moreover have "length (disconnected_peer_ids db') \<le> MAX_DC_PEERS" if o: orderly "length (trusted_peers ?u) \<le> MAX_DC_PEERS"
  proof -
    have "db_inv True db" using reached_inv [OF assms(1)] o(1) by simp
    from inv_inject_disconnect(1,2) [OF this assms(2), of now p] o(2) show ?thesis
      by (simp add: db'_def db_inv_def agree_def total_ids)
  qed
  moreover have "case peer_info_of db' q of
            Some j \<Rightarrow> j = i
          | None \<Rightarrow> is_banned i \<and> (\<forall>r j. peer_info_of db' r = Some j \<and> is_banned j \<longrightarrow> since_of i \<le> since_of j)
                   \<or> droppable i \<and> (\<forall>r j. peer_info_of db' r = Some j \<and> droppable j \<longrightarrow> since_of i \<le> since_of j)"
    if q: "q \<noteq> p" "peer_info_of db q = Some i" for q i
  proof -
    have u: "peer_info_of ?u q = Some i" using touches_other [OF touches_update q(1)] q(2) by simp
    show ?thesis
    proof (cases "peer_info_of db' q")
      case None
      show ?thesis
      proof (cases "peer_info_of db1 q")
        case n: None
        then show ?thesis using u d1 d2 None unfolding drops_def by (simp, metis)
      next
        case (Some j)
        then have "j = i" using u d1 unfolding drops_def by (metis option.inject)
        then show ?thesis using Some d2 None unfolding drops_def by (simp, metis)
      qed
    next
      case (Some j)
      then have "peer_info_of ?u q = Some j" using d1 d2 unfolding drops_def by metis
      then show ?thesis using u Some by simp
    qed
  qed
  ultimately show ?thesis by blast
qed

theorem disconnect_bounds_table_witness:
  "length (banned_peer_ids (snd (inject_disconnect (demo_banned [0]) 3 8))) \<le> MAX_BANNED_PEERS \<and>
   length (disconnected_peer_ids (snd (inject_disconnect (demo_banned [0]) 3 8))) \<le> MAX_DC_PEERS"
proof -
  have "length (keys_of (snd (update_connection_state (demo_banned [0]) 3 8 NewDisconnected))) \<le> 2"
    using touches_update [of 8 "demo_banned [0]" 3 NewDisconnected]
    by (auto simp: touches_def keys_of_def demo_banned_def)
  then have "length (trusted_peers (snd (update_connection_state (demo_banned [0]) 3 8 NewDisconnected))) \<le> MAX_DC_PEERS"
    unfolding trusted_peers_def ids_where_def keys_of_def length_map
    by (rule order_trans [OF length_filter_le order_trans]) (simp add: MAX_DC_PEERS_def)
  moreover have "orderly_db (demo_banned [0])" by (rule demo_banned_reachable) simp_all
  ultimately show ?thesis
    using disconnect_bounds_table [of True "demo_banned [0]" 3 8] by (simp add: small_demo demo_banned_def)
qed

section \<open>Bans\<close>

text \<open>
  C37. \<open>notify_disconnecting\<close> on a banned peer takes it out of the banned peers and does not take it
  out of their count, which was exact and is now one too high: a database used in this way is reachable
  and no longer orderly (the guard of the orderly step relation is needed).
\<close>

theorem disconnecting_banned_drifts:
  fixes now :: nanos and ban :: bool
  assumes "orderly_db db" "peer_info_of db p = Some i" "is_banned i"
  defines "db' \<equiv> notify_disconnecting db now p ban"
  shows "banned_peers (db_banned db') = length (banned_peer_ids db') + 1"
proof -
  have inv: "db_inv True db" by (rule reached_inv [OF assms(1)])
  have p: "peers db' = AList.update p (i\<lparr>connection_status := Disconnecting ban\<rparr>) (peers db)"
    and b: "db_banned db' = db_banned db"
    using assms(2,3)
    by (auto simp: db'_def notify_disconnecting_def update_connection_state_def to_disconnecting_def Let_def is_banned_def
        split: peer_connection_status.splits)
  have "total_of ban_weight (peers db') + 1 = total_of ban_weight (peers db)"
    using total_update [of "peers db" ban_weight p "i\<lparr>connection_status := Disconnecting ban\<rparr>"] inv assms(2,3)
    by (simp add: p db_inv_def weight_at_def peer_info_of_def ban_weight_def is_banned_def)
  then show ?thesis using inv by (simp add: b db_inv_def agree_def total_ids)
qed

theorem disconnecting_banned_drifts_witness:
  "banned_peers (db_banned (notify_disconnecting (demo_banned [0]) 3 7 True))
     = length (banned_peer_ids (notify_disconnecting (demo_banned [0]) 3 7 True)) + 1"
  by (rule disconnecting_banned_drifts [OF demo_banned_reachable, of _ _ "demo_banned_info [0]"])
    (simp_all add: demo_banned_def peer_info_of_def demo_banned_info_def is_banned_def)

section \<open>Score updates\<close>

definition unbanned :: "peer_info \<Rightarrow> peer_info" where
  "unbanned i = (case connection_status i of Banned t \<Rightarrow> i\<lparr>connection_status := Disconnected t\<rparr> | _ \<Rightarrow> i)"

lemma unban_lookup:
  "peer_info_of (snd (unban_peer db now p)) q = (if q = p then Some (unbanned (entry_info db now p)) else peer_info_of db q)"
  by (auto simp: unban_peer_def Let_def update_connection_state_def to_unbanned_def unbanned_def peer_info_of_def
      AList.update_conv' split: peer_connection_status.splits)

lemma unban_peers_lookup:
  assumes "distinct ps" "set ps \<subseteq> set (keys_of db)"
  shows "peer_info_of (snd (unban_peers db now ps)) q =
    (if q \<in> set ps then map_option unbanned (peer_info_of db q) else peer_info_of db q)"
  using assms
proof (induction ps arbitrary: db)
  case (Cons p ps)
  let ?db = "snd (unban_peer db now p)"
  have k: "keys_of ?db = keys_of db" using touches_keys [OF touches_unban, of p db now] Cons.prems(2) by simp
  have pk: "peer_info_of db p \<noteq> None"
    using Cons.prems(2) by (auto simp: keys_of_def peer_info_of_def map_of_eq_None_iff)
  have "snd (unban_peers db now (p # ps)) = snd (unban_peers ?db now ps)" by (simp add: split_beta Let_def)
  then show ?case
    using Cons.IH [of ?db] Cons.prems k pk by (auto simp: unban_lookup entry_info_def split: option.splits)
qed simp

lemma unban_peers_keys: "set ps \<subseteq> set (keys_of db) \<Longrightarrow> keys_of (snd (unban_peers db now ps)) = keys_of db"
proof (induction ps arbitrary: db)
  case (Cons p ps)
  then have "keys_of (snd (unban_peer db now p)) = keys_of db" using touches_keys [OF touches_unban, of p db now] by simp
  then show ?case using Cons by (simp add: split_beta Let_def)
qed simp

lemma update_scores_keys: "keys_of (snd (update_scores db now)) = keys_of db"
proof -
  let ?db = "db\<lparr>peers := map (\<lambda>x. (fst x, decay_peer_score (snd x) now)) (peers db)\<rparr>"
  have k: "keys_of ?db = keys_of db" by (simp add: keys_of_def comp_def)
  have "keys_of (snd (unban_peers ?db now (map fst (filter P (peers db))))) = keys_of ?db" for P
    by (rule unban_peers_keys) (auto simp: k keys_of_def)
  then show ?thesis unfolding update_scores_def Let_def k by simp
qed

lemma map_of_map_snd: "map_of (map (\<lambda>x. (fst x, f (snd x))) xs) k = map_option f (map_of xs k)"
  by (induction xs) auto

definition unban_due :: "peer_info \<Rightarrow> nanos \<Rightarrow> bool" where
  "unban_due i now \<longleftrightarrow> pi_score_state i = BannedState \<and>
     (case pi_score_state (decay_peer_score i now) of
        Healthy \<Rightarrow> True | ForcedDisconnect \<Rightarrow> \<not> is_connected_or_dialing i | BannedState \<Rightarrow> False)"

lemma unban_due_handle:
  "handle_score_transition (pi_score_state i) (decay_peer_score i now) = TrUnbanned \<longleftrightarrow> unban_due i now"
proof -
  have "is_connected_or_dialing (decay_peer_score i now) \<longleftrightarrow> is_connected_or_dialing i"
    by (rule like_queries(1)) (simp add: like_def decay_peer_score_def)
  then show ?thesis by (simp add: handle_score_transition_def unban_due_def split: score_state.splits)
qed

lemma update_scores_lookup:
  assumes "db_inv exact db"
  shows "peer_info_of (snd (update_scores db now)) p =
    map_option (\<lambda>i. if unban_due i now then unbanned (decay_peer_score i now) else decay_peer_score i now)
      (peer_info_of db p)"
proof -
  let ?db = "db\<lparr>peers := map (\<lambda>x. (fst x, decay_peer_score (snd x) now)) (peers db)\<rparr>"
  let ?ps = "map fst (filter (\<lambda>x. unban_due (snd x) now) (peers db))"
  have d: "distinct (map fst (peers db))" using assms by (simp add: db_inv_def)
  have k: "keys_of ?db = keys_of db" by (simp add: keys_of_def comp_def)
  have ps: "distinct ?ps" "set ?ps \<subseteq> set (keys_of ?db)"
    unfolding k using d by (auto simp: keys_of_def distinct_map_filter)
  have l: "peer_info_of ?db p = map_option (\<lambda>i. decay_peer_score i now) (peer_info_of db p)"
    by (simp add: peer_info_of_def map_of_map_snd [where f = "\<lambda>i. decay_peer_score i now"])
  have m: "p \<in> set ?ps \<longleftrightarrow> (\<exists>i. peer_info_of db p = Some i \<and> unban_due i now)"
    using d by (force simp: peer_info_of_def dest: map_of_SomeD)
  have "update_scores db now = unban_peers ?db now ?ps"
    by (simp add: update_scores_def unban_due_handle)
  then show ?thesis
    using unban_peers_lookup [OF ps, of now p] l m by (cases "peer_info_of db p") (auto simp: l)
qed

text \<open>
  C22. a score update keeps every peer and adds none. Each peer has its score decayed and is otherwise
  as before, except that a peer whose score was in the banned range and has left it becomes a
  disconnected peer if it was banned (when its score still asks to disconnect, only if it is not
  connected or being dialed).
\<close>

theorem update_scores_effect:
  assumes "reachable_db db"
  shows "keys_of (snd (update_scores db now)) = keys_of db
    \<and> peer_info_of (snd (update_scores db now)) p =
        map_option (\<lambda>i. if unban_due i now then unbanned (decay_peer_score i now) else decay_peer_score i now)
          (peer_info_of db p)"
  by (simp add: update_scores_lookup [OF reached_inv [OF assms]] update_scores_keys)

text \<open>The banned peer of the example is unbanned 601 seconds after its score starts to decay.\<close>

theorem update_scores_effect_witness:
  "peer_info_of (snd (update_scores (demo_banned [0]) (secs (12 * 3600 + 601)))) 7
     = Some (unbanned (decay_peer_score (demo_banned_info [0]) (secs (12 * 3600 + 601))))
   \<and> connection_status (unbanned (decay_peer_score (demo_banned_info [0]) (secs (12 * 3600 + 601)))) = Disconnected 2"
proof -
  let ?s = "real_apply_peer_action (real_score_default 0) Fatal"
  let ?t = "secs (12 * 3600 + 601)"
  have sc: "pi_score (demo_banned_info [0]) = Real ?s" "\<not> is_trusted (demo_banned_info [0])"
    "connection_status (demo_banned_info [0]) = Banned 2"
    by (simp_all add: demo_banned_info_def apply_peer_action_to_score_def)
  have "pi_score_state (demo_banned_info [0]) = BannedState"
    using fatal_banned [of "demo_info [0]"] by (simp add: demo_banned_info_def pi_score_state_def)
  moreover have "score_state (Real (update_at ?s ?t)) \<noteq> BannedState"
    by (rule decay_ends_ban) (simp_all add: inv_default inv_apply_action real_score_default_def score_constants
      set_peer_score_def last_updated_update_state combined_low BANNED_BEFORE_DECAY_def secs_def real_score_inv_def)
  moreover have "\<not> is_connected_or_dialing (demo_banned_info [0])"
    by (simp add: is_connected_or_dialing_def is_connected_def is_dialing_def sc(3))
  ultimately have u: "unban_due (demo_banned_info [0]) ?t"
    using sc(1,2) by (simp add: unban_due_def pi_score_state_def decay_peer_score_def split: score_state.split)
  have "reachable_db (demo_banned [0])" by (rule demo_banned_reachable) simp_all
  from update_scores_effect [OF this, of ?t 7] show ?thesis
    using u sc by (simp add: demo_banned_def peer_info_of_def unbanned_def decay_peer_score_def)
qed

section \<open>Trusted peers and scores\<close>

text \<open>
  In every reachable database the trusted peers are those with the maximal score, and every other
  score has its peer part in \<open>[-100, 0]\<close> and agrees with its parts.
\<close>

definition info_ok :: "peer_info \<Rightarrow> bool" where
  "info_ok i \<longleftrightarrow> (case pi_score i of MaxScore \<Rightarrow> is_trusted i | Real s \<Rightarrow> \<not> is_trusted i \<and> real_score_inv s)"

definition infos_ok :: "'p peer_db \<Rightarrow> bool" where
  "infos_ok db \<longleftrightarrow> (\<forall>x \<in> set (peers db). info_ok (snd x))"

lemma info_ok_new [simp]: "info_ok (trusted_peer_info now)" "info_ok (peer_info_default now)"
  by (simp_all add: info_ok_def trusted_peer_info_def peer_info_default_def max_score_def score_default_def inv_default)

lemma info_ok_ops:
  "info_ok i \<Longrightarrow> info_ok (decay_peer_score i now)"
  "info_ok i \<Longrightarrow> info_ok (apply_peer_action_to_score i act)"
  "info_ok i \<Longrightarrow> info_ok (pi_update_gossipsub_score i now x ignore)"
  by (auto simp: info_ok_def decay_peer_score_def apply_peer_action_to_score_def pi_update_gossipsub_score_def
      real_score_inv_intros split: score.splits)

lemma info_ok_cong: "pi_score i = pi_score j \<Longrightarrow> is_trusted i = is_trusted j \<Longrightarrow> info_ok i \<longleftrightarrow> info_ok j"
  by (simp add: info_ok_def split: score.splits)

lemma infos_ok_lookup: "infos_ok db \<Longrightarrow> peer_info_of db p = Some i \<Longrightarrow> info_ok i"
  by (force simp: infos_ok_def peer_info_of_def dest: map_of_SomeD)

lemma infos_ok_entry: "infos_ok db \<Longrightarrow> info_ok (entry_info db now p)"
  by (auto simp: entry_info_def infos_ok_lookup split: option.splits)

lemma infos_ok_put: "infos_ok db \<Longrightarrow> info_ok i \<Longrightarrow> infos_ok (put_info db p i)"
  using set_alist_update [of p i "peers db"] by (fastforce simp: infos_ok_def)

lemma infos_ok_counters [simp]:
  "infos_ok (dec_disconnected db) = infos_ok db" "infos_ok (inc_disconnected db) = infos_ok db"
  "infos_ok (sat_inc_disconnected db) = infos_ok db"
  "infos_ok (count_ban db i) = infos_ok db" "infos_ok (uncount_ban db i) = infos_ok db"
  by (simp_all add: infos_ok_def)

lemma info_ok_fields [simp]:
  "info_ok (i\<lparr>connection_status := st\<rparr>) = info_ok i" "info_ok (i\<lparr>subnets := sn\<rparr>) = info_ok i"
  "info_ok (i\<lparr>pi_sync_status := ss\<rparr>) = info_ok i"
  "info_ok (set_enr i e) = info_ok i" "info_ok (connect_ingoing i a) = info_ok i"
  "info_ok (connect_outgoing i a) = info_ok i"
  by (intro info_ok_cong; simp)+

lemma info_ok_ttl [simp]: "info_ok (longer_ttl i t) = info_ok i"
  by (rule info_ok_cong) (simp_all add: longer_ttl_def split: option.split)

lemma infos_ok_connection:
  assumes "infos_ok db"
  shows "infos_ok (snd (update_connection_state db now p st))"
proof -
  have e: "info_ok (entry_info db now p)" by (rule infos_ok_entry [OF assms])
  show ?thesis
    using assms e info_ok_ops(2) [OF e]
    by (cases st)
      (auto simp: update_connection_state_def to_connected_def to_dialing_def to_disconnected_def
        set_dialing_peer_def to_disconnecting_def to_banned_def to_unbanned_def Let_def infos_ok_put
        split: peer_connection_status.splits connection_direction.splits)
qed

lemma infos_ok_drop:
  "set (peers db') \<subseteq> set (peers db) \<Longrightarrow> infos_ok db \<Longrightarrow> infos_ok db'"
  by (auto simp: infos_ok_def)

lemma shrink_banned_subset: "set (peers (snd (shrink_banned db))) \<subseteq> set (peers db)"
proof (induction db rule: shrink_banned.induct)
  case (1 db)
  have "set (peers (snd (drop_banned db))) \<subseteq> set (peers db)"
    by (auto simp: drop_banned_def Let_def split: option.splits dest: set_alist_delete)
  then show ?case using 1 [OF _ refl prod.collapse] by (subst shrink_banned_unfold) auto
qed

lemma shrink_disconnected_subset: "set (peers (shrink_disconnected db)) \<subseteq> set (peers db)"
proof (induction db rule: shrink_disconnected.induct)
  case (1 db)
  have "set (peers (drop_disconnected db)) \<subseteq> set (peers db)"
    by (auto simp: drop_disconnected_def split: option.splits dest: set_alist_delete)
  then show ?case using 1 by (subst shrink_disconnected.simps) auto
qed

lemma infos_ok_unban: "infos_ok db \<Longrightarrow> infos_ok (snd (unban_peer db now p))"
  by (simp add: unban_peer_def Let_def infos_ok_connection)

lemma infos_ok_unbans: "infos_ok db \<Longrightarrow> infos_ok (snd (unban_peers db now ps))"
  by (induction ps arbitrary: db) (simp_all add: split_beta Let_def infos_ok_unban)

lemma infos_ok_gossip_fold: "infos_ok db \<Longrightarrow> infos_ok (snd (fold_gossip db now n ps))"
proof (induction db now n ps rule: fold_gossip.induct)
  case (2 db now n p s ps)
  then show ?case
    by (auto simp: Let_def split_beta infos_ok_put infos_ok_lookup info_ok_ops split: option.splits)
qed simp

lemma infos_ok_gossip_apply: "infos_ok db \<Longrightarrow> infos_ok (snd (apply_gossip_transitions db now ts))"
proof (induction db now ts rule: apply_gossip_transitions.induct)
  case (2 db now p t ts)
  have "infos_ok (snd (apply_gossip_transition db now p t))"
    using 2(2) by (auto simp: apply_gossip_transition_def split_beta Let_def infos_ok_connection infos_ok_unban
        split: score_transition_result.splits)
  from 2(1) [OF refl prod.collapse this] show ?case by (auto simp: split_beta Let_def)
qed simp

lemma infos_ok_step:
  assumes "db_step db db'" "infos_ok db"
  shows "infos_ok db'"
  using assms
proof (cases rule: db_call.cases)
  case (trust now p)
  have "info_ok (i\<lparr>pi_score := max_score, is_trusted := True\<rparr>)" for i
    by (simp add: info_ok_def max_score_def)
  then show ?thesis using assms(2)
    by (simp add: trust(1) set_trusted_peer_def infos_ok_put split: option.split)
next
  case (untrust now p)
  have "info_ok (i\<lparr>is_trusted := False, pi_score := score_default now\<rparr>)" for i
    by (simp add: info_ok_def score_default_def inv_default)
  then show ?thesis using assms(2)
    by (simp add: untrust(1) unset_trusted_peer_def infos_ok_put split: option.split)
next
  case (mutate p i i')
  have "info_ok i'" using infos_ok_lookup [OF assms(2) mutate(2)] info_ok_cong [OF mutate(4,5)] by simp
  then show ?thesis by (simp add: mutate(1) infos_ok_put assms(2))
next
  case (disconnect now p)
  have "set (peers db') \<subseteq> set (peers (snd (update_connection_state db now p NewDisconnected)))"
    using shrink_banned_subset shrink_disconnected_subset
    by (auto simp: disconnect(1) inject_disconnect_def shrink_to_fit_def split_beta Let_def)
  then show ?thesis by (rule infos_ok_drop) (rule infos_ok_connection [OF assms(2)])
next
  case (report now p act)
  then show ?thesis using assms(2)
    by (auto simp: db_report_peer_def Let_def split_beta infos_ok_connection infos_ok_put infos_ok_lookup info_ok_ops
        split: option.splits score_transition_result.splits)
next
  case (scores now)
  have "infos_ok (db\<lparr>peers := map (\<lambda>x. (fst x, decay_peer_score (snd x) now)) (peers db)\<rparr>)"
    using assms(2) by (auto simp: infos_ok_def info_ok_ops)
  then show ?thesis by (simp add: scores(1) update_scores_def Let_def infos_ok_unbans)
next
  case (gossip sort_desc score_of now target)
  then show ?thesis using assms(2)
    by (simp add: update_gossipsub_scores_def Let_def split_beta infos_ok_gossip_fold infos_ok_gossip_apply)
next
  case (cleanup now)
  have "infos_ok (fold (\<lambda>p db. snd (update_connection_state db now p NewDisconnected)) ps db)" if "infos_ok db" for ps db
    using that by (induction ps arbitrary: db) (simp_all add: infos_ok_connection)
  then show ?thesis using assms(2) by (simp add: cleanup(1) cleanup_dialing_peers_def)
next
  case (min_ttl now p t)
  show ?thesis
  proof (cases "peer_info_of db p")
    case (Some i)
    then show ?thesis using infos_ok_lookup [OF assms(2) Some]
      by (simp add: min_ttl(1) update_min_ttl_def infos_ok_put assms(2))
  qed (simp add: min_ttl(1) update_min_ttl_def infos_ok_put assms(2))
next
  case (extend sn t)
  then show ?thesis using assms(2) by (auto simp: extend(1) extend_peers_on_subnet_def infos_ok_def)
qed (simp_all add: db_connect_ingoing_def db_connect_outgoing_def dialing_peer_def notify_disconnecting_def
    db_update_sync_status_def update_sync_status_def add_subscription_def remove_subscription_def Let_def
    infos_ok_connection infos_ok_lookup infos_ok_put split: option.split prod.split)

lemma reachable_infos_ok: "reachable_db db \<Longrightarrow> infos_ok db"
proof -
  have "infos_ok (db_new now trusted disable)" for now :: nanos and trusted :: "'a list" and disable
  proof -
    have "\<forall>x \<in> set (fold (\<lambda>p xs. AList.update p (trusted_peer_info now) xs) ps xs). info_ok (snd x)"
      if "\<forall>x \<in> set xs. info_ok (snd x)" for ps and xs :: "('a \<times> peer_info) list"
      using that
    proof (induction ps arbitrary: xs)
      case (Cons p ps)
      have "\<forall>x \<in> set (AList.update p (trusted_peer_info now) xs). info_ok (snd x)"
        using set_alist_update [of p "trusted_peer_info now" xs] Cons.prems by fastforce
      then show ?case using Cons.IH by simp
    qed simp
    from this [of "[]"] show ?thesis by (simp add: infos_ok_def db_new_def)
  qed
  moreover have "rtranclp db_step db0 db \<Longrightarrow> infos_ok db0 \<Longrightarrow> infos_ok db" for db0
    by (induction rule: rtranclp_induct) (auto intro: infos_ok_step)
  ultimately show "reachable_db db \<Longrightarrow> infos_ok db" unfolding reached_def by blast
qed

text \<open>
  A fatal report on a connected peer without trust and with a score that is not banned, and the
  disconnection it asks for: when the connection closes the ban is complete. While the limits on
  banned and disconnected peers are not reached, nothing else is dropped.
\<close>

lemma fatal_report_then_disconnect:
  fixes now now' :: nanos
  assumes "reachable_db db" "peer_info_of db p = Some i" "is_connected i" "\<not> is_trusted i"
    "pi_score_state i \<noteq> BannedState" "banned_peers (db_banned db) < MAX_BANNED_PEERS"
    "disconnected_peers db \<le> MAX_DC_PEERS"
  defines "rep \<equiv> db_report_peer db now p Fatal"
  defines "dis \<equiv> inject_disconnect (snd rep) now' p"
  shows "fst rep = BanUpdate DisconnectThePeer
    \<and> is_connected_or_disconnecting (snd rep) p
    \<and> (\<exists>ips. fst dis = (Some (ReadyToBan ips), []))
    \<and> db_connection_status (snd dis) p = Some (Banned now')
    \<and> ban_status (snd dis) p = Some BadScoreBan
    \<and> \<not> should_dial (snd dis) p
    \<and> banned_peers (db_banned (snd dis)) = banned_peers (db_banned db) + 1"
proof -
  obtain s where s: "pi_score i = Real s"
    using infos_ok_lookup [OF reachable_infos_ok [OF assms(1)] assms(2)] assms(4) by (auto simp: info_ok_def split: score.splits)
  let ?a = "apply_peer_action_to_score i Fatal"
  let ?i = "?a\<lparr>connection_status := Disconnecting True\<rparr>"
  let ?j = "?a\<lparr>subnets := {}, connection_status := Banned now'\<rparr>"
  have rep: "rep = (BanUpdate DisconnectThePeer, put_info (put_info db p ?a) p ?i)"
    unfolding rep_def by (rule fatal_report [OF assms(2,3) s assms(4,5)])
  have l: "peer_info_of (snd rep) p = Some ?i" by (simp add: rep)
  let ?db = "count_ban (put_info (snd rep) p ?j) ?j"
  have "?i\<lparr>subnets := {}, connection_status := Banned now'\<rparr> = ?j" by simp
  then have u: "update_connection_state (snd rep) now' p NewDisconnected = (Some (ReadyToBan (known_banned_ips ?db ?j)), ?db)"
    using disconnect_to_ban [OF l, of now'] by (simp add: Let_def)
  have dc: "disconnected_peers ?db \<le> MAX_DC_PEERS"
    and bn: "banned_peers (db_banned ?db) = banned_peers (db_banned db) + 1"
    and bl: "banned_peers (db_banned ?db) \<le> MAX_BANNED_PEERS"
    using assms(6,7) by (simp_all add: rep MAX_BANNED_PEERS_def u64_max_def)
  have dis: "dis = ((Some (ReadyToBan (known_banned_ips ?db ?j)), []), ?db)"
    unfolding dis_def inject_disconnect_def u
    by (simp only: Let_def prod.case shrink_to_fit_small(1) [OF bl] shrink_to_fit_small(2) [OF dc])
  have pj: "peer_info_of ?db p = Some ?j" by (simp add: peer_info_of_def AList.update_conv')
  have sj: "pi_score_state ?j = BannedState"
    using fatal_banned [OF s assms(4)] by (simp add: pi_score_state_def)
  show ?thesis
    unfolding dis using bn pj sj
    by (simp add: rep db_connection_status_def ban_status_def should_dial_def is_connected_or_disconnecting_def)
qed

text \<open>
  C23. a trusted peer cannot be punished: a report leaves it as it is and asks for no action, a
  score update leaves it as it is, and it is never refused for its score.
\<close>

theorem trusted_peer_untouched:
  assumes "reachable_db db" "peer_info_of db p = Some i" "is_trusted i"
  shows "fst (db_report_peer db now p act) = NoAction
    \<and> peer_info_of (snd (db_report_peer db now p act)) p = Some i
    \<and> peer_info_of (snd (update_scores db now)) p = Some i
    \<and> ban_status db p \<noteq> Some BadScoreBan"
proof -
  have m: "pi_score i = MaxScore"
    using infos_ok_lookup [OF reachable_infos_ok [OF assms(1)] assms(2)] assms(3) by (simp add: info_ok_def split: score.splits)
  then have h: "pi_score_state i = Healthy"
    by (simp add: pi_score_state_def score_state_def state_of_value_def score_constants)
  have a: "apply_peer_action_to_score i act = i" "decay_peer_score i now = i"
    using assms(3) m by (simp_all add: apply_peer_action_to_score_def decay_peer_score_def)
  have "handle_score_transition Healthy i = TrNoAction" by (simp add: handle_score_transition_def h)
  moreover have "\<not> unban_due i now" by (simp add: unban_due_def h)
  ultimately show ?thesis
    using update_scores_lookup [OF reached_inv [OF assms(1)], of now p]
    by (simp add: db_report_peer_def assms(2) a h ban_status_def)
qed

theorem trusted_peer_untouched_witness:
  "fst (db_report_peer (db_new 0 [7 :: nat] False) 5 7 Fatal) = NoAction"
proof -
  have "reachable_db (db_new 0 [7 :: nat] False)" unfolding reached_def by blast
  from trusted_peer_untouched [OF this, of 7 "trusted_peer_info 0"] show ?thesis
    by (simp add: db_new_def peer_info_of_def trusted_peer_info_def)
qed

section \<open>Queries\<close>

lemma strike_subnets_spec:
  assumes "remaining \<noteq> {}"
  shows "strike_subnets remaining ss = (remaining - set ss, remaining \<subseteq> set ss)"
  using assms
proof (induction ss arbitrary: remaining)
  case (Cons s ss)
  show ?case
  proof (cases "s \<in> remaining")
    case True
    show ?thesis
    proof (cases "remaining - {s} = {}")
      case False
      then show ?thesis using Cons.IH [OF False] True by (auto simp: Let_def)
    qed (use True in \<open>auto simp: Let_def\<close>)
  next
    case False
    then show ?thesis using Cons.IH [OF Cons.prems] by auto
  qed
qed simp

lemma strike_peers_spec:
  assumes "remaining \<noteq> {}"
  shows "strike_peers remaining is \<longleftrightarrow> remaining \<subseteq> (\<Union>i \<in> set is. set (custody_subnets i))"
  using assms
proof (induction "is" arbitrary: remaining)
  case (Cons i "is")
  show ?case
  proof (cases "remaining \<subseteq> set (custody_subnets i)")
    case False
    then have "remaining - set (custody_subnets i) \<noteq> {}" by auto
    from Cons.IH [OF this] show ?thesis using False by (auto simp: strike_subnets_spec [OF Cons.prems])
  qed (auto simp: strike_subnets_spec [OF Cons.prems])
qed simp

text \<open>
  Range sync may start on an epoch exactly when every wanted custody subnet is covered by a
  connected peer that reports having the epoch; an empty set of subnets counts as not covered.
\<close>

theorem custody_range_sync_covered:
  "has_good_custody_range_sync_peer start_slot_at db wanted epoch \<longleftrightarrow>
     wanted \<noteq> {} \<and>
     wanted \<subseteq> {s. \<exists>(p, i) \<in> set (peers db). is_connected i
        \<and> has_slot_status (start_slot_at epoch) (pi_sync_status i) \<and> s \<in> set (custody_subnets i)}"
proof (cases "wanted = {}")
  case True
  have "strike_subnets {} ss = ({}, False)" for ss by (induction ss) simp_all
  then have "\<not> strike_peers {} is" for "is" by (induction "is") simp_all
  then show ?thesis by (simp add: True has_good_custody_range_sync_peer_def)
next
  case False
  have "(\<Union>i \<in> set (filter P (map snd (peers db))). set (custody_subnets i)) =
      {s. \<exists>(p, i) \<in> set (peers db). P i \<and> s \<in> set (custody_subnets i)}" for P
    by force
  then show ?thesis
    using False by (simp add: has_good_custody_range_sync_peer_def strike_peers_spec [OF False])
qed

text \<open>
  The candidates for pruning are exactly the connected peers, worst score first.
\<close>

theorem worst_connected_sorted:
  "mset (worst_connected_peers db) = mset (connected_peers db) \<and>
   sorted_wrt (\<lambda>a b. score_total_cmp (pi_score (snd a)) (pi_score (snd b)) False \<noteq> Greater) (worst_connected_peers db)"
  using info_order.sort_by_sorted [of False "connected_peers db"]
  by (simp add: worst_connected_peers_def connected_peers_def cmp_info_def)

end
