(* ===== verification/ForkContext.thy ===== *)
theory ForkContext
  imports Protocol
begin

text \<open>
  The fork context of \<open>types/fork_context.rs\<close>: the forks scheduled by the chain configuration,
  with their digests, and the fork in force. The configuration and the digest computation belong
  to other crates and are the record \<open>fork_config\<close>. The ordered map from epochs to forks is an
  association list sorted by epoch; \<open>expect\<close> failures are \<open>None\<close>.
\<close>

section \<open>Ordered maps\<close>

fun bt_insert :: "nat \<Rightarrow> 'v \<Rightarrow> (nat \<times> 'v) list \<Rightarrow> (nat \<times> 'v) list" where
  "bt_insert k v [] = [(k, v)]"
| "bt_insert k v ((j, w) # xs) =
     (if k < j then (k, v) # (j, w) # xs
      else if k = j then (k, v) # xs
      else (j, w) # bt_insert k v xs)"

definition bt_collect :: "(nat \<times> 'v) list \<Rightarrow> (nat \<times> 'v) list" where
  "bt_collect xs = fold (\<lambda>x m. bt_insert (fst x) (snd x) m) xs []"

definition bt_range_from :: "nat \<Rightarrow> (nat \<times> 'v) list \<Rightarrow> (nat \<times> 'v) list" where
  "bt_range_from k m = filter (\<lambda>x. k \<le> fst x) m"

definition bt_range_to :: "nat \<Rightarrow> (nat \<times> 'v) list \<Rightarrow> (nat \<times> 'v) list" where
  "bt_range_to k m = filter (\<lambda>x. fst x \<le> k) m"

fun last_opt :: "'a list \<Rightarrow> 'a option" where
  "last_opt [] = None"
| "last_opt [x] = Some x"
| "last_opt (x # xs) = last_opt xs"

fun nth_opt :: "'a list \<Rightarrow> nat \<Rightarrow> 'a option" where
  "nth_opt [] n = None"
| "nth_opt (x # xs) 0 = Some x"
| "nth_opt (x # xs) (Suc n) = nth_opt xs n"

lemma set_bt_insert: "fst ` set (bt_insert k v m) = insert k (fst ` set m)"
  by (induction k v m rule: bt_insert.induct) auto

lemma sorted_bt_insert: "sorted_wrt (<) (map fst m) \<Longrightarrow> sorted_wrt (<) (map fst (bt_insert k v m))"
proof (induction k v m rule: bt_insert.induct)
  case (2 k v j w xs)
  have "\<forall>y \<in> set (map fst (bt_insert k v xs)). j < y" if "\<not> k < j" "k \<noteq> j"
    using 2(2) that set_bt_insert [of k v xs] by fastforce
  then show ?case using 2 by fastforce
qed simp

lemma bt_collect_facts:
  assumes "\<And>x. x \<in> set xs \<Longrightarrow> snd x = f (fst x)"
  shows "sorted_wrt (<) (map fst (bt_collect xs)) \<and> set (bt_collect xs) = set xs"
proof -
  have upd: "set (bt_insert k (f k) m) = insert (k, f k) (set m)"
    if "\<And>x. x \<in> set m \<Longrightarrow> snd x = f (fst x)" for k m
    using that by (induction k "f k" m rule: bt_insert.induct) auto
  have "sorted_wrt (<) (map fst (fold (\<lambda>x m. bt_insert (fst x) (snd x) m) xs m))
      \<and> set (fold (\<lambda>x m. bt_insert (fst x) (snd x) m) xs m) = set xs \<union> set m"
    if "sorted_wrt (<) (map fst m)" "\<And>x. x \<in> set m \<Longrightarrow> snd x = f (fst x)" for m
    using that assms
  proof (induction xs arbitrary: m)
    case (Cons x xs)
    have x: "snd x = f (fst x)" using Cons.prems(3) by simp
    have s: "set (bt_insert (fst x) (snd x) m) = insert x (set m)"
      unfolding x using upd [OF Cons.prems(2)] x by (metis prod.collapse)
    have "\<And>y. y \<in> set (bt_insert (fst x) (snd x) m) \<Longrightarrow> snd y = f (fst y)"
      unfolding s using x Cons.prems(2) by auto
    from Cons.IH [OF sorted_bt_insert [OF Cons.prems(1), of "fst x" "snd x"] this] have
      "sorted_wrt (<) (map fst (fold (\<lambda>x m. bt_insert (fst x) (snd x) m) xs (bt_insert (fst x) (snd x) m)))
       \<and> set (fold (\<lambda>x m. bt_insert (fst x) (snd x) m) xs (bt_insert (fst x) (snd x) m)) = set xs \<union> insert x (set m)"
      using Cons.prems(3) unfolding s by simp
    then show ?case by simp
  qed simp
  from this [of "[]"] show ?thesis by (simp add: bt_collect_def)
qed

lemma last_opt_eq: "last_opt xs = (if xs = [] then None else Some (last xs))"
  by (induction xs rule: last_opt.induct) simp_all

lemma nth_opt_eq: "nth_opt xs n = (if n < length xs then Some (xs ! n) else None)"
  by (induction xs n rule: nth_opt.induct) auto

section \<open>Forks\<close>

type_synonym digest = "8 word list"

record hard_fork =
  fork_name :: phase
  fork_epoch :: nat
  hf_digest :: digest

definition hard_fork_new :: "phase \<Rightarrow> digest \<Rightarrow> nat \<Rightarrow> hard_fork" where
  "hard_fork_new name d epoch = \<lparr>fork_name = name, fork_epoch = epoch, hf_digest = d\<rparr>"

text \<open>What the chain configuration provides, with the digest of an epoch for the given root.\<close>

record fork_config =
  is_phase_enabled :: "phase \<Rightarrow> bool"
  cfg_fork_epoch :: "phase \<Rightarrow> nat"
  blob_schedule_epochs :: "nat list"
  phase_at_epoch :: "nat \<Rightarrow> phase"
  compute_fork_digest :: "nat \<Rightarrow> digest"
  far_future_epoch :: nat

record fork_context =
  fc_config :: fork_config
  current_fork :: hard_fork
  epoch_to_forks :: "(nat \<times> hard_fork) list"

definition all_phases :: "phase list" where
  "all_phases = [Phase0, Altair, Bellatrix, Capella, Deneb, Electra, Fulu, Gloas]"

definition scheduled_epochs :: "fork_config \<Rightarrow> nat list" where
  "scheduled_epochs cfg = map (cfg_fork_epoch cfg) (filter (is_phase_enabled cfg) all_phases) @ blob_schedule_epochs cfg"

definition fork_at :: "fork_config \<Rightarrow> nat \<Rightarrow> hard_fork" where
  "fork_at cfg epoch = hard_fork_new (phase_at_epoch cfg epoch) (compute_fork_digest cfg epoch) epoch"

text \<open>\<open>current_epoch\<close> is the epoch of the current slot.\<close>

definition fork_context_new :: "fork_config \<Rightarrow> nat \<Rightarrow> fork_context option" where
  "fork_context_new cfg current_epoch =
     (let forks = bt_collect (map (\<lambda>epoch. (epoch, fork_at cfg epoch)) (scheduled_epochs cfg))
      in map_option (\<lambda>f. \<lparr>fc_config = cfg, current_fork = f, epoch_to_forks = forks\<rparr>)
           (last_opt (filter (\<lambda>f. fork_epoch f \<le> current_epoch) (map snd forks))))"

definition fork_exists :: "fork_context \<Rightarrow> phase \<Rightarrow> bool" where
  "fork_exists ctx p \<longleftrightarrow> cfg_fork_epoch (fc_config ctx) p \<noteq> far_future_epoch (fc_config ctx)"

definition current_fork_name :: "fork_context \<Rightarrow> phase" where
  "current_fork_name ctx = fork_name (current_fork ctx)"

definition current_fork_epoch :: "fork_context \<Rightarrow> nat" where
  "current_fork_epoch ctx = fork_epoch (current_fork ctx)"

definition current_fork_digest :: "fork_context \<Rightarrow> digest" where
  "current_fork_digest ctx = hf_digest (current_fork ctx)"

definition next_hard_fork :: "fork_context \<Rightarrow> hard_fork option" where
  "next_hard_fork ctx =
     map_option snd (nth_opt (bt_range_from (current_fork_epoch ctx) (epoch_to_forks ctx)) 1)"

definition next_fork_digest :: "fork_context \<Rightarrow> digest option" where
  "next_fork_digest ctx = map_option hf_digest (next_hard_fork ctx)"

definition next_fork :: "fork_context \<Rightarrow> (phase \<times> digest \<times> nat) option" where
  "next_fork ctx = map_option (\<lambda>f. (fork_name f, hf_digest f, fork_epoch f)) (next_hard_fork ctx)"

text \<open>\<open>ForkDigest::default()\<close> is four zero bytes.\<close>

definition update_current_fork :: "fork_context \<Rightarrow> fork_context" where
  "update_current_fork ctx = ctx\<lparr>current_fork :=
     (case next_hard_fork ctx of
        Some f \<Rightarrow> f
      | None \<Rightarrow> hard_fork_new (current_fork_name ctx) [0, 0, 0, 0] (far_future_epoch (fc_config ctx)))\<rparr>"

definition genesis_context_bytes :: "fork_context \<Rightarrow> digest option" where
  "genesis_context_bytes ctx = map_option (\<lambda>x. hf_digest (snd x)) (nth_opt (epoch_to_forks ctx) 0)"

definition get_fork_from_context_bytes :: "fork_context \<Rightarrow> digest \<Rightarrow> phase option" where
  "get_fork_from_context_bytes ctx d =
     map_option fork_name (find (\<lambda>f. hf_digest f = d) (map snd (epoch_to_forks ctx)))"

definition context_bytes_at :: "fork_context \<Rightarrow> nat \<Rightarrow> digest option" where
  "context_bytes_at ctx epoch =
     map_option (\<lambda>x. hf_digest (snd x)) (last_opt (bt_range_to epoch (epoch_to_forks ctx)))"

definition to_context_bytes :: "fork_context \<Rightarrow> phase \<Rightarrow> digest option" where
  "to_context_bytes ctx p = context_bytes_at ctx (cfg_fork_epoch (fc_config ctx) p)"

definition all_fork_digests :: "fork_context \<Rightarrow> digest list" where
  "all_fork_digests ctx = map (\<lambda>x. hf_digest (snd x)) (epoch_to_forks ctx)"

definition all_fork_epochs :: "fork_context \<Rightarrow> nat list" where
  "all_fork_epochs ctx = map fst (epoch_to_forks ctx)"

section \<open>The schedule of a configuration\<close>

definition schedule :: "fork_config \<Rightarrow> nat list" where
  "schedule cfg = map fst (bt_collect (map (\<lambda>epoch. (epoch, fork_at cfg epoch)) (scheduled_epochs cfg)))"

lemma collected_forks:
  "sorted_wrt (<) (map fst (bt_collect (map (\<lambda>epoch. (epoch, fork_at cfg epoch)) (scheduled_epochs cfg))))
   \<and> set (bt_collect (map (\<lambda>epoch. (epoch, fork_at cfg epoch)) (scheduled_epochs cfg)))
       = (\<lambda>epoch. (epoch, fork_at cfg epoch)) ` set (scheduled_epochs cfg)"
  unfolding set_map [symmetric] by (rule bt_collect_facts [where f = "fork_at cfg"]) auto

lemma schedule_facts: "sorted_wrt (<) (schedule cfg)" "set (schedule cfg) = set (scheduled_epochs cfg)"
  using collected_forks [of cfg] by (simp_all add: schedule_def image_image)

lemma forks_schedule:
  "bt_collect (map (\<lambda>epoch. (epoch, fork_at cfg epoch)) (scheduled_epochs cfg))
     = map (\<lambda>k. (k, fork_at cfg k)) (schedule cfg)"
proof -
  let ?m = "bt_collect (map (\<lambda>epoch. (epoch, fork_at cfg epoch)) (scheduled_epochs cfg))"
  have m: "set ?m = (\<lambda>epoch. (epoch, fork_at cfg epoch)) ` set (scheduled_epochs cfg)"
    by (rule collected_forks [THEN conjunct2])
  have "(fst x, fork_at cfg (fst x)) = x" if "x \<in> set ?m" for x using that unfolding m by auto
  then have "map (\<lambda>x. (fst x, fork_at cfg (fst x))) ?m = ?m" by (intro map_idI)
  then show ?thesis unfolding schedule_def map_map comp_def by (rule sym)
qed

text \<open>A new context in terms of the schedule.\<close>

lemma fork_context_new_eq:
  "fork_context_new cfg e =
     (if filter (\<lambda>k. k \<le> e) (schedule cfg) = [] then None
      else Some \<lparr>fc_config = cfg, current_fork = fork_at cfg (last (filter (\<lambda>k. k \<le> e) (schedule cfg))),
                 epoch_to_forks = map (\<lambda>k. (k, fork_at cfg k)) (schedule cfg)\<rparr>)"
proof -
  have "filter (\<lambda>f. fork_epoch f \<le> e) (map snd (map (\<lambda>k. (k, fork_at cfg k)) (schedule cfg)))
      = map (fork_at cfg) (filter (\<lambda>k. k \<le> e) (schedule cfg))"
    by (simp add: filter_map comp_def fork_at_def hard_fork_new_def)
  then show ?thesis by (simp add: fork_context_new_def forks_schedule last_opt_eq last_map)
qed

lemma filter_from: "sorted_wrt (<) ks \<Longrightarrow> i < length ks \<Longrightarrow> filter (\<lambda>k :: nat. ks ! i \<le> k) ks = drop i ks"
proof (induction ks arbitrary: i)
  case (Cons a ks)
  show ?case
  proof (cases i)
    case 0
    then show ?thesis using Cons.prems(1) by (simp add: filter_id_conv less_imp_le)
  next
    case (Suc j)
    then show ?thesis using Cons.IH [of j] Cons.prems by (auto simp: not_le)
  qed
qed simp

lemma filter_to: "sorted_wrt (<) ks \<Longrightarrow> i < length ks \<Longrightarrow> filter (\<lambda>k :: nat. k \<le> ks ! i) ks = take (Suc i) ks"
proof (induction ks arbitrary: i)
  case (Cons a ks)
  show ?case
  proof (cases i)
    case 0
    then show ?thesis using Cons.prems(1) by (simp add: filter_empty_conv not_le)
  next
    case (Suc j)
    then show ?thesis using Cons.IH [of j] Cons.prems by (auto simp: less_imp_le)
  qed
qed simp

lemma sorted_le_last: "sorted_wrt (<) xs \<Longrightarrow> (x :: nat) \<in> set xs \<Longrightarrow> x \<le> last xs"
  by (induction xs) (auto intro: less_imp_le)

text \<open>The position of the current fork in the schedule, and the fork after it.\<close>

lemma new_current:
  assumes "fork_context_new cfg e = Some ctx"
  obtains i where "i < length (schedule cfg)" "current_fork ctx = fork_at cfg (schedule cfg ! i)"
    "schedule cfg ! i \<le> e" "\<And>j. i < j \<Longrightarrow> j < length (schedule cfg) \<Longrightarrow> e < schedule cfg ! j"
    "fc_config ctx = cfg" "epoch_to_forks ctx = map (\<lambda>k. (k, fork_at cfg k)) (schedule cfg)"
proof -
  let ?ks = "schedule cfg"
  have ne: "filter (\<lambda>k. k \<le> e) ?ks \<noteq> []" and c: "current_fork ctx = fork_at cfg (last (filter (\<lambda>k. k \<le> e) ?ks))"
    and f: "fc_config ctx = cfg" "epoch_to_forks ctx = map (\<lambda>k. (k, fork_at cfg k)) ?ks"
    using assms by (auto simp: fork_context_new_eq split: if_splits)
  have "last (filter (\<lambda>k. k \<le> e) ?ks) \<in> set (filter (\<lambda>k. k \<le> e) ?ks)" using ne by (rule last_in_set)
  then obtain i where i: "i < length ?ks" "?ks ! i = last (filter (\<lambda>k. k \<le> e) ?ks)" "?ks ! i \<le> e"
    by (auto simp: in_set_conv_nth)
  have later: "e < ?ks ! j" if j: "i < j" "j < length ?ks" for j
  proof (rule ccontr)
    assume "\<not> e < ?ks ! j"
    then have "?ks ! j \<in> set (filter (\<lambda>k. k \<le> e) ?ks)" using j by simp
    moreover have "sorted_wrt (<) (filter (\<lambda>k. k \<le> e) ?ks)" using schedule_facts(1) by (rule sorted_wrt_filter)
    ultimately have "?ks ! j \<le> last (filter (\<lambda>k. k \<le> e) ?ks)"
      by (rule sorted_le_last [rotated])
    moreover have "?ks ! i < ?ks ! j" using schedule_facts(1) j by (rule sorted_wrt_nth_less)
    ultimately show False using i(2) by simp
  qed
  have "current_fork ctx = fork_at cfg (?ks ! i)" by (simp add: c i(2))
  from that [OF i(1) this i(3) later f] show ?thesis by blast
qed

lemma next_hard_fork_eq:
  assumes "epoch_to_forks ctx = map (\<lambda>k. (k, fork_at cfg k)) (schedule cfg)"
    "current_fork ctx = fork_at cfg (schedule cfg ! i)" "i < length (schedule cfg)"
  shows "next_hard_fork ctx =
    (if Suc i < length (schedule cfg) then Some (fork_at cfg (schedule cfg ! Suc i)) else None)"
proof -
  let ?ks = "schedule cfg"
  have "bt_range_from (?ks ! i) (map (\<lambda>k. (k, fork_at cfg k)) ?ks) = map (\<lambda>k. (k, fork_at cfg k)) (drop i ?ks)"
    unfolding bt_range_from_def filter_from [OF schedule_facts(1) assms(3), symmetric]
    by (simp add: filter_map comp_def)
  moreover have "current_fork_epoch ctx = ?ks ! i"
    by (simp add: current_fork_epoch_def assms(2) fork_at_def hard_fork_new_def)
  ultimately show ?thesis using assms(3) by (auto simp: next_hard_fork_def assms(1) nth_opt_eq)
qed

section \<open>Properties\<close>

text \<open>
  C30. Moving to the next fork is the same as starting at its epoch: when a fork follows the current
  one, the updated context is the context a node builds that starts in the first epoch of
  that fork. With no fork left, the current fork becomes a placeholder at the far future epoch.
\<close>

theorem update_current_fork_restart:
  assumes "fork_context_new cfg e = Some ctx"
  shows "(case next_fork ctx of
      Some (p, d, e') \<Rightarrow> e < e' \<and> fork_context_new cfg e' = Some (update_current_fork ctx)
    | None \<Rightarrow> current_fork_epoch (update_current_fork ctx) = far_future_epoch cfg
              \<and> current_fork_name (update_current_fork ctx) = current_fork_name ctx)"
proof -
  let ?ks = "schedule cfg"
  obtain i where i: "i < length ?ks" "current_fork ctx = fork_at cfg (?ks ! i)" "?ks ! i \<le> e"
    "\<And>j. i < j \<Longrightarrow> j < length ?ks \<Longrightarrow> e < ?ks ! j"
    "fc_config ctx = cfg" "epoch_to_forks ctx = map (\<lambda>k. (k, fork_at cfg k)) ?ks"
    by (rule new_current [OF assms]) blast
  note n = next_hard_fork_eq [OF i(6,2,1)]
  show ?thesis
  proof (cases "Suc i < length ?ks")
    case True
    have "filter (\<lambda>k. k \<le> ?ks ! Suc i) ?ks = take (Suc (Suc i)) ?ks"
      by (rule filter_to [OF schedule_facts(1) True])
    then have "last (filter (\<lambda>k. k \<le> ?ks ! Suc i) ?ks) = ?ks ! Suc i" "filter (\<lambda>k. k \<le> ?ks ! Suc i) ?ks \<noteq> []"
      using True by (auto simp: take_Suc_conv_app_nth)
    then have "fork_context_new cfg (?ks ! Suc i) = Some (ctx\<lparr>current_fork := fork_at cfg (?ks ! Suc i)\<rparr>)"
      using i(5,6) by (simp add: fork_context_new_eq)
    moreover have "update_current_fork ctx = ctx\<lparr>current_fork := fork_at cfg (?ks ! Suc i)\<rparr>"
      using True by (simp add: update_current_fork_def n)
    ultimately show ?thesis using True i(4) [of "Suc i"] by (simp add: next_fork_def n fork_at_def hard_fork_new_def)
  next
    case False
    then show ?thesis using i(5)
      by (simp add: next_fork_def n update_current_fork_def current_fork_epoch_def current_fork_name_def hard_fork_new_def)
  qed
qed

definition demo_forks :: fork_config where
  "demo_forks =
     \<lparr>is_phase_enabled = (\<lambda>p. p \<le> Altair), cfg_fork_epoch = (\<lambda>p. 10 * phase_index p), blob_schedule_epochs = [5],
      phase_at_epoch = (\<lambda>e. if e < 10 then Phase0 else Altair), compute_fork_digest = (\<lambda>e. [0, 0, 0, of_nat e]),
      far_future_epoch = 1000\<rparr>"

definition demo_context :: "nat \<Rightarrow> fork_context" where
  "demo_context e = the (fork_context_new demo_forks e)"

lemma demo_schedule: "schedule demo_forks = [0, 5, 10]"
  by (simp add: schedule_def scheduled_epochs_def demo_forks_def all_phases_def bt_collect_def less_eq_phase_def)

lemma demo_forks_simps [simp]:
  "phase_at_epoch demo_forks e = (if e < 10 then Phase0 else Altair)"
  "compute_fork_digest demo_forks e = [0, 0, 0, of_nat e]"
  by (simp_all add: demo_forks_def)

lemma demo_context_new: "e \<le> 20 \<Longrightarrow> fork_context_new demo_forks e = Some (demo_context e)"
  by (simp add: demo_context_def fork_context_new_eq demo_schedule)

theorem update_current_fork_restart_witness:
  "fork_context_new demo_forks 5 = Some (update_current_fork (demo_context 0))"
proof -
  have "next_fork (demo_context 0) = Some (Phase0, [0, 0, 0, 5], 5)"
    by (simp add: demo_context_def fork_context_new_eq demo_schedule next_fork_def next_hard_fork_def bt_range_from_def
        current_fork_epoch_def fork_at_def hard_fork_new_def nth_opt_eq)
  with update_current_fork_restart [OF demo_context_new [of 0]] show ?thesis by simp
qed

lemma fork_at_fields:
  "fork_name (fork_at cfg k) = phase_at_epoch cfg k" "hf_digest (fork_at cfg k) = compute_fork_digest cfg k"
  by (simp_all add: fork_at_def hard_fork_new_def)

text \<open>The digest of a fork names the phase in force at its epoch.\<close>

lemma context_bytes_named:
  assumes "fork_context_new cfg e = Some ctx" "inj_on (compute_fork_digest cfg) (set (scheduled_epochs cfg))"
    "context_bytes_at ctx ep = Some d"
  shows "get_fork_from_context_bytes ctx d = Some (phase_at_epoch cfg (last (filter (\<lambda>k. k \<le> ep) (schedule cfg))))"
proof -
  let ?ks = "schedule cfg"
  have ef: "epoch_to_forks ctx = map (\<lambda>k. (k, fork_at cfg k)) ?ks"
    using assms(1) by (auto simp: fork_context_new_eq split: if_splits)
  have "bt_range_to ep (epoch_to_forks ctx) = map (\<lambda>k. (k, fork_at cfg k)) (filter (\<lambda>k. k \<le> ep) ?ks)"
    by (simp add: bt_range_to_def ef filter_map comp_def)
  then have ne: "filter (\<lambda>k. k \<le> ep) ?ks \<noteq> []" and d: "d = compute_fork_digest cfg (last (filter (\<lambda>k. k \<le> ep) ?ks))"
    using assms(3) by (auto simp: context_bytes_at_def last_opt_eq last_map fork_at_def hard_fork_new_def split: if_splits)
  let ?k = "last (filter (\<lambda>k. k \<le> ep) ?ks)"
  have k: "?k \<in> set ?ks" using last_in_set [OF ne] by simp
  have "find (\<lambda>f. hf_digest f = d) (map (fork_at cfg) ks) = Some (fork_at cfg ?k)"
    if "?k \<in> set ks" "set ks \<subseteq> set ?ks" for ks
    using that
  proof (induction ks)
    case (Cons a ks)
    have "compute_fork_digest cfg a = d \<longleftrightarrow> a = ?k"
      using Cons.prems(2) k assms(2) unfolding d schedule_facts(2) by (auto dest: inj_onD)
    then show ?case using Cons by (auto simp: fork_at_def hard_fork_new_def)
  qed simp
  from this [OF k subset_refl] show ?thesis
    by (simp add: get_fork_from_context_bytes_def ef comp_def fork_at_fields)
qed

end
