(* ===== verification/Codec.thy ===== *)
theory Codec
  imports ForkContext Methods
begin

text \<open>
  The SSZ-snappy codec of the request/response protocols, \<open>rpc/codec.rs\<close>, and the stream upgrades
  that use it in \<open>rpc/protocol.rs\<close>. A message on the wire is its SSZ bytes, preceded by
  their length as a variable-length integer and compressed in snappy frames; a response chunk
  has a response code first and, for some protocols, four context bytes that name the fork.

  SSZ, the integer encoding and snappy are other crates: they are the fields of the record \<open>wire\<close>,
  and what is relied on is the predicate \<open>wire_ok\<close>. A codec is fed whatever part of a
  message has arrived; the locale \<open>chunked\<close> is the contract that makes the result
  independent of how the bytes were split. Byte counters exported as metrics are left out, and
  error messages keep only their fixed text.
\<close>

section \<open>The encodings of other crates\<close>

type_synonym bytes = "8 word list"

record 'a ssz =
  ssz_write :: "'a \<Rightarrow> bytes option"
  ssz_read :: "bytes \<Rightarrow> 'a option"

text \<open>The containers a response can carry, with the variant of the combined types.\<close>

datatype payload_kind =
    BlockKind phase
  | BlobKind
  | ColumnKind phase
  | BootstrapKind phase
  | OptimisticKind phase
  | FinalityKind phase
  | UpdateKind phase

datatype io_error = UnexpectedEof | OtherIo string

text \<open>
  \<open>snap_read src n\<close> is \<open>read_exact\<close> of \<open>n\<close> bytes through a \<open>FrameDecoder\<close> over \<open>src\<close>, with the
  position of the underlying cursor after it.
\<close>

record ('root, 'pl) wire =
  uvi_encode :: "nat \<Rightarrow> bytes"
  uvi_decode :: "bytes \<Rightarrow> ((nat \<times> bytes) option, rpc_error) result"
  snap_frame :: "bytes \<Rightarrow> bytes"
  snap_read :: "bytes \<Rightarrow> nat \<Rightarrow> (bytes, io_error) result \<times> nat"
  max_compress_len :: "nat \<Rightarrow> nat"
  status_v1_ssz :: "status_message_v1 ssz"
  status_v2_ssz :: "status_message_v2 ssz"
  u64_ssz :: "nat ssz"
  old_range_ssz :: "old_range ssz"
  block_roots_ssz :: "'root list ssz"
  blobs_by_range_ssz :: "blobs_by_range_request ssz"
  blob_ids_ssz :: "('root \<times> nat) list ssz"
  columns_by_range_ssz :: "data_columns_by_range_request ssz"
  column_ids_ssz :: "'root data_columns_by_root_request ssz"
  root_ssz :: "'root ssz"
  updates_by_range_ssz :: "light_client_updates_by_range_request ssz"
  metadata_v1_ssz :: "meta_data_v1 ssz"
  metadata_v2_ssz :: "meta_data_v2 ssz"
  metadata_v3_ssz :: "meta_data_v3 ssz"
  error_ssz :: "bytes ssz"
  payload_ssz :: "payload_kind \<Rightarrow> 'pl ssz"
  payload_kind_of :: "'pl \<Rightarrow> payload_kind"
  payload_slot :: "'pl \<Rightarrow> nat"
  epoch_at_slot :: "nat \<Rightarrow> nat"
  wire_sizes :: ssz_sizes

definition to_ssz :: "'a ssz \<Rightarrow> 'a \<Rightarrow> (bytes, rpc_error) result" where
  "to_ssz s x = ok_or (ssz_write s x) SszWriteError"

definition from_ssz :: "'a ssz \<Rightarrow> bytes \<Rightarrow> ('a, rpc_error) result" where
  "from_ssz s b = ok_or (ssz_read s b) SszReadError"

text \<open>\<open>DynamicList::from_ssz\<close> refuses more elements than its maximum.\<close>

definition from_ssz_max :: "'a list ssz \<Rightarrow> nat \<Rightarrow> bytes \<Rightarrow> ('a list, rpc_error) result" where
  "from_ssz_max s m b =
     result_bind (from_ssz s b) (\<lambda>xs. if length xs \<le> m then Ok xs else Err SszReadError)"

definition payload_to_ssz :: "('root, 'pl) wire \<Rightarrow> 'pl \<Rightarrow> (bytes, rpc_error) result" where
  "payload_to_ssz w p = to_ssz (payload_ssz w (payload_kind_of w p)) p"

definition metadata_to_ssz :: "('root, 'pl) wire \<Rightarrow> meta_data \<Rightarrow> (bytes, rpc_error) result" where
  "metadata_to_ssz w m =
     (case m of
        MetaV1 md \<Rightarrow> to_ssz (metadata_v1_ssz w) md
      | MetaV2 md \<Rightarrow> to_ssz (metadata_v2_ssz w) md
      | MetaV3 md \<Rightarrow> to_ssz (metadata_v3_ssz w) md)"

definition goodbye_to_ssz :: "('root, 'pl) wire \<Rightarrow> goodbye_reason \<Rightarrow> (bytes, rpc_error) result" where
  "goodbye_to_ssz w g = to_ssz (u64_ssz w) (unat (goodbye_to_u64 g))"

definition goodbye_from_ssz :: "('root, 'pl) wire \<Rightarrow> bytes \<Rightarrow> (goodbye_reason, rpc_error) result" where
  "goodbye_from_ssz w b =
     result_bind (from_ssz (u64_ssz w) b) (\<lambda>n. Ok (goodbye_from_u64 (word_of_nat n)))"

section \<open>The codecs\<close>

abbreviation CONTEXT_BYTES_LEN :: nat where
  "CONTEXT_BYTES_LEN \<equiv> 4"

abbreviation ERROR_TYPE_MIN :: nat where
  "ERROR_TYPE_MIN \<equiv> 0"

abbreviation ERROR_TYPE_MAX :: nat where
  "ERROR_TYPE_MAX \<equiv> 256"

record inbound_codec =
  ic_chain_config :: chain_config
  ic_protocol :: protocol_id
  ic_len :: "nat option"
  ic_max_packet_size :: nat
  ic_fork_context :: fork_context

record outbound_codec =
  oc_len :: "nat option"
  oc_protocol :: protocol_id
  oc_max_packet_size :: nat
  oc_phase :: "phase option"
  oc_fork_context :: fork_context
  current_response_code :: "8 word option"

abbreviation ic_version :: "inbound_codec \<Rightarrow> supported_protocol" where
  "ic_version c \<equiv> versioned_protocol (ic_protocol c)"

abbreviation oc_version :: "outbound_codec \<Rightarrow> supported_protocol" where
  "oc_version c \<equiv> versioned_protocol (oc_protocol c)"

definition inbound_codec_new :: "chain_config \<Rightarrow> protocol_id \<Rightarrow> nat \<Rightarrow> fork_context \<Rightarrow> inbound_codec" where
  "inbound_codec_new cfg p mx ctx =
     \<lparr>ic_chain_config = cfg, ic_protocol = p, ic_len = None, ic_max_packet_size = mx, ic_fork_context = ctx\<rparr>"

definition outbound_codec_new :: "protocol_id \<Rightarrow> nat \<Rightarrow> fork_context \<Rightarrow> outbound_codec" where
  "outbound_codec_new p mx ctx =
     \<lparr>oc_len = None, oc_protocol = p, oc_max_packet_size = mx, oc_phase = None, oc_fork_context = ctx,
      current_response_code = None\<rparr>"

subsection \<open>Shared parts\<close>

fun handle_error :: "io_error \<Rightarrow> nat \<Rightarrow> nat \<Rightarrow> ('a option, rpc_error) result" where
  "handle_error UnexpectedEof num_bytes max_compressed_len =
     (if max_compressed_len \<le> num_bytes then Err (InvalidData ''Received malicious snappy message'') else Ok None)"
| "handle_error (OtherIo e) num_bytes max_compressed_len = Err (IoError e)"

text \<open>The limited frame reader, with the position it stops at.\<close>

definition read_frame :: "('root, 'pl) wire \<Rightarrow> nat \<Rightarrow> bytes \<Rightarrow> ((bytes \<times> nat) option, rpc_error) result" where
  "read_frame w len src =
     (let max_compressed_len = max_compress_len w len;
          (r, n) = snap_read w (take max_compressed_len src) len
      in case r of
           Ok decoded_buffer \<Rightarrow> Ok (Some (decoded_buffer, n))
         | Err e \<Rightarrow> handle_error e n max_compressed_len)"

text \<open>The result, the stored length and the remaining bytes.\<close>

definition handle_length ::
    "('root, 'pl) wire \<Rightarrow> nat option \<Rightarrow> bytes \<Rightarrow> (nat option, rpc_error) result \<times> nat option \<times> bytes" where
  "handle_length w len bytes =
     (case len of
        Some n \<Rightarrow> (Ok (Some n), len, bytes)
      | None \<Rightarrow>
          (case uvi_decode w bytes of
             Err e \<Rightarrow> (Err e, None, bytes)
           | Ok None \<Rightarrow> (Ok None, None, bytes)
           | Ok (Some (n, rest)) \<Rightarrow> (Ok (Some n), Some n, rest)))"

text \<open>The outer \<open>None\<close> is the panic of \<open>ForkContext::context_bytes\<close> before the first fork.\<close>

definition context_bytes ::
    "('root, 'pl) wire \<Rightarrow> supported_protocol \<Rightarrow> fork_context \<Rightarrow> 'pl rpc_response \<Rightarrow> digest option option" where
  "context_bytes w v ctx resp =
     (if has_context_bytes v then
        (case resp of
           Success r \<Rightarrow>
             (case success_slot (payload_slot w) r of
                Some slot \<Rightarrow> map_option Some (context_bytes_at ctx (epoch_at_slot w slot))
              | None \<Rightarrow> Some None)
         | _ \<Rightarrow> Some None)
      else Some None)"

definition context_bytes_to_phase :: "digest \<Rightarrow> fork_context \<Rightarrow> (phase, rpc_error) result" where
  "context_bytes_to_phase d ctx =
     ok_or (get_fork_from_context_bytes ctx d)
       (ErrorResponse InvalidRequest ''Context bytes do not correspond to a valid fork'')"

subsection \<open>Requests\<close>

text \<open>
  The SSZ bytes of a request. \<open>None\<close> is the \<open>unreachable!\<close> of the source, \<open>Some None\<close> the requests
  that have no bytes at all.
\<close>

fun request_ssz ::
    "('root, 'pl) wire \<Rightarrow> supported_protocol \<Rightarrow> 'root request_type \<Rightarrow> (bytes, rpc_error) result option option" where
  "request_ssz w v (StatusReq req) =
     (case v of
        StatusV1 \<Rightarrow> Some (Some (to_ssz (status_v1_ssz w) (status_v1 req)))
      | StatusV2 \<Rightarrow> Some (Some (to_ssz (status_v2_ssz w) (status_v2 req)))
      | _ \<Rightarrow> None)"
| "request_ssz w v (GoodbyeReq req) = Some (Some (goodbye_to_ssz w req))"
| "request_ssz w v (BlocksByRangeReq (OldRangeV1 req)) = Some (Some (to_ssz (old_range_ssz w) req))"
| "request_ssz w v (BlocksByRangeReq (OldRangeV2 req)) = Some (Some (to_ssz (old_range_ssz w) req))"
| "request_ssz w v (BlocksByRootReq (RootsV1 roots)) = Some (Some (to_ssz (block_roots_ssz w) roots))"
| "request_ssz w v (BlocksByRootReq (RootsV2 roots)) = Some (Some (to_ssz (block_roots_ssz w) roots))"
| "request_ssz w v (BlobsByRangeReq req) = Some (Some (to_ssz (blobs_by_range_ssz w) req))"
| "request_ssz w v (BlobsByRootReq blob_ids) = Some (Some (to_ssz (blob_ids_ssz w) blob_ids))"
| "request_ssz w v (DataColumnsByRangeReq req) = Some (Some (to_ssz (columns_by_range_ssz w) req))"
| "request_ssz w v (DataColumnsByRootReq col_ids) = Some (Some (to_ssz (column_ids_ssz w) col_ids))"
| "request_ssz w v (PingReq data) = Some (Some (to_ssz (u64_ssz w) data))"
| "request_ssz w v (LightClientBootstrapReq req) = Some (Some (to_ssz (root_ssz w) req))"
| "request_ssz w v (LightClientUpdatesByRangeReq req) = Some (Some (to_ssz (updates_by_range_ssz w) req))"
| "request_ssz w v (MetaDataReq _) = Some None"
| "request_ssz w v LightClientOptimisticUpdateReq = Some None"
| "request_ssz w v LightClientFinalityUpdateReq = Some None"

text \<open>The encoders give the result and the buffer after it.\<close>

definition outbound_encode ::
    "('root, 'pl) wire \<Rightarrow> outbound_codec \<Rightarrow> 'root request_type \<Rightarrow> bytes \<Rightarrow> ((unit, rpc_error) result \<times> bytes) option" where
  "outbound_encode w c item dst =
     map_option (\<lambda>b. case b of
         None \<Rightarrow> (Ok (), dst)
       | Some (Err e) \<Rightarrow> (Err e, dst)
       | Some (Ok bytes) \<Rightarrow>
           if oc_max_packet_size c < length bytes
           then (Err (InternalError ''attempting to encode data > max_packet_size''), dst)
           else (Ok (), dst @ uvi_encode w (length bytes) @ snap_frame w bytes))
       (request_ssz w (oc_version c) item)"

fun handle_rpc_request ::
    "('root, 'pl) wire \<Rightarrow> chain_config \<Rightarrow> supported_protocol \<Rightarrow> bytes \<Rightarrow> phase \<Rightarrow> ('root request_type option, rpc_error) result" where
  "handle_rpc_request w cfg StatusV1 b p =
     result_bind (from_ssz (status_v1_ssz w) b) (\<lambda>s. Ok (Some (StatusReq (StatusMsgV1 s))))"
| "handle_rpc_request w cfg StatusV2 b p =
     result_bind (from_ssz (status_v2_ssz w) b) (\<lambda>s. Ok (Some (StatusReq (StatusMsgV2 s))))"
| "handle_rpc_request w cfg GoodbyeV1 b p =
     result_bind (goodbye_from_ssz w b) (\<lambda>g. Ok (Some (GoodbyeReq g)))"
| "handle_rpc_request w cfg BlocksByRangeV2 b p =
     result_bind (from_ssz (old_range_ssz w) b) (\<lambda>r. Ok (Some (BlocksByRangeReq (OldRangeV2 r))))"
| "handle_rpc_request w cfg BlocksByRangeV1 b p =
     result_bind (from_ssz (old_range_ssz w) b) (\<lambda>r. Ok (Some (BlocksByRangeReq (OldRangeV1 r))))"
| "handle_rpc_request w cfg BlocksByRootV2 b p =
     result_bind (from_ssz_max (block_roots_ssz w) (max_request_blocks cfg p) b)
       (\<lambda>rs. Ok (Some (BlocksByRootReq (RootsV2 rs))))"
| "handle_rpc_request w cfg BlocksByRootV1 b p =
     result_bind (from_ssz_max (block_roots_ssz w) (max_request_blocks cfg p) b)
       (\<lambda>rs. Ok (Some (BlocksByRootReq (RootsV1 rs))))"
| "handle_rpc_request w cfg BlobsByRangeV1 b p =
     result_bind (from_ssz (blobs_by_range_ssz w) b) (\<lambda>r. Ok (Some (BlobsByRangeReq r)))"
| "handle_rpc_request w cfg BlobsByRootV1 b p =
     result_bind (from_ssz_max (blob_ids_ssz w) (max_request_blob_sidecars cfg p) b)
       (\<lambda>ids. Ok (Some (BlobsByRootReq ids)))"
| "handle_rpc_request w cfg DataColumnsByRangeV1 b p =
     result_bind (from_ssz (columns_by_range_ssz w) b) (\<lambda>r. Ok (Some (DataColumnsByRangeReq r)))"
| "handle_rpc_request w cfg DataColumnsByRootV1 b p =
     result_bind (from_ssz_max (column_ids_ssz w) (max_request_blocks cfg p) b)
       (\<lambda>ids. Ok (Some (DataColumnsByRootReq ids)))"
| "handle_rpc_request w cfg PingV1 b p =
     result_bind (from_ssz (u64_ssz w) b) (\<lambda>n. Ok (Some (PingReq n)))"
| "handle_rpc_request w cfg LightClientBootstrapV1 b p =
     result_bind (from_ssz (root_ssz w) b) (\<lambda>r. Ok (Some (LightClientBootstrapReq r)))"
| "handle_rpc_request w cfg LightClientOptimisticUpdateV1 b p = Ok (Some LightClientOptimisticUpdateReq)"
| "handle_rpc_request w cfg LightClientFinalityUpdateV1 b p = Ok (Some LightClientFinalityUpdateReq)"
| "handle_rpc_request w cfg LightClientUpdatesByRangeV1 b p =
     result_bind (from_ssz (updates_by_range_ssz w) b) (\<lambda>r. Ok (Some (LightClientUpdatesByRangeReq r)))"
| "handle_rpc_request w cfg MetaDataV3 b p =
     (if b \<noteq> [] then Err (InternalError ''Metadata requests shouldn't reach decoder'')
      else Ok (Some (MetaDataReq MetadataReqV3)))"
| "handle_rpc_request w cfg MetaDataV2 b p =
     (if b \<noteq> [] then Err (InternalError ''Metadata requests shouldn't reach decoder'')
      else Ok (Some (MetaDataReq MetadataReqV2)))"
| "handle_rpc_request w cfg MetaDataV1 b p =
     (if b \<noteq> [] then Err (InvalidData ''Metadata request'') else Ok (Some (MetaDataReq MetadataReqV1)))"

text \<open>The decoders give the result, the codec and the remaining bytes.\<close>

definition inbound_decode ::
    "('root, 'pl) wire \<Rightarrow> inbound_codec \<Rightarrow> bytes \<Rightarrow> ('root request_type option, rpc_error) result \<times> inbound_codec \<times> bytes" where
  "inbound_decode w c src =
     (if ic_version c = MetaDataV1 then (Ok (Some (MetaDataReq MetadataReqV1)), c, src)
      else if ic_version c = MetaDataV2 then (Ok (Some (MetaDataReq MetadataReqV2)), c, src)
      else if ic_version c = MetaDataV3 then (Ok (Some (MetaDataReq MetadataReqV3)), c, src)
      else
        (let (r, l, src) = handle_length w (ic_len c) src; c = c\<lparr>ic_len := l\<rparr> in
         case r of
           Err e \<Rightarrow> (Err e, c, src)
         | Ok None \<Rightarrow> (Ok None, c, src)
         | Ok (Some n) \<Rightarrow>
             if is_out_of_bounds
                  (rpc_request_limits (wire_sizes w) (ic_chain_config c) (current_fork_name (ic_fork_context c))
                     (protocol_of (ic_version c))) n (ic_max_packet_size c)
             then (Err (InvalidData ''RPC request length is out of bounds''), c, src)
             else
               (case read_frame w n src of
                  Err e \<Rightarrow> (Err e, c, src)
                | Ok None \<Rightarrow> (Ok None, c, src)
                | Ok (Some (decoded_buffer, k)) \<Rightarrow>
                    (handle_rpc_request w (ic_chain_config c) (ic_version c) decoded_buffer
                       (current_fork_name (ic_fork_context c)),
                     c\<lparr>ic_len := None\<rparr>, drop k src))))"

subsection \<open>Responses\<close>

text \<open>\<open>None\<close> is the \<open>unreachable!\<close> of the source.\<close>

fun response_ssz ::
    "('root, 'pl) wire \<Rightarrow> chain_config \<Rightarrow> supported_protocol \<Rightarrow> 'pl rpc_response \<Rightarrow> (bytes, rpc_error) result option" where
  "response_ssz w cfg v (Success (StatusResp res)) =
     (case v of
        StatusV1 \<Rightarrow> Some (to_ssz (status_v1_ssz w) (status_v1 res))
      | StatusV2 \<Rightarrow> Some (to_ssz (status_v2_ssz w) (status_v2 res))
      | _ \<Rightarrow> None)"
| "response_ssz w cfg v (Success (BlocksByRangeResp res)) = Some (payload_to_ssz w res)"
| "response_ssz w cfg v (Success (BlocksByRootResp res)) = Some (payload_to_ssz w res)"
| "response_ssz w cfg v (Success (BlobsByRangeResp res)) = Some (payload_to_ssz w res)"
| "response_ssz w cfg v (Success (BlobsByRootResp res)) = Some (payload_to_ssz w res)"
| "response_ssz w cfg v (Success (DataColumnsByRootResp res)) = Some (payload_to_ssz w res)"
| "response_ssz w cfg v (Success (DataColumnsByRangeResp res)) = Some (payload_to_ssz w res)"
| "response_ssz w cfg v (Success (LightClientBootstrapResp res)) = Some (payload_to_ssz w res)"
| "response_ssz w cfg v (Success (LightClientOptimisticUpdateResp res)) = Some (payload_to_ssz w res)"
| "response_ssz w cfg v (Success (LightClientFinalityUpdateResp res)) = Some (payload_to_ssz w res)"
| "response_ssz w cfg v (Success (LightClientUpdatesByRangeResp res)) = Some (payload_to_ssz w res)"
| "response_ssz w cfg v (Success (PongResp data)) = Some (to_ssz (u64_ssz w) data)"
| "response_ssz w cfg v (Success (MetaDataResp res)) =
     (case v of
        MetaDataV1 \<Rightarrow> Some (metadata_to_ssz w (metadata_v1 res))
      | MetaDataV2 \<Rightarrow> Some (metadata_to_ssz w (metadata_v2 cfg res))
      | MetaDataV3 \<Rightarrow> Some (metadata_to_ssz w (metadata_v3 cfg res))
      | _ \<Rightarrow> None)"
| "response_ssz w cfg v (ErrorResp _ err) = Some (to_ssz (error_ssz w) err)"
| "response_ssz w cfg v (StreamTermination _) = None"

definition encode_response ::
    "('root, 'pl) wire \<Rightarrow> inbound_codec \<Rightarrow> 'pl rpc_response \<Rightarrow> bytes \<Rightarrow> ((unit, rpc_error) result \<times> bytes) option" where
  "encode_response w c item dst =
     (case response_ssz w (ic_chain_config c) (ic_version c) item of
        None \<Rightarrow> None
      | Some (Err e) \<Rightarrow> Some (Err e, dst)
      | Some (Ok bytes) \<Rightarrow>
          if ic_max_packet_size c < length bytes
          then Some (Err (InternalError ''attempting to encode data > max_packet_size''), dst)
          else
            map_option (\<lambda>d. (Ok (), dst @ (case d of None \<Rightarrow> [] | Some ctx \<Rightarrow> ctx) @ uvi_encode w (length bytes) @ snap_frame w bytes))
              (context_bytes w (ic_version c) (ic_fork_context c) item))"

text \<open>The buffer is cleared and gets the response code first; a stream termination panics.\<close>

definition inbound_encode ::
    "('root, 'pl) wire \<Rightarrow> inbound_codec \<Rightarrow> 'pl rpc_response \<Rightarrow> bytes \<Rightarrow> ((unit, rpc_error) result \<times> bytes) option" where
  "inbound_encode w c item dst =
     (case rpc_response_as_u8 item of
        None \<Rightarrow> None
      | Some code \<Rightarrow> encode_response w c item [code])"

definition no_context :: "('a, rpc_error) result" where
  "no_context = Err (ErrorResponse InvalidRequest ''No context bytes provided for response'')"

definition payload_from_ssz ::
    "('root, 'pl) wire \<Rightarrow> payload_kind \<Rightarrow> ('pl \<Rightarrow> 'pl rpc_success_response) \<Rightarrow> bytes
     \<Rightarrow> ('pl rpc_success_response option, rpc_error) result" where
  "payload_from_ssz w k wrap b = result_bind (from_ssz (payload_ssz w k) b) (\<lambda>x. Ok (Some (wrap x)))"

definition block_response ::
    "('root, 'pl) wire \<Rightarrow> ('pl \<Rightarrow> 'pl rpc_success_response) \<Rightarrow> bytes \<Rightarrow> phase option
     \<Rightarrow> ('pl rpc_success_response option, rpc_error) result" where
  "block_response w wrap b fork =
     (case fork of None \<Rightarrow> no_context | Some p \<Rightarrow> payload_from_ssz w (BlockKind p) wrap b)"

definition blob_response ::
    "('root, 'pl) wire \<Rightarrow> ('pl \<Rightarrow> 'pl rpc_success_response) \<Rightarrow> bytes \<Rightarrow> phase option
     \<Rightarrow> ('pl rpc_success_response option, rpc_error) result" where
  "blob_response w wrap b fork =
     (case fork of
        None \<Rightarrow> no_context
      | Some p \<Rightarrow>
          if p \<in> {Deneb, Electra, Fulu, Gloas} then payload_from_ssz w BlobKind wrap b
          else Err (ErrorResponse InvalidRequest ''Invalid fork name for blobs''))"

definition column_response ::
    "('root, 'pl) wire \<Rightarrow> ('pl \<Rightarrow> 'pl rpc_success_response) \<Rightarrow> bytes \<Rightarrow> phase option
     \<Rightarrow> ('pl rpc_success_response option, rpc_error) result" where
  "column_response w wrap b fork =
     (case fork of
        None \<Rightarrow> no_context
      | Some p \<Rightarrow>
          if p \<in> {Fulu, Gloas} then payload_from_ssz w (ColumnKind p) wrap b
          else Err (ErrorResponse InvalidRequest ''Invalid fork name for data columns''))"

definition light_client_response ::
    "('root, 'pl) wire \<Rightarrow> (phase \<Rightarrow> payload_kind) \<Rightarrow> ('pl \<Rightarrow> 'pl rpc_success_response) \<Rightarrow> bytes \<Rightarrow> phase option
     \<Rightarrow> ('pl rpc_success_response option, rpc_error) result" where
  "light_client_response w kind wrap b fork =
     (case fork of
        None \<Rightarrow> no_context
      | Some Phase0 \<Rightarrow> Err (ErrorResponse InvalidRequest ''light_client topic invalid for given fork'')
      | Some Bellatrix \<Rightarrow> payload_from_ssz w (kind Altair) wrap b
      | Some p \<Rightarrow> payload_from_ssz w (kind p) wrap b)"

fun handle_rpc_response ::
    "('root, 'pl) wire \<Rightarrow> supported_protocol \<Rightarrow> bytes \<Rightarrow> phase option \<Rightarrow> ('pl rpc_success_response option, rpc_error) result" where
  "handle_rpc_response w StatusV1 b fork =
     result_bind (from_ssz (status_v1_ssz w) b) (\<lambda>s. Ok (Some (StatusResp (StatusMsgV1 s))))"
| "handle_rpc_response w StatusV2 b fork =
     result_bind (from_ssz (status_v2_ssz w) b) (\<lambda>s. Ok (Some (StatusResp (StatusMsgV2 s))))"
| "handle_rpc_response w GoodbyeV1 b fork = Err (InvalidData ''Goodbye RPC message has no valid response'')"
| "handle_rpc_response w BlocksByRangeV1 b fork = payload_from_ssz w (BlockKind Phase0) BlocksByRangeResp b"
| "handle_rpc_response w BlocksByRootV1 b fork = payload_from_ssz w (BlockKind Phase0) BlocksByRootResp b"
| "handle_rpc_response w BlobsByRangeV1 b fork = blob_response w BlobsByRangeResp b fork"
| "handle_rpc_response w BlobsByRootV1 b fork = blob_response w BlobsByRootResp b fork"
| "handle_rpc_response w DataColumnsByRootV1 b fork = column_response w DataColumnsByRootResp b fork"
| "handle_rpc_response w DataColumnsByRangeV1 b fork = column_response w DataColumnsByRangeResp b fork"
| "handle_rpc_response w PingV1 b fork =
     result_bind (from_ssz (u64_ssz w) b) (\<lambda>n. Ok (Some (PongResp n)))"
| "handle_rpc_response w MetaDataV1 b fork =
     result_bind (from_ssz (metadata_v1_ssz w) b) (\<lambda>m. Ok (Some (MetaDataResp (MetaV1 m))))"
| "handle_rpc_response w LightClientBootstrapV1 b fork =
     light_client_response w BootstrapKind LightClientBootstrapResp b fork"
| "handle_rpc_response w LightClientOptimisticUpdateV1 b fork =
     light_client_response w OptimisticKind LightClientOptimisticUpdateResp b fork"
| "handle_rpc_response w LightClientFinalityUpdateV1 b fork =
     light_client_response w FinalityKind LightClientFinalityUpdateResp b fork"
| "handle_rpc_response w LightClientUpdatesByRangeV1 b fork =
     light_client_response w UpdateKind LightClientUpdatesByRangeResp b fork"
| "handle_rpc_response w MetaDataV3 b fork =
     result_bind (from_ssz (metadata_v3_ssz w) b) (\<lambda>m. Ok (Some (MetaDataResp (MetaV3 m))))"
| "handle_rpc_response w MetaDataV2 b fork =
     result_bind (from_ssz (metadata_v2_ssz w) b) (\<lambda>m. Ok (Some (MetaDataResp (MetaV2 m))))"
| "handle_rpc_response w BlocksByRangeV2 b fork = block_response w BlocksByRangeResp b fork"
| "handle_rpc_response w BlocksByRootV2 b fork = block_response w BlocksByRootResp b fork"

text \<open>Reading the context bytes: \<open>Ok False\<close> when they have not all arrived.\<close>

definition read_context :: "outbound_codec \<Rightarrow> bytes \<Rightarrow> (bool, rpc_error) result \<times> outbound_codec \<times> bytes" where
  "read_context c src =
     (if has_context_bytes (oc_version c) \<and> oc_phase c = None then
        if CONTEXT_BYTES_LEN \<le> length src then
          (case context_bytes_to_phase (take CONTEXT_BYTES_LEN src) (oc_fork_context c) of
             Err e \<Rightarrow> (Err e, c, drop CONTEXT_BYTES_LEN src)
           | Ok p \<Rightarrow> (Ok True, c\<lparr>oc_phase := Some p\<rparr>, drop CONTEXT_BYTES_LEN src))
        else (Ok False, c, src)
      else (Ok True, c, src))"

definition decode_response ::
    "('root, 'pl) wire \<Rightarrow> outbound_codec \<Rightarrow> bytes
     \<Rightarrow> ('pl rpc_success_response option, rpc_error) result \<times> outbound_codec \<times> bytes" where
  "decode_response w c src =
     (let (ready, c, src) = read_context c src in
      case ready of
        Err e \<Rightarrow> (Err e, c, src)
      | Ok False \<Rightarrow> (Ok None, c, src)
      | Ok True \<Rightarrow>
          (let (r, l, src) = handle_length w (oc_len c) src; c = c\<lparr>oc_len := l\<rparr> in
           case r of
             Err e \<Rightarrow> (Err e, c, src)
           | Ok None \<Rightarrow> (Ok None, c, src)
           | Ok (Some n) \<Rightarrow>
               if is_out_of_bounds
                    (rpc_response_limits (wire_sizes w) (current_fork_name (oc_fork_context c)) (protocol_of (oc_version c)))
                    n (oc_max_packet_size c)
               then (Err (InvalidData ''RPC response length is out of bounds''), c, src)
               else
                 (case read_frame w n src of
                    Err e \<Rightarrow> (Err e, c, src)
                  | Ok None \<Rightarrow> (Ok None, c, src)
                  | Ok (Some (decoded_buffer, k)) \<Rightarrow>
                      (handle_rpc_response w (oc_version c) decoded_buffer (oc_phase c),
                       c\<lparr>oc_len := None, oc_phase := None\<rparr>, drop k src))))"

definition decode_error ::
    "('root, 'pl) wire \<Rightarrow> outbound_codec \<Rightarrow> bytes \<Rightarrow> (bytes option, rpc_error) result \<times> outbound_codec \<times> bytes" where
  "decode_error w c src =
     (let (r, l, src) = handle_length w (oc_len c) src; c = c\<lparr>oc_len := l\<rparr> in
      case r of
        Err e \<Rightarrow> (Err e, c, src)
      | Ok None \<Rightarrow> (Ok None, c, src)
      | Ok (Some n) \<Rightarrow>
          if oc_max_packet_size c < n \<or> ERROR_TYPE_MAX < n \<or> n < ERROR_TYPE_MIN
          then (Err (InvalidData ''RPC Error length is out of bounds''), c, src)
          else
            (case read_frame w n src of
               Err e \<Rightarrow> (Err e, c, src)
             | Ok None \<Rightarrow> (Ok None, c, src)
             | Ok (Some (decoded_buffer, k)) \<Rightarrow>
                 (result_bind (from_ssz (error_ssz w) decoded_buffer) (\<lambda>e. Ok (Some e)),
                  c\<lparr>oc_len := None\<rparr>, drop k src)))"

text \<open>The part of a chunk after its code.\<close>

definition decode_chunk ::
    "('root, 'pl) wire \<Rightarrow> 8 word \<Rightarrow> outbound_codec \<Rightarrow> bytes \<Rightarrow> ('pl rpc_response option, rpc_error) result \<times> outbound_codec \<times> bytes" where
  "decode_chunk w response_code c src =
     (if is_response response_code then
        (let (r, c, src) = decode_response w c src in (result_bind r (\<lambda>x. Ok (map_option Success x)), c, src))
      else
        (let (r, c, src) = decode_error w c src in
         (result_bind r (\<lambda>x. Ok (map_option (rpc_response_from_error response_code) x)), c, src)))"

definition outbound_decode ::
    "('root, 'pl) wire \<Rightarrow> outbound_codec \<Rightarrow> bytes \<Rightarrow> ('pl rpc_response option, rpc_error) result \<times> outbound_codec \<times> bytes" where
  "outbound_decode w c src =
     (if length src \<le> 1 then (Ok None, c, src)
      else
        (let (code, c, src) =
               (case current_response_code c of
                  Some code \<Rightarrow> (code, c, src)
                | None \<Rightarrow> (hd src, c\<lparr>current_response_code := Some (hd src)\<rparr>, tl src));
             (inner_result, c, src) = decode_chunk w code c src
         in (inner_result,
             (case inner_result of Ok (Some _) \<Rightarrow> c\<lparr>current_response_code := None\<rparr> | _ \<Rightarrow> c), src)))"

section \<open>Reading a framed stream\<close>

text \<open>
  \<open>Framed\<close> appends what arrives to its buffer and calls the decoder until it wants more bytes.
  \<open>ended\<close> tells whether the stream is closed after the last piece; the bytes left over are then an
  error.
\<close>

datatype 'a poll = Got 'a | Failed rpc_error | Closed | Pending

fun next_item ::
    "('c \<Rightarrow> bytes \<Rightarrow> ('a option, rpc_error) result \<times> 'c \<times> bytes) \<Rightarrow> bool \<Rightarrow> 'c \<Rightarrow> bytes \<Rightarrow> bytes list
     \<Rightarrow> 'a poll \<times> 'c \<times> bytes \<times> bytes list" where
  "next_item decode ended c buf [] =
     (if ended then
        (case decode c buf of
           (Ok None, c', buf') \<Rightarrow>
             (if buf' = [] then Closed else Failed (IoError ''bytes remaining on stream''), c', buf', [])
         | (Ok (Some x), c', buf') \<Rightarrow> (Got x, c', buf', [])
         | (Err e, c', buf') \<Rightarrow> (Failed e, c', buf', []))
      else (Pending, c, buf, []))"
| "next_item decode ended c buf (piece # pieces) =
     (case decode c (buf @ piece) of
        (Ok None, c', buf') \<Rightarrow> next_item decode ended c' buf' pieces
      | (Ok (Some x), c', buf') \<Rightarrow> (Got x, c', buf', pieces)
      | (Err e, c', buf') \<Rightarrow> (Failed e, c', buf', pieces))"

text \<open>Bytes left from the previous item are decoded before more are read.\<close>

definition poll_item ::
    "('c \<Rightarrow> bytes \<Rightarrow> ('a option, rpc_error) result \<times> 'c \<times> bytes) \<Rightarrow> bool \<Rightarrow> 'c \<Rightarrow> bytes \<Rightarrow> bytes list
     \<Rightarrow> 'a poll \<times> 'c \<times> bytes \<times> bytes list" where
  "poll_item decode ended c buf pieces = next_item decode ended c [] (buf # pieces)"

primrec all_items ::
    "('c \<Rightarrow> bytes \<Rightarrow> ('a option, rpc_error) result \<times> 'c \<times> bytes) \<Rightarrow> nat \<Rightarrow> 'c \<Rightarrow> bytes \<Rightarrow> bytes list
     \<Rightarrow> ('a list \<times> rpc_error option) option" where
  "all_items decode 0 c buf pieces = None"
| "all_items decode (Suc fuel) c buf pieces =
     (case poll_item decode True c buf pieces of
        (Got x, c', buf', pieces') \<Rightarrow> map_option (apfst (Cons x)) (all_items decode fuel c' buf' pieces')
      | (Failed e, _) \<Rightarrow> Some ([], Some e)
      | _ \<Rightarrow> Some ([], None))"

text \<open>The stream a listener gets; \<open>Err\<close> also when the request has not arrived in time.\<close>

definition upgrade_inbound ::
    "('root, 'pl) wire \<Rightarrow> inbound_codec \<Rightarrow> bool \<Rightarrow> bytes list \<Rightarrow> ('root request_type, rpc_error) result" where
  "upgrade_inbound w c ended pieces =
     (case ic_version c of
        MetaDataV1 \<Rightarrow> Ok (MetaDataReq MetadataReqV1)
      | MetaDataV2 \<Rightarrow> Ok (MetaDataReq MetadataReqV2)
      | MetaDataV3 \<Rightarrow> Ok (MetaDataReq MetadataReqV3)
      | LightClientOptimisticUpdateV1 \<Rightarrow> Ok LightClientOptimisticUpdateReq
      | LightClientFinalityUpdateV1 \<Rightarrow> Ok LightClientFinalityUpdateReq
      | _ \<Rightarrow>
          (case fst (next_item (inbound_decode w) ended c [] pieces) of
             Got request \<Rightarrow> Ok request
           | Failed e \<Rightarrow> Err e
           | Closed \<Rightarrow> Err IncompleteStream
           | Pending \<Rightarrow> Err StreamTimeout))"

text \<open>One way of cutting a list against another.\<close>

lemma append_cut:
  assumes "xs @ ys = zs @ us"
  obtains (short) r where "length xs < length zs" "r \<noteq> []" "zs = xs @ r" "ys = r @ us"
  | (long) m where "length zs \<le> length xs" "xs = zs @ m" "m @ ys = us"
proof -
  from assms consider r where "xs = zs @ r" "r @ ys = us" | r where "xs @ r = zs" "ys = r @ us"
    unfolding append_eq_append_conv2 by blast
  then show ?thesis
  proof cases
    case 1
    show ?thesis by (rule long [of r]) (use 1 in simp_all)
  next
    case (2 r)
    show ?thesis
    proof (cases "r = []")
      case True
      then show ?thesis using long [of "[]"] 2 by simp
    next
      case False
      then show ?thesis using short [of r] 2 by fastforce
    qed
  qed
qed

locale chunked =
  fixes decode :: "'c \<Rightarrow> bytes \<Rightarrow> ('a option, rpc_error) result \<times> 'c \<times> bytes"
    and awaiting :: "'c \<Rightarrow> bytes \<Rightarrow> 'a \<Rightarrow> bool"
    and reset :: "'c \<Rightarrow> 'c"
  assumes decode_part: "awaiting c (buf @ rest) x \<Longrightarrow> rest \<noteq> [] \<Longrightarrow>
      \<exists>c' buf'. decode c buf = (Ok None, c', buf') \<and> awaiting c' (buf' @ rest) x \<and> reset c' = reset c"
    and decode_full: "awaiting c bs x \<Longrightarrow> decode c (bs @ later) = (Ok (Some x), reset c, later)"
begin

lemma next_item_awaited:
  assumes "awaiting c bs x" "buf @ concat pieces = bs @ later" "length buf < length bs"
  shows "\<exists>buf' pieces'. next_item decode ended c buf pieces = (Got x, reset c, buf', pieces')
           \<and> buf' @ concat pieces' = later"
  using assms
proof (induction pieces arbitrary: c bs buf)
  case (Cons p ps)
  from Cons.prems(2) have "(buf @ p) @ concat ps = bs @ later" by simp
  then show ?case
  proof (cases rule: append_cut)
    case (short rest)
    from decode_part [of c "buf @ p" rest x] Cons.prems(1) short obtain c' buf' where
      d: "decode c (buf @ p) = (Ok None, c', buf')" "awaiting c' (buf' @ rest) x" "reset c' = reset c" by auto
    have "length buf' < length (buf' @ rest)" "buf' @ concat ps = (buf' @ rest) @ later" using short by simp_all
    from Cons.IH [OF d(2) this(2,1)] d show ?thesis by simp
  next
    case (long m)
    then show ?thesis using decode_full [OF Cons.prems(1), of m] by simp
  qed
qed simp

lemma poll_item_awaited:
  assumes "awaiting c bs x" "buf @ concat pieces = bs @ later" "bs \<noteq> []"
  shows "\<exists>buf' pieces'. poll_item decode ended c buf pieces = (Got x, reset c, buf', pieces')
           \<and> buf' @ concat pieces' = later"
  using next_item_awaited [of c bs x "[]" "buf # pieces" later ended] assms by (simp add: poll_item_def)

end

text \<open>A decoder that, between two items, waits for more.\<close>

locale chunked_stream = chunked +
  assumes decode_idle: "decode (reset c) [] = (Ok None, reset c, [])"
    and reset_idem: "reset (reset c) = reset c"
    and awaiting_nonempty: "\<not> awaiting c [] x"
begin

lemma next_item_idle:
  "concat pieces = [] \<Longrightarrow> \<exists>bs ps. next_item decode True (reset c) [] pieces = (Closed, reset c, bs, ps)"
  by (induction pieces) (simp_all add: decode_idle)

lemma all_items_awaited:
  assumes "list_all2 (awaiting (reset c)) bss xs" "buf @ concat pieces = concat bss" "length xs < fuel"
  shows "all_items decode fuel (reset c) buf pieces = Some (xs, None)"
  using assms
proof (induction bss xs arbitrary: buf pieces fuel rule: list_all2_induct)
  case Nil
  then obtain n where n: "fuel = Suc n" by (cases fuel) auto
  from next_item_idle [of "buf # pieces" c] Nil(1) show ?case by (auto simp: n poll_item_def)
next
  case (Cons bs bss x xs)
  then obtain n where n: "fuel = Suc n" "length xs < n" by (cases fuel) auto
  have "bs \<noteq> []" using Cons.hyps(1) awaiting_nonempty by auto
  with poll_item_awaited [OF Cons.hyps(1), of buf pieces "concat bss" True] Cons.prems(1)
  obtain buf' pieces' where p: "poll_item decode True (reset c) buf pieces = (Got x, reset (reset c), buf', pieces')"
    "buf' @ concat pieces' = concat bss" by auto
  from Cons.IH [OF p(2) n(2)] show ?case by (simp add: n(1) p(1) reset_idem)
qed

end

section \<open>What is relied on of other crates\<close>

text \<open>
  Lengths fit 64 bits. A proper prefix of an encoding asks for more bytes. A frame is never longer than
  the bound for its contents, where there is a bound: \<open>snap::raw::max_compress_len\<close> is zero above the
  largest input of the compressor. The frame of no bytes is empty.
\<close>

definition framing_ok :: "('root, 'pl) wire \<Rightarrow> bool" where
  "framing_ok w \<longleftrightarrow>
     (\<forall>n rest. n < 2 ^ 64 \<longrightarrow> uvi_decode w (uvi_encode w n @ rest) = Ok (Some (n, rest))) \<and>
     (\<forall>n p q. n < 2 ^ 64 \<longrightarrow> uvi_encode w n = p @ q \<longrightarrow> q \<noteq> [] \<longrightarrow> uvi_decode w p = Ok None) \<and>
     length (uvi_encode w 0) = 1 \<and>
     (\<forall>b rest. snap_read w (snap_frame w b @ rest) (length b) = (Ok b, length (snap_frame w b))) \<and>
     (\<forall>b p q. snap_frame w b = p @ q \<longrightarrow> q \<noteq> [] \<longrightarrow>
        (\<exists>k \<le> length p. snap_read w p (length b) = (Err UnexpectedEof, k))) \<and>
     (\<forall>b. 0 < max_compress_len w (length b) \<longrightarrow> length (snap_frame w b) \<le> max_compress_len w (length b)) \<and>
     snap_frame w [] = [] \<and> (\<forall>b. b \<noteq> [] \<longrightarrow> 2 \<le> length (snap_frame w b))"

definition list_ssz_ok :: "'a ssz \<Rightarrow> bool" where
  "list_ssz_ok s \<longleftrightarrow> (\<forall>x b. ssz_write s x = Some b \<longrightarrow> ssz_read s b = Some x)"

definition ssz_ok :: "'a ssz \<Rightarrow> bool" where
  "ssz_ok s \<longleftrightarrow> list_ssz_ok s \<and> (\<forall>x. ssz_write s x \<noteq> Some [])"

text \<open>SSZ values are read back from their bytes; only lists can have no bytes.\<close>

definition wire_ok :: "('root, 'pl) wire \<Rightarrow> bool" where
  "wire_ok w \<longleftrightarrow> framing_ok w \<and>
     ssz_ok (status_v1_ssz w) \<and> ssz_ok (status_v2_ssz w) \<and> ssz_ok (u64_ssz w) \<and> ssz_ok (old_range_ssz w) \<and>
     list_ssz_ok (block_roots_ssz w) \<and> ssz_ok (blobs_by_range_ssz w) \<and> list_ssz_ok (blob_ids_ssz w) \<and>
     ssz_ok (columns_by_range_ssz w) \<and> list_ssz_ok (column_ids_ssz w) \<and> ssz_ok (root_ssz w) \<and>
     ssz_ok (updates_by_range_ssz w) \<and> ssz_ok (metadata_v1_ssz w) \<and> ssz_ok (metadata_v2_ssz w) \<and>
     ssz_ok (metadata_v3_ssz w) \<and> list_ssz_ok (error_ssz w) \<and> (\<forall>k. ssz_ok (payload_ssz w k))"

lemma framing:
  assumes "framing_ok w"
  shows "n < 2 ^ 64 \<Longrightarrow> uvi_decode w (uvi_encode w n @ rest) = Ok (Some (n, rest))"
    "n < 2 ^ 64 \<Longrightarrow> uvi_encode w n = p @ q \<Longrightarrow> q \<noteq> [] \<Longrightarrow> uvi_decode w p = Ok None"
    "length (uvi_encode w 0) = 1" "snap_frame w [] = []" "b \<noteq> [] \<Longrightarrow> 2 \<le> length (snap_frame w b)"
    "snap_read w (snap_frame w b @ rest) (length b) = (Ok b, length (snap_frame w b))"
    "snap_frame w b = p @ q \<Longrightarrow> q \<noteq> [] \<Longrightarrow> \<exists>k \<le> length p. snap_read w p (length b) = (Err UnexpectedEof, k)"
    "0 < max_compress_len w (length b) \<Longrightarrow> length (snap_frame w b) \<le> max_compress_len w (length b)"
  using assms unfolding framing_ok_def by simp_all

text \<open>A length that can be sent: it fits 64 bits and the compressor takes as many bytes.\<close>

definition sendable :: "('root, 'pl) wire \<Rightarrow> nat \<Rightarrow> bool" where
  "sendable w n \<longleftrightarrow> n < 2 ^ 64 \<and> 0 < max_compress_len w n"

lemma read_frame_full:
  assumes "framing_ok w" "sendable w (length b)"
  shows "read_frame w (length b) (snap_frame w b @ later) = Ok (Some (b, length (snap_frame w b)))"
  using framing(6,8) [OF assms(1), of b] assms(2) by (simp add: read_frame_def sendable_def)

lemma read_frame_part:
  assumes "framing_ok w" "snap_frame w b = p @ q" "q \<noteq> []" "sendable w (length b)"
  shows "read_frame w (length b) p = Ok None"
proof -
  obtain k where k: "k \<le> length p" "snap_read w p (length b) = (Err UnexpectedEof, k)"
    using framing(7) [OF assms(1-3)] by blast
  have "length p < length (snap_frame w b)" using assms(2,3) by simp
  also have "\<dots> \<le> max_compress_len w (length b)" using framing(8) [OF assms(1)] assms(4) by (simp add: sendable_def)
  finally show ?thesis using k by (simp add: read_frame_def)
qed

lemma handle_length_stored [simp]: "handle_length w (Some n) src = (Ok (Some n), Some n, src)"
  by (simp add: handle_length_def)

lemma handle_length_full:
  "framing_ok w \<Longrightarrow> sendable w n \<Longrightarrow> handle_length w None (uvi_encode w n @ src) = (Ok (Some n), Some n, src)"
  by (simp add: handle_length_def framing sendable_def)

lemma handle_length_part:
  "framing_ok w \<Longrightarrow> sendable w n \<Longrightarrow> uvi_encode w n = p @ q \<Longrightarrow> q \<noteq> [] \<Longrightarrow> handle_length w None p = (Ok None, None, p)"
  using framing(2) [of w n p q] by (simp add: handle_length_def sendable_def)

text \<open>The length and the frame of a message, from either of its two states.\<close>

definition body_at :: "('root, 'pl) wire \<Rightarrow> nat option \<Rightarrow> bytes \<Rightarrow> bytes \<Rightarrow> bool" where
  "body_at w len b bs \<longleftrightarrow> framing_ok w \<and> sendable w (length b) \<and>
     (len = None \<and> bs = uvi_encode w (length b) @ snap_frame w b \<or> len = Some (length b) \<and> bs = snap_frame w b)"

lemma body_full:
  assumes "body_at w len b bs"
  obtains k src where "handle_length w len (bs @ later) = (Ok (Some (length b)), Some (length b), src)"
    "read_frame w (length b) src = Ok (Some (b, k))" "drop k src = later"
proof (rule that)
  show "handle_length w len (bs @ later) = (Ok (Some (length b)), Some (length b), snap_frame w b @ later)"
    using assms by (auto simp: body_at_def handle_length_full)
  show "read_frame w (length b) (snap_frame w b @ later) = Ok (Some (b, length (snap_frame w b)))"
    using assms by (auto simp: body_at_def read_frame_full)
qed simp

lemma body_part:
  assumes "body_at w len b (buf @ rest)" "rest \<noteq> []"
  obtains (no_length) "handle_length w len buf = (Ok None, None, buf)" "len = None"
  | (no_frame) src where "handle_length w len buf = (Ok (Some (length b)), Some (length b), src)"
      "read_frame w (length b) src = Ok None" "body_at w (Some (length b)) b (src @ rest)"
proof -
  have f: "framing_ok w" "sendable w (length b)" using assms by (auto simp: body_at_def)
  from assms consider "len = None" "buf @ rest = uvi_encode w (length b) @ snap_frame w b"
    | "len = Some (length b)" "buf @ rest = snap_frame w b" by (auto simp: body_at_def)
  then show ?thesis
  proof cases
    case 1
    from 1(2) show ?thesis
    proof (cases rule: append_cut)
      case (short r)
      then show ?thesis using no_length handle_length_part [OF f short(3,2)] 1(1) by simp
    next
      case (long m)
      then show ?thesis using no_frame [of m] handle_length_full [OF f] read_frame_part [OF f(1) long(3) [symmetric] assms(2) f(2)] 1(1) f
        by (simp add: body_at_def)
    qed
  next
    case 2
    then show ?thesis using no_frame [of buf] read_frame_part [OF f(1) 2(2) [symmetric] assms(2) f(2)] f
      by (simp add: body_at_def)
  qed
qed

section \<open>Both decoders are chunked\<close>

subsection \<open>Requests\<close>

abbreviation is_metadata :: "supported_protocol \<Rightarrow> bool" where
  "is_metadata v \<equiv> protocol_of v = MetaData"

definition request_in_bounds :: "('root, 'pl) wire \<Rightarrow> inbound_codec \<Rightarrow> bytes \<Rightarrow> bool" where
  "request_in_bounds w c b \<longleftrightarrow> \<not> is_out_of_bounds
     (rpc_request_limits (wire_sizes w) (ic_chain_config c) (current_fork_name (ic_fork_context c))
        (protocol_of (ic_version c))) (length b) (ic_max_packet_size c)"

definition awaiting_request :: "('root, 'pl) wire \<Rightarrow> inbound_codec \<Rightarrow> bytes \<Rightarrow> 'root request_type \<Rightarrow> bool" where
  "awaiting_request w c bs r \<longleftrightarrow> \<not> is_metadata (ic_version c) \<and>
     (\<exists>b. body_at w (ic_len c) b bs \<and> request_in_bounds w c b \<and>
        handle_rpc_request w (ic_chain_config c) (ic_version c) b (current_fork_name (ic_fork_context c)) = Ok (Some r))"

definition inbound_reset :: "inbound_codec \<Rightarrow> inbound_codec" where
  "inbound_reset c = c\<lparr>ic_len := None\<rparr>"

lemma inbound_decode_eq:
  "\<not> is_metadata (ic_version c) \<Longrightarrow> inbound_decode w c src =
     (let (r, l, src) = handle_length w (ic_len c) src; c = c\<lparr>ic_len := l\<rparr> in
      case r of
        Err e \<Rightarrow> (Err e, c, src)
      | Ok None \<Rightarrow> (Ok None, c, src)
      | Ok (Some n) \<Rightarrow>
          if is_out_of_bounds
               (rpc_request_limits (wire_sizes w) (ic_chain_config c) (current_fork_name (ic_fork_context c))
                  (protocol_of (ic_version c))) n (ic_max_packet_size c)
          then (Err (InvalidData ''RPC request length is out of bounds''), c, src)
          else
            (case read_frame w n src of
               Err e \<Rightarrow> (Err e, c, src)
             | Ok None \<Rightarrow> (Ok None, c, src)
             | Ok (Some (decoded_buffer, k)) \<Rightarrow>
                 (handle_rpc_request w (ic_chain_config c) (ic_version c) decoded_buffer
                    (current_fork_name (ic_fork_context c)),
                  c\<lparr>ic_len := None\<rparr>, drop k src)))"
  unfolding inbound_decode_def by (rule if_not_P [THEN trans], fastforce)+ (rule refl)

interpretation request_stream: chunked "inbound_decode w" "awaiting_request w" inbound_reset for w :: "('root, 'pl) wire"
proof
  fix c :: inbound_codec and buf rest :: bytes and x :: "'root request_type"
  assume a: "awaiting_request w c (buf @ rest) x" "rest \<noteq> []"
  then obtain b where b: "body_at w (ic_len c) b (buf @ rest)" "request_in_bounds w c b"
    "handle_rpc_request w (ic_chain_config c) (ic_version c) b (current_fork_name (ic_fork_context c)) = Ok (Some x)"
    and v: "\<not> is_metadata (ic_version c)"
    by (auto simp: awaiting_request_def)
  from b(1) a(2) show "\<exists>c' buf'. inbound_decode w c buf = (Ok None, c', buf') \<and> awaiting_request w c' (buf' @ rest) x
      \<and> inbound_reset c' = inbound_reset c"
  proof (cases rule: body_part)
    case no_length
    then show ?thesis using a(1)
      by (simp add: inbound_decode_eq [OF v] awaiting_request_def request_in_bounds_def inbound_reset_def)
  next
    case (no_frame src)
    then show ?thesis using b(2,3) v
      by (auto simp: inbound_decode_eq [OF v] request_in_bounds_def awaiting_request_def inbound_reset_def)
  qed
next
  fix c :: inbound_codec and bs later :: bytes and x :: "'root request_type"
  assume "awaiting_request w c bs x"
  then obtain b where b: "body_at w (ic_len c) b bs" "request_in_bounds w c b"
    "handle_rpc_request w (ic_chain_config c) (ic_version c) b (current_fork_name (ic_fork_context c)) = Ok (Some x)"
    and v: "\<not> is_metadata (ic_version c)"
    by (auto simp: awaiting_request_def)
  from b(1) obtain k src where "handle_length w (ic_len c) (bs @ later) = (Ok (Some (length b)), Some (length b), src)"
    "read_frame w (length b) src = Ok (Some (b, k))" "drop k src = later" by (rule body_full)
  then show "inbound_decode w c (bs @ later) = (Ok (Some x), inbound_reset c, later)"
    using b(2,3) by (simp add: inbound_decode_eq [OF v] request_in_bounds_def inbound_reset_def)
qed

subsection \<open>Responses\<close>

definition response_in_bounds :: "('root, 'pl) wire \<Rightarrow> outbound_codec \<Rightarrow> bytes \<Rightarrow> bool" where
  "response_in_bounds w c b \<longleftrightarrow> \<not> is_out_of_bounds
     (rpc_response_limits (wire_sizes w) (current_fork_name (oc_fork_context c)) (protocol_of (oc_version c)))
     (length b) (oc_max_packet_size c)"

definition error_in_bounds :: "outbound_codec \<Rightarrow> bytes \<Rightarrow> bool" where
  "error_in_bounds c b \<longleftrightarrow> length b \<le> oc_max_packet_size c \<and> length b \<le> ERROR_TYPE_MAX"

text \<open>What a code, context bytes and body mean, and the fork the context bytes name.\<close>

definition chunk_means ::
    "('root, 'pl) wire \<Rightarrow> outbound_codec \<Rightarrow> 8 word \<Rightarrow> bytes \<Rightarrow> phase option \<Rightarrow> bytes \<Rightarrow> 'pl rpc_response \<Rightarrow> bool" where
  "chunk_means w c code ctx fork b x \<longleftrightarrow>
     (if is_response code then
        response_in_bounds w c b \<and>
        (if has_context_bytes (oc_version c)
         then length ctx = CONTEXT_BYTES_LEN \<and> b \<noteq> [] \<and>
              (\<exists>p. fork = Some p \<and> context_bytes_to_phase ctx (oc_fork_context c) = Ok p)
         else ctx = [] \<and> fork = None) \<and>
        (\<exists>r. x = Success r \<and> handle_rpc_response w (oc_version c) b fork = Ok (Some r))
      else
        error_in_bounds c b \<and> ctx = [] \<and> fork = None \<and>
        (\<exists>e. ssz_read (error_ssz w) b = Some e \<and> x = rpc_response_from_error code e))"

text \<open>How far the part after the code has been read.\<close>

definition chunk_at ::
    "('root, 'pl) wire \<Rightarrow> outbound_codec \<Rightarrow> bytes \<Rightarrow> phase option \<Rightarrow> bytes \<Rightarrow> bytes \<Rightarrow> bool" where
  "chunk_at w c ctx fork b bs \<longleftrightarrow>
     oc_phase c = None \<and> oc_len c = None \<and> (\<exists>bs'. bs = ctx @ bs' \<and> body_at w None b bs')
     \<or> oc_phase c = fork \<and> body_at w (oc_len c) b bs"

definition awaiting_response :: "('root, 'pl) wire \<Rightarrow> outbound_codec \<Rightarrow> bytes \<Rightarrow> 'pl rpc_response \<Rightarrow> bool" where
  "awaiting_response w c bs x \<longleftrightarrow>
     (\<exists>code ctx fork b. chunk_means w c code ctx fork b x \<and>
        (case current_response_code c of
           None \<Rightarrow> (\<exists>bs'. bs = code # bs' \<and> oc_phase c = None \<and> oc_len c = None \<and> chunk_at w c ctx fork b bs')
         | Some code' \<Rightarrow> code' = code \<and> b \<noteq> [] \<and> chunk_at w c ctx fork b bs))"

definition outbound_reset :: "outbound_codec \<Rightarrow> outbound_codec" where
  "outbound_reset c = c\<lparr>oc_len := None, oc_phase := None, current_response_code := None\<rparr>"

text \<open>The fields that decoding never changes.\<close>

lemma chunk_means_cong:
  "oc_protocol c' = oc_protocol c \<Longrightarrow> oc_max_packet_size c' = oc_max_packet_size c \<Longrightarrow>
   oc_fork_context c' = oc_fork_context c \<Longrightarrow> chunk_means w c' = chunk_means w c"
  by (intro ext) (simp add: chunk_means_def response_in_bounds_def error_in_bounds_def)

lemma outbound_reset_cong:
  "outbound_reset c' = outbound_reset c \<Longrightarrow> oc_protocol c' = oc_protocol c \<and> oc_max_packet_size c' = oc_max_packet_size c
     \<and> oc_fork_context c' = oc_fork_context c"
  by (cases c; cases c') (simp add: outbound_reset_def)

lemma chunk_atD:
  assumes "chunk_at w c ctx fork b bs"
  obtains (before) bs' where "oc_phase c = None" "oc_len c = None" "bs = ctx @ bs'" "body_at w None b bs'"
  | (inside) "oc_phase c = fork" "body_at w (oc_len c) b bs"
  using assms by (auto simp: chunk_at_def)

lemma read_context_skip:
  "\<not> has_context_bytes (oc_version c) \<or> oc_phase c \<noteq> None \<Longrightarrow> read_context c src = (Ok True, c, src)"
  by (auto simp: read_context_def)

lemma read_context_full:
  "has_context_bytes (oc_version c) \<Longrightarrow> oc_phase c = None \<Longrightarrow> length ctx = CONTEXT_BYTES_LEN \<Longrightarrow>
   context_bytes_to_phase ctx (oc_fork_context c) = Ok p \<Longrightarrow>
   read_context c (ctx @ src) = (Ok True, c\<lparr>oc_phase := Some p\<rparr>, src)"
  by (simp add: read_context_def)

lemma read_context_part:
  "has_context_bytes (oc_version c) \<Longrightarrow> oc_phase c = None \<Longrightarrow> length src < CONTEXT_BYTES_LEN \<Longrightarrow>
   read_context c src = (Ok False, c, src)"
  by (simp add: read_context_def)

lemma decode_response_part:
  assumes "read_context c src = (Ok True, c1, src1)" "body_at w (oc_len c1) b (src1 @ rest)" "rest \<noteq> []"
    "response_in_bounds w c1 b"
  shows "\<exists>l src'. decode_response w c src = (Ok None, c1\<lparr>oc_len := l\<rparr>, src') \<and> body_at w l b (src' @ rest)"
  using assms(2,3)
proof (cases rule: body_part)
  case no_length
  then show ?thesis using assms by (auto simp: decode_response_def)
next
  case (no_frame src2)
  then show ?thesis using assms by (auto simp: decode_response_def response_in_bounds_def)
qed

lemma decode_response_full:
  assumes "read_context c src = (Ok True, c1, bs @ later)" "body_at w (oc_len c1) b bs" "response_in_bounds w c1 b"
  shows "decode_response w c src =
    (handle_rpc_response w (oc_version c1) b (oc_phase c1), c1\<lparr>oc_len := None, oc_phase := None\<rparr>, later)"
proof -
  from assms(2) obtain k src2 where
    "handle_length w (oc_len c1) (bs @ later) = (Ok (Some (length b)), Some (length b), src2)"
    "read_frame w (length b) src2 = Ok (Some (b, k))" "drop k src2 = later" by (rule body_full)
  then show ?thesis using assms by (simp add: decode_response_def response_in_bounds_def)
qed

lemma decode_error_part:
  assumes "body_at w (oc_len c) b (src @ rest)" "rest \<noteq> []" "error_in_bounds c b"
  shows "\<exists>l src'. decode_error w c src = (Ok None, c\<lparr>oc_len := l\<rparr>, src') \<and> body_at w l b (src' @ rest)"
  using assms(1,2)
proof (cases rule: body_part)
  case no_length
  then show ?thesis using assms by (auto simp: decode_error_def)
next
  case (no_frame src2)
  then show ?thesis using assms by (auto simp: decode_error_def error_in_bounds_def not_less)
qed

lemma decode_error_full:
  assumes "body_at w (oc_len c) b bs" "error_in_bounds c b" "ssz_read (error_ssz w) b = Some e"
  shows "decode_error w c (bs @ later) = (Ok (Some e), c\<lparr>oc_len := None\<rparr>, later)"
proof -
  from assms(1) obtain k src2 where
    "handle_length w (oc_len c) (bs @ later) = (Ok (Some (length b)), Some (length b), src2)"
    "read_frame w (length b) src2 = Ok (Some (b, k))" "drop k src2 = later" by (rule body_full)
  then show ?thesis using assms(2,3)
    by (simp add: decode_error_def error_in_bounds_def from_ssz_def not_less)
qed

text \<open>The context bytes, if any, and how the reader leaves them.\<close>

lemma success_context:
  assumes "chunk_means w c code ctx fork b x" "is_response code" "chunk_at w c ctx fork b bs" "src @ rest = bs @ later"
  obtains (all_there) src1 bs1 where "read_context c src = (Ok True, c\<lparr>oc_phase := fork\<rparr>, src1)"
      "body_at w (oc_len c) b bs1" "src1 @ rest = bs1 @ later"
  | (missing) "read_context c src = (Ok False, c, src)" "length src < length bs"
proof (cases "has_context_bytes (oc_version c) \<and> oc_phase c = None")
  case False
  then have "oc_phase c = fork" "body_at w (oc_len c) b bs"
    using assms by (auto simp: chunk_means_def chunk_at_def split: if_splits)
  moreover from this have "c\<lparr>oc_phase := fork\<rparr> = c" by (cases c) simp
  ultimately show ?thesis using all_there [of src bs] False read_context_skip [of c src] assms(4) by auto
next
  case True
  then obtain p where p: "length ctx = CONTEXT_BYTES_LEN" "fork = Some p"
    "context_bytes_to_phase ctx (oc_fork_context c) = Ok p" using assms(1,2) by (auto simp: chunk_means_def)
  from assms(3) True p obtain bs' where bs': "oc_len c = None" "bs = ctx @ bs'" "body_at w None b bs'"
    by (auto simp: chunk_at_def)
  from assms(4) bs'(2) have "src @ rest = ctx @ bs' @ later" by simp
  then show ?thesis
  proof (cases rule: append_cut)
    case (short r)
    have "length src < CONTEXT_BYTES_LEN" "length src < length bs" using short(1) p(1) bs'(2) by simp_all
    then show ?thesis using missing [OF read_context_part] True by simp
  next
    case (long m)
    then show ?thesis using all_there [of m bs'] read_context_full [OF _ _ p(1,3), of m] True p(2) bs' by simp
  qed
qed

lemma decode_chunk_part:
  assumes "chunk_means w c code ctx fork b x" "chunk_at w c ctx fork b (buf @ rest)" "rest \<noteq> []"
  shows "\<exists>f l buf'. decode_chunk w code c buf = (Ok None, c\<lparr>oc_phase := f, oc_len := l\<rparr>, buf')
           \<and> chunk_at w (c\<lparr>oc_phase := f, oc_len := l\<rparr>) ctx fork b (buf' @ rest)"
proof (cases "is_response code")
  case True
  have e: "buf @ rest = (buf @ rest) @ []" by simp
  from assms(1) True assms(2) e show ?thesis
  proof (cases rule: success_context)
    case (all_there src1 bs1)
    have "body_at w (oc_len (c\<lparr>oc_phase := fork\<rparr>)) b (src1 @ rest)" "response_in_bounds w (c\<lparr>oc_phase := fork\<rparr>) b"
      using all_there assms(1) True by (simp_all add: chunk_means_def response_in_bounds_def)
    from decode_response_part [OF all_there(1) this(1) assms(3) this(2)] obtain l src' where
      "decode_response w c buf = (Ok None, c\<lparr>oc_phase := fork, oc_len := l\<rparr>, src')" "body_at w l b (src' @ rest)" by auto
    then have "decode_chunk w code c buf = (Ok None, c\<lparr>oc_phase := fork, oc_len := l\<rparr>, src')
       \<and> chunk_at w (c\<lparr>oc_phase := fork, oc_len := l\<rparr>) ctx fork b (src' @ rest)"
      using True by (simp add: decode_chunk_def chunk_at_def)
    then show ?thesis by blast
  next
    case missing
    then have "decode_chunk w code c buf = (Ok None, c, buf)" using True by (simp add: decode_chunk_def decode_response_def)
    moreover have "c\<lparr>oc_phase := oc_phase c, oc_len := oc_len c\<rparr> = c" by simp
    ultimately show ?thesis using assms(2) by metis
  qed
next
  case False
  then have "error_in_bounds c b" "oc_phase c = None" "ctx = []" "fork = None" "body_at w (oc_len c) b (buf @ rest)"
    using assms by (auto simp: chunk_means_def chunk_at_def)
  from decode_error_part [OF this(5) assms(3) this(1)] this obtain l src' where
    "decode_error w c buf = (Ok None, c\<lparr>oc_len := l\<rparr>, src')" "body_at w l b (src' @ rest)" "c\<lparr>oc_phase := None\<rparr> = c" "oc_phase c = None" "fork = None"
    by (cases c) auto
  then have "decode_chunk w code c buf = (Ok None, c\<lparr>oc_phase := None, oc_len := l\<rparr>, src')
      \<and> chunk_at w (c\<lparr>oc_phase := None, oc_len := l\<rparr>) ctx fork b (src' @ rest)"
    using False by (simp add: decode_chunk_def chunk_at_def)
  then show ?thesis by blast
qed

lemma decode_chunk_full:
  assumes "chunk_means w c code ctx fork b x" "chunk_at w c ctx fork b bs"
  shows "decode_chunk w code c (bs @ later) = (Ok (Some x), c\<lparr>oc_len := None, oc_phase := None\<rparr>, later)"
proof (cases "is_response code")
  case True
  have e: "(bs @ later) @ [] = bs @ later" by simp
  from assms(1) True assms(2) e show ?thesis
  proof (cases rule: success_context)
    case (all_there src1 bs1)
    have "body_at w (oc_len (c\<lparr>oc_phase := fork\<rparr>)) b bs1" "response_in_bounds w (c\<lparr>oc_phase := fork\<rparr>) b" "src1 = bs1 @ later"
      using all_there assms(1) True by (simp_all add: chunk_means_def response_in_bounds_def)
    from decode_response_full [OF all_there(1) [unfolded this(3)] this(1,2)] assms(1) True show ?thesis
      by (auto simp: decode_chunk_def chunk_means_def)
  qed simp
next
  case False
  then obtain e where e: "error_in_bounds c b" "oc_phase c = None" "body_at w (oc_len c) b bs"
    "ssz_read (error_ssz w) b = Some e" "x = rpc_response_from_error code e"
    using assms by (auto simp: chunk_means_def chunk_at_def)
  then have "c\<lparr>oc_len := None, oc_phase := None\<rparr> = c\<lparr>oc_len := None\<rparr>" by (cases c) simp
  then show ?thesis using False decode_error_full [OF e(3,1,4)] e(5) by (simp add: decode_chunk_def)
qed

lemma chunk_at_shorter:
  assumes "chunk_at w c ctx fork b bs" "b \<noteq> []"
  shows "2 \<le> length bs"
proof -
  have "2 \<le> length bs'" if "body_at w l b bs'" for l bs'
    using that framing(5) [of w b] assms(2) by (auto simp: body_at_def)
  from assms(1) this show ?thesis by (cases rule: chunk_atD) (auto intro: trans_le_add2)
qed

lemma chunk_at_empty:
  "chunk_at w c [] None [] bs \<Longrightarrow> oc_len c = None \<Longrightarrow> length bs = 1"
  using framing(3,4) [of w] by (auto simp: chunk_at_def body_at_def)

lemma outbound_decode_coded:
  "current_response_code c = Some code \<Longrightarrow> 2 \<le> length src \<Longrightarrow> decode_chunk w code c src = (r, c', src') \<Longrightarrow>
   outbound_decode w c src = (r, (case r of Ok (Some _) \<Rightarrow> c'\<lparr>current_response_code := None\<rparr> | _ \<Rightarrow> c'), src')"
  by (simp add: outbound_decode_def)

lemma outbound_decode_fresh:
  "current_response_code c = None \<Longrightarrow> src \<noteq> [] \<Longrightarrow>
   decode_chunk w code (c\<lparr>current_response_code := Some code\<rparr>) src = (r, c', src') \<Longrightarrow>
   outbound_decode w c (code # src) = (r, (case r of Ok (Some _) \<Rightarrow> c'\<lparr>current_response_code := None\<rparr> | _ \<Rightarrow> c'), src')"
  by (cases src) (simp_all add: outbound_decode_def)

lemma chunk_frame [simp]:
  "chunk_means w (c\<lparr>current_response_code := z\<rparr>) = chunk_means w c"
  "chunk_means w (c\<lparr>oc_phase := f\<rparr>) = chunk_means w c" "chunk_means w (c\<lparr>oc_len := l\<rparr>) = chunk_means w c"
  "chunk_at w (c\<lparr>current_response_code := z\<rparr>) = chunk_at w c"
  by (rule chunk_means_cong; simp)+ (intro ext, simp add: chunk_at_def)

lemma awaiting_coded:
  "current_response_code c = Some code \<Longrightarrow> chunk_means w c code ctx fork b x \<Longrightarrow> b \<noteq> [] \<Longrightarrow>
   chunk_at w c ctx fork b bs \<Longrightarrow> awaiting_response w c bs x"
  unfolding awaiting_response_def by fastforce

lemma response_part:
  assumes "awaiting_response w c (buf @ rest) x" "rest \<noteq> []"
  shows "\<exists>c' buf'. outbound_decode w c buf = (Ok None, c', buf') \<and> awaiting_response w c' (buf' @ rest) x
           \<and> outbound_reset c' = outbound_reset c"
proof (cases "length buf \<le> 1")
  case True
  then show ?thesis using assms by (simp add: outbound_decode_def)
next
  case False
  then have long: "2 \<le> length buf" by simp
  from assms(1) obtain code ctx fork b where m: "chunk_means w c code ctx fork b x" and
    a: "case current_response_code c of
           None \<Rightarrow> (\<exists>bs'. buf @ rest = code # bs' \<and> oc_phase c = None \<and> oc_len c = None \<and> chunk_at w c ctx fork b bs')
         | Some code' \<Rightarrow> code' = code \<and> b \<noteq> [] \<and> chunk_at w c ctx fork b (buf @ rest)"
    unfolding awaiting_response_def by blast
  show ?thesis
  proof (cases "current_response_code c")
    case None
    from long obtain buf1 where buf: "buf = code # buf1" "buf1 \<noteq> []" "chunk_at w c ctx fork b (buf1 @ rest)" "oc_len c = None"
      using a None by (cases buf; cases "tl buf") auto
    let ?c = "c\<lparr>current_response_code := Some code\<rparr>"
    have "b \<noteq> []"
    proof
      assume b: "b = []"
      then have e: "ctx = []" "fork = None" using m by (auto simp: chunk_means_def split: if_splits)
      have "length (buf1 @ rest) = 1" by (rule chunk_at_empty [of w c]) (use buf(3,4) b e in simp_all)
      then show False using buf(2) assms(2) by (cases buf1; cases rest) auto
    qed
    moreover obtain f l buf' where d:
      "decode_chunk w code ?c buf1 = (Ok None, ?c\<lparr>oc_phase := f, oc_len := l\<rparr>, buf')"
      "chunk_at w (?c\<lparr>oc_phase := f, oc_len := l\<rparr>) ctx fork b (buf' @ rest)"
      using decode_chunk_part [of w ?c code ctx fork b x buf1 rest] m buf(3) assms(2) by auto
    ultimately have "awaiting_response w (?c\<lparr>oc_phase := f, oc_len := l\<rparr>) (buf' @ rest) x"
      using m by (intro awaiting_coded [of _ code w ctx fork b]) simp_all
    moreover have "outbound_decode w c buf = (Ok None, ?c\<lparr>oc_phase := f, oc_len := l\<rparr>, buf')"
      using outbound_decode_fresh [OF None buf(2) d(1)] buf(1) by simp
    moreover have "outbound_reset (?c\<lparr>oc_phase := f, oc_len := l\<rparr>) = outbound_reset c"
      by (simp add: outbound_reset_def)
    ultimately show ?thesis by blast
  next
    case (Some code')
    with a have a': "code' = code" "b \<noteq> []" "chunk_at w c ctx fork b (buf @ rest)" by auto
    from decode_chunk_part [OF m a'(3) assms(2)] obtain f l buf' where d:
      "decode_chunk w code c buf = (Ok None, c\<lparr>oc_phase := f, oc_len := l\<rparr>, buf')"
      "chunk_at w (c\<lparr>oc_phase := f, oc_len := l\<rparr>) ctx fork b (buf' @ rest)" by auto
    have "awaiting_response w (c\<lparr>oc_phase := f, oc_len := l\<rparr>) (buf' @ rest) x"
      using m Some a'(1,2) d(2) by (intro awaiting_coded [of _ code w ctx fork b]) simp_all
    moreover have "outbound_decode w c buf = (Ok None, c\<lparr>oc_phase := f, oc_len := l\<rparr>, buf')"
      using outbound_decode_coded [OF Some long, of w] d(1) a'(1) by simp
    moreover have "outbound_reset (c\<lparr>oc_phase := f, oc_len := l\<rparr>) = outbound_reset c"
      by (simp add: outbound_reset_def)
    ultimately show ?thesis by blast
  qed
qed

lemma awaiting_response_longer: "awaiting_response w c bs x \<Longrightarrow> 2 \<le> length bs"
proof -
  assume "awaiting_response w c bs x"
  then obtain code ctx fork b where m: "chunk_means w c code ctx fork b x" and
    a: "case current_response_code c of
           None \<Rightarrow> (\<exists>bs'. bs = code # bs' \<and> oc_phase c = None \<and> oc_len c = None \<and> chunk_at w c ctx fork b bs')
         | Some code' \<Rightarrow> code' = code \<and> b \<noteq> [] \<and> chunk_at w c ctx fork b bs"
    unfolding awaiting_response_def by blast
  show ?thesis
  proof (cases "current_response_code c")
    case None
    with a obtain bs' where bs': "bs = code # bs'" "oc_len c = None" "chunk_at w c ctx fork b bs'" by auto
    have "1 \<le> length bs'"
    proof (cases "b = []")
      case True
      then have "ctx = []" "fork = None" using m by (auto simp: chunk_means_def split: if_splits)
      then have "length bs' = 1" using chunk_at_empty [of w c bs'] bs'(2,3) True by simp
      then show ?thesis by simp
    qed (use chunk_at_shorter [OF bs'(3)] in simp)
    then show ?thesis using bs'(1) by simp
  qed (use a chunk_at_shorter [of w c ctx fork b bs] in simp)
qed

lemma response_full:
  assumes "awaiting_response w c bs x"
  shows "outbound_decode w c (bs @ later) = (Ok (Some x), outbound_reset c, later)"
proof -
  from assms obtain code ctx fork b where m: "chunk_means w c code ctx fork b x" and
    a: "case current_response_code c of
           None \<Rightarrow> (\<exists>bs'. bs = code # bs' \<and> oc_phase c = None \<and> oc_len c = None \<and> chunk_at w c ctx fork b bs')
         | Some code' \<Rightarrow> code' = code \<and> b \<noteq> [] \<and> chunk_at w c ctx fork b bs"
    unfolding awaiting_response_def by blast
  note long = awaiting_response_longer [OF assms]
  show ?thesis
  proof (cases "current_response_code c")
    case None
    let ?c = "c\<lparr>current_response_code := Some code\<rparr>"
    from a None obtain bs' where bs': "bs = code # bs'" "chunk_at w c ctx fork b bs'" by auto
    have d: "decode_chunk w code ?c (bs' @ later) = (Ok (Some x), ?c\<lparr>oc_len := None, oc_phase := None\<rparr>, later)"
      by (rule decode_chunk_full [of w ?c code ctx fork b x]) (use m bs'(2) in simp_all)
    have "bs' @ later \<noteq> []" using bs'(1) long by auto
    from outbound_decode_fresh [OF None this d] show ?thesis using bs'(1) by (simp add: outbound_reset_def)
  next
    case (Some code')
    then have a': "code' = code" "chunk_at w c ctx fork b bs" using a by auto
    have "2 \<le> length (bs @ later)" using long by simp
    from outbound_decode_coded [OF Some this] decode_chunk_full [OF m a'(2), of later] a'(1)
    have "outbound_decode w c (bs @ later) =
      (Ok (Some x), c\<lparr>oc_len := None, oc_phase := None, current_response_code := None\<rparr>, later)" by fastforce
    then show ?thesis by (simp add: outbound_reset_def)
  qed
qed

interpretation response_stream: chunked_stream "outbound_decode w" "awaiting_response w" outbound_reset
  for w :: "('root, 'pl) wire"
proof
  fix c :: outbound_codec and x :: "'pl rpc_response"
  show "outbound_decode w (outbound_reset c) [] = (Ok None, outbound_reset c, [])" by (simp add: outbound_decode_def)
  show "outbound_reset (outbound_reset c) = outbound_reset c" by (simp add: outbound_reset_def)
  show "\<not> awaiting_response w c [] x" using awaiting_response_longer [of w c "[]" x] by auto
qed (simp_all add: response_part response_full)

end
