(* ===== verification/CodecProperties.thy ===== *)
theory CodecProperties
  imports Codec
begin

text \<open>
  What the codec of \<open>rpc/codec.rs\<close> promises its users: requests and sequences of responses arrive as
  they were sent, in the form the negotiated protocol version carries, however the
  transport cuts the bytes; and what is decoded is within the limits of its protocol. The
  last section has an instance of the encodings and two ends that talk over it.
\<close>

section \<open>What the other side receives\<close>

text \<open>A request as the negotiated version of its protocol carries it.\<close>

fun negotiated :: "supported_protocol \<Rightarrow> 'root request_type \<Rightarrow> 'root request_type" where
  "negotiated v (StatusReq s) =
     StatusReq (if v = StatusV1 then StatusMsgV1 (status_v1 s) else StatusMsgV2 (status_v2 s))"
| "negotiated v (BlocksByRangeReq (OldRangeV1 r)) =
     BlocksByRangeReq (if v = BlocksByRangeV1 then OldRangeV1 r else OldRangeV2 r)"
| "negotiated v (BlocksByRangeReq (OldRangeV2 r)) =
     BlocksByRangeReq (if v = BlocksByRangeV1 then OldRangeV1 r else OldRangeV2 r)"
| "negotiated v (BlocksByRootReq (RootsV1 rs)) =
     BlocksByRootReq (if v = BlocksByRootV1 then RootsV1 rs else RootsV2 rs)"
| "negotiated v (BlocksByRootReq (RootsV2 rs)) =
     BlocksByRootReq (if v = BlocksByRootV1 then RootsV1 rs else RootsV2 rs)"
| "negotiated v (MetaDataReq m) =
     MetaDataReq (case v of MetaDataV1 \<Rightarrow> MetadataReqV1 | MetaDataV2 \<Rightarrow> MetadataReqV2 | _ \<Rightarrow> MetadataReqV3)"
| "negotiated v r = r"

text \<open>The list requests within the number of elements the receiver reads.\<close>

fun request_fits :: "chain_config \<Rightarrow> phase \<Rightarrow> 'root request_type \<Rightarrow> bool" where
  "request_fits cfg p (BlocksByRootReq r) \<longleftrightarrow> blocks_by_root_len r \<le> max_request_blocks cfg p"
| "request_fits cfg p (BlobsByRootReq xs) \<longleftrightarrow> length xs \<le> max_request_blob_sidecars cfg p"
| "request_fits cfg p (DataColumnsByRootReq xs) \<longleftrightarrow> length xs \<le> max_request_blocks cfg p"
| "request_fits cfg p r \<longleftrightarrow> True"

lemma to_ssz_Ok [simp]: "to_ssz t x = Ok b \<longleftrightarrow> ssz_write t x = Some b"
  by (simp add: to_ssz_def ok_or_eq_Ok)

lemma from_ssz_written: "list_ssz_ok t \<Longrightarrow> ssz_write t x = Some b \<Longrightarrow> from_ssz t b = Ok x"
  by (simp add: list_ssz_ok_def from_ssz_def)

lemma from_ssz_value: "ssz_ok t \<Longrightarrow> ssz_write t x = Some b \<Longrightarrow> from_ssz t b = Ok x"
  by (simp add: ssz_ok_def from_ssz_written)

lemma goodbye_read: "ssz_ok (u64_ssz w) \<Longrightarrow> goodbye_to_ssz w g = Ok b \<Longrightarrow> goodbye_from_ssz w b = Ok g"
  by (cases g) (simp_all add: goodbye_to_ssz_def goodbye_from_ssz_def from_ssz_value goodbye_from_u64_def)

lemma request_bytes_read:
  assumes "wire_ok w" "protocol_of v = request_protocol r" "request_ssz w v r = Some (Some (Ok b))" "request_fits cfg p r"
  shows "handle_rpc_request w cfg v b p = Ok (Some (negotiated v r))"
proof -
  note ok = assms(1) [unfolded wire_ok_def] and d = assms(2) [unfolded request_protocol_def]
  from assms(3,4) ok d show ?thesis
    by (cases "(w, v, r)" rule: request_ssz.cases; cases v)
      (simp_all add: from_ssz_value from_ssz_written from_ssz_max_def goodbye_read blocks_by_root_len_def)
qed

lemma body_at_start:
  "framing_ok w \<Longrightarrow> sendable w (length b) \<Longrightarrow> body_at w None b (uvi_encode w (length b) @ snap_frame w b)"
  by (simp add: body_at_def)

lemma encoded_nonempty: "framing_ok w \<Longrightarrow> uvi_encode w (length b) @ snap_frame w b \<noteq> []"
  using framing(3,5) [of w] by (cases "b = []") fastforce+

lemma metadata_protocol [simp]: "protocol_of (request_versioned_protocol (MetaDataReq m)) = MetaData"
  by (cases m) simp_all

lemma outbound_encode_Ok:
  assumes "outbound_encode w c r dst = Some (Ok (), out)"
  obtains (silent) "request_ssz w (oc_version c) r = Some None"
  | (body) b where "request_ssz w (oc_version c) r = Some (Some (Ok b))" "length b \<le> oc_max_packet_size c"
      "out = dst @ uvi_encode w (length b) @ snap_frame w b"
proof -
  from assms obtain z where z: "request_ssz w (oc_version c) r = Some z" by (auto simp: outbound_encode_def)
  show ?thesis
  proof (cases z)
    case None
    then show ?thesis using silent z by simp
  next
    case (Some x)
    then show ?thesis using assms z body by (cases x) (auto simp: outbound_encode_def split: if_splits)
  qed
qed

text \<open>
  C4. A request survives the way to the other side. Whatever pieces its bytes arrive in, the listener's
  upgrade gives the request as the negotiated version carries it; meta data and light client update
  requests need no bytes. The requirements are that both ends negotiated a version of the
  request's protocol, that the receiver's limits admit it (its list has no more elements than the
  receiver reads, its bytes are between the bounds of the protocol and at most the packet limit), that the
  compressor takes inputs up to the sender's packet limit, and the laws of the encodings.
\<close>

theorem request_delivered:
  assumes "wire_ok w" "oc_protocol oc = ic_protocol ic" "ic_len ic = None"
    "protocol_of (ic_version ic) = request_protocol r"
    "outbound_encode w oc r [] = Some (Ok (), concat pieces)"
    "\<forall>n \<le> oc_max_packet_size oc. sendable w n"
    "request_fits (ic_chain_config ic) (current_fork_name (ic_fork_context ic)) r"
    "\<forall>b. request_ssz w (ic_version ic) r = Some (Some (Ok b)) \<longrightarrow> request_in_bounds w ic b"
  shows "upgrade_inbound w ic ended pieces = Ok (negotiated (ic_version ic) r)"
proof -
  have f: "framing_ok w" using assms(1) by (simp add: wire_ok_def)
  from assms(5) consider "request_ssz w (ic_version ic) r = Some None"
    | b where "request_ssz w (ic_version ic) r = Some (Some (Ok b))" "length b \<le> oc_max_packet_size oc"
        "concat pieces = uvi_encode w (length b) @ snap_frame w b"
    by (rule outbound_encode_Ok) (simp_all add: assms(2))
  then show ?thesis
  proof cases
    case 1
    then show ?thesis using assms(4) unfolding request_protocol_def
      by (cases "(w, ic_version ic, r)" rule: request_ssz.cases; cases "ic_version ic") (simp_all add: upgrade_inbound_def)
  next
    case (2 b)
    have nm: "\<not> is_metadata (ic_version ic)" "ic_version ic \<notin> {LightClientOptimisticUpdateV1, LightClientFinalityUpdateV1}"
      using 2(1) assms(4) unfolding request_protocol_def
      by (cases "(w, ic_version ic, r)" rule: request_ssz.cases; cases "ic_version ic"; simp)+
    have "body_at w (ic_len ic) b (concat pieces)" using 2 assms(3,6) f body_at_start [of w b] by simp
    then have a: "awaiting_request w ic (concat pieces) (negotiated (ic_version ic) r)"
      using request_bytes_read [OF assms(1,4) 2(1) assms(7)] nm 2(1) assms(8) by (auto simp: awaiting_request_def)
    have "concat pieces \<noteq> []" using 2(3) encoded_nonempty [OF f] by simp
    with request_stream.next_item_awaited [OF a, of "[]" pieces "[]" ended]
    have "fst (next_item (inbound_decode w) ended ic [] pieces) = Got (negotiated (ic_version ic) r)" by auto
    then show ?thesis using nm by (cases "ic_version ic") (simp_all add: upgrade_inbound_def)
  qed
qed

text \<open>A response as the negotiated version of its protocol carries it.\<close>

fun received :: "chain_config \<Rightarrow> supported_protocol \<Rightarrow> 'pl rpc_response \<Rightarrow> 'pl rpc_response" where
  "received cfg v (Success (StatusResp s)) =
     Success (StatusResp (if v = StatusV1 then StatusMsgV1 (status_v1 s) else StatusMsgV2 (status_v2 s)))"
| "received cfg v (Success (MetaDataResp m)) =
     Success (MetaDataResp (case v of MetaDataV1 \<Rightarrow> metadata_v1 m | MetaDataV2 \<Rightarrow> metadata_v2 cfg m | _ \<Rightarrow> metadata_v3 cfg m))"
| "received cfg v x = x"

fun success_payload :: "'pl rpc_success_response \<Rightarrow> 'pl option" where
  "success_payload (BlocksByRangeResp b) = Some b"
| "success_payload (BlocksByRootResp b) = Some b"
| "success_payload (BlobsByRangeResp b) = Some b"
| "success_payload (BlobsByRootResp b) = Some b"
| "success_payload (DataColumnsByRangeResp c) = Some c"
| "success_payload (DataColumnsByRootResp c) = Some c"
| "success_payload (LightClientBootstrapResp b) = Some b"
| "success_payload (LightClientOptimisticUpdateResp u) = Some u"
| "success_payload (LightClientFinalityUpdateResp u) = Some u"
| "success_payload (LightClientUpdatesByRangeResp u) = Some u"
| "success_payload _ = None"

text \<open>The container a protocol serves for a slot of a fork, where it serves one.\<close>

definition light_client_kind :: "(phase \<Rightarrow> payload_kind) \<Rightarrow> phase \<Rightarrow> payload_kind option" where
  "light_client_kind kind p =
     (if p = Phase0 then None else Some (kind (if p = Bellatrix then Altair else p)))"

fun served_kind :: "supported_protocol \<Rightarrow> phase \<Rightarrow> payload_kind option" where
  "served_kind BlocksByRangeV1 p = Some (BlockKind Phase0)"
| "served_kind BlocksByRootV1 p = Some (BlockKind Phase0)"
| "served_kind BlocksByRangeV2 p = Some (BlockKind p)"
| "served_kind BlocksByRootV2 p = Some (BlockKind p)"
| "served_kind BlobsByRangeV1 p = (if Deneb \<le> p then Some BlobKind else None)"
| "served_kind BlobsByRootV1 p = (if Deneb \<le> p then Some BlobKind else None)"
| "served_kind DataColumnsByRangeV1 p = (if Fulu \<le> p then Some (ColumnKind p) else None)"
| "served_kind DataColumnsByRootV1 p = (if Fulu \<le> p then Some (ColumnKind p) else None)"
| "served_kind LightClientBootstrapV1 p = light_client_kind BootstrapKind p"
| "served_kind LightClientOptimisticUpdateV1 p = light_client_kind OptimisticKind p"
| "served_kind LightClientFinalityUpdateV1 p = light_client_kind FinalityKind p"
| "served_kind LightClientUpdatesByRangeV1 p = light_client_kind UpdateKind p"
| "served_kind _ p = None"

lemma payload_read:
  assumes "wire_ok w" "payload_to_ssz w x = Ok b" "payload_kind_of w x = k"
  shows "payload_from_ssz w k wrap b = Ok (Some (wrap x))" "b \<noteq> []"
proof -
  have "ssz_ok (payload_ssz w k)" using assms(1) by (simp add: wire_ok_def)
  then show "payload_from_ssz w k wrap b = Ok (Some (wrap x))" "b \<noteq> []" using assms(2,3)
    by (auto simp: payload_to_ssz_def payload_from_ssz_def from_ssz_value ssz_ok_def)
qed

lemma payload_response_read:
  assumes "wire_ok w" "success_protocol r = protocol_of v" "success_payload r = Some x"
    "response_ssz w cfg v (Success r) = Some (Ok b)" "served_kind v p = Some (payload_kind_of w x)"
  shows "handle_rpc_response w v b (if has_context_bytes v then Some p else None) = Ok (Some r) \<and> b \<noteq> []"
proof -
  have "payload_to_ssz w x = Ok b" using assms(3,4) by (cases r) simp_all
  note rd = payload_read [OF assms(1) this]
  from assms(5) obtain k where k: "served_kind v p = Some k" "payload_kind_of w x = k" by simp
  from assms(2,3) k(1) show ?thesis using rd(1) [OF k(2)] rd(2) [OF k(2)]
    by (cases v; cases r; cases p)
      (auto simp add: block_response_def blob_response_def column_response_def light_client_response_def
        light_client_kind_def less_eq_phase_def)
qed

lemma plain_response_read:
  assumes "wire_ok w" "success_protocol r = protocol_of v" "success_payload r = None"
    "response_ssz w cfg v (Success r) = Some (Ok b)"
  shows "\<not> has_context_bytes v \<and> (\<exists>r'. received cfg v (Success r) = Success r' \<and> handle_rpc_response w v b None = Ok (Some r'))"
proof -
  note ok = assms(1) [unfolded wire_ok_def]
  have m: "metadata_to_ssz w m = Ok b \<longleftrightarrow> (case m of MetaV1 d \<Rightarrow> ssz_write (metadata_v1_ssz w) d = Some b
     | MetaV2 d \<Rightarrow> ssz_write (metadata_v2_ssz w) d = Some b | MetaV3 d \<Rightarrow> ssz_write (metadata_v3_ssz w) d = Some b)" for m
    by (cases m) (simp_all add: metadata_to_ssz_def)
  from assms(2-4) ok show ?thesis
  proof (cases r)
    case (MetaDataResp d)
    then show ?thesis using assms(2-4) ok
      by (cases v; cases d) (simp_all add: m from_ssz_value)
  qed (cases v; simp add: from_ssz_value)+
qed

text \<open>The fork a payload belongs to by its slot.\<close>

definition slot_phase :: "('root, 'pl) wire \<Rightarrow> fork_config \<Rightarrow> 'pl \<Rightarrow> phase" where
  "slot_phase w fcfg x =
     phase_at_epoch fcfg (last (filter (\<lambda>k. k \<le> epoch_at_slot w (payload_slot w x)) (schedule fcfg)))"

text \<open>Responses within the receiver's limits, of the protocol and in the variant of the fork of their slot.\<close>

definition response_fits ::
    "('root, 'pl) wire \<Rightarrow> fork_config \<Rightarrow> inbound_codec \<Rightarrow> outbound_codec \<Rightarrow> 'pl rpc_response \<Rightarrow> bool" where
  "response_fits w fcfg ic oc x \<longleftrightarrow>
     (case x of
        Success r \<Rightarrow>
          success_protocol r = protocol_of (ic_version ic) \<and>
          (\<forall>b. response_ssz w (ic_chain_config ic) (ic_version ic) x = Some (Ok b) \<longrightarrow> response_in_bounds w oc b) \<and>
          (\<forall>pl. success_payload r = Some pl \<longrightarrow>
             served_kind (ic_version ic) (slot_phase w fcfg pl) = Some (payload_kind_of w pl))
      | _ \<Rightarrow> (\<forall>b. response_ssz w (ic_chain_config ic) (ic_version ic) x = Some (Ok b) \<longrightarrow> error_in_bounds oc b))"

lemma success_slot_payload: "success_slot f r = map_option f (success_payload r)"
  by (cases r) simp_all

lemma received_payload: "success_payload r = Some x \<Longrightarrow> received cfg v (Success r) = Success r"
  by (cases r) simp_all

lemma error_code_roundtrip:
  "\<not> is_response (error_response_as_u8 code)" "rpc_response_from_error (error_response_as_u8 code) e = ErrorResp code e"
  by (cases code; simp add: is_response_def rpc_response_from_error_def)+

text \<open>Both ends know the same schedule, so the receiver finds the fork the sender's context bytes name.\<close>

lemma context_bytes_agree:
  assumes "fork_context_new fcfg e1 = Some ctx1" "fork_context_new fcfg e2 = Some ctx2"
    "inj_on (compute_fork_digest fcfg) (set (scheduled_epochs fcfg))" "\<forall>e. length (compute_fork_digest fcfg e) = CONTEXT_BYTES_LEN"
    "context_bytes_at ctx1 ep = Some d"
  shows "context_bytes_to_phase d ctx2 = Ok (phase_at_epoch fcfg (last (filter (\<lambda>k. k \<le> ep) (schedule fcfg))))"
    "length d = CONTEXT_BYTES_LEN"
proof -
  have same: "epoch_to_forks ctx1 = epoch_to_forks ctx2" "epoch_to_forks ctx1 = map (\<lambda>k. (k, fork_at fcfg k)) (schedule fcfg)"
    using assms(1,2) by (auto simp: fork_context_new_eq split: if_splits)
  show "context_bytes_to_phase d ctx2 = Ok (phase_at_epoch fcfg (last (filter (\<lambda>k. k \<le> ep) (schedule fcfg))))"
    using context_bytes_named [OF assms(1,3,5)] same(1)
    by (auto simp: context_bytes_to_phase_def get_fork_from_context_bytes_def)
  show "length d = CONTEXT_BYTES_LEN" using assms(4,5)
    by (auto simp: context_bytes_at_def bt_range_to_def same(2) last_opt_eq last_map filter_map comp_def fork_at_fields
        split: if_splits)
qed

lemma encode_response_Ok:
  assumes "inbound_encode w c x dst = Some (Ok (), bs)"
  obtains code b d where "rpc_response_as_u8 x = Some code" "response_ssz w (ic_chain_config c) (ic_version c) x = Some (Ok b)"
    "length b \<le> ic_max_packet_size c" "context_bytes w (ic_version c) (ic_fork_context c) x = Some d"
    "bs = code # (case d of None \<Rightarrow> [] | Some ctx \<Rightarrow> ctx) @ uvi_encode w (length b) @ snap_frame w b"
  using assms
  by (auto simp: inbound_encode_def encode_response_def split: option.splits sum.splits if_splits)

lemma error_awaited:
  assumes "wire_ok w" "\<not> is_response code" "oc_phase oc = None" "oc_len oc = None" "current_response_code oc = None"
    "error_in_bounds oc b" "ssz_write (error_ssz w) e = Some b" "sendable w (length b)"
  shows "awaiting_response w oc (code # uvi_encode w (length b) @ snap_frame w b) (rpc_response_from_error code e)"
proof -
  have "framing_ok w" "list_ssz_ok (error_ssz w)" using assms(1) by (simp_all add: wire_ok_def)
  then have "chunk_at w oc [] None b (uvi_encode w (length b) @ snap_frame w b)"
    "chunk_means w oc code [] None b (rpc_response_from_error code e)"
    using assms body_at_start [of w b] by (auto simp: chunk_at_def chunk_means_def list_ssz_ok_def)
  then show ?thesis using assms(3-5) unfolding awaiting_response_def by fastforce
qed

lemma success_awaited:
  assumes "wire_ok w" "oc_phase oc = None" "oc_len oc = None" "current_response_code oc = None"
    "response_in_bounds w oc b" "sendable w (length b)"
    "if has_context_bytes (oc_version oc)
     then length ctx = CONTEXT_BYTES_LEN \<and> b \<noteq> [] \<and> fork = Some p \<and> context_bytes_to_phase ctx (oc_fork_context oc) = Ok p
     else ctx = [] \<and> fork = None"
    "handle_rpc_response w (oc_version oc) b fork = Ok (Some r)"
  shows "awaiting_response w oc (0 # ctx @ uvi_encode w (length b) @ snap_frame w b) (Success r)"
proof -
  have "framing_ok w" using assms(1) by (simp add: wire_ok_def)
  then have "chunk_at w oc ctx fork b (ctx @ uvi_encode w (length b) @ snap_frame w b)"
    using assms(2,3,6) body_at_start [of w b] by (simp add: chunk_at_def)
  moreover have "chunk_means w oc 0 ctx fork b (Success r)"
    using assms(5,7,8) by (auto simp: chunk_means_def is_response_def)
  ultimately show ?thesis using assms(2-4) unfolding awaiting_response_def by fastforce
qed

lemma response_awaited:
  assumes "wire_ok w" "fork_context_new fcfg e1 = Some (ic_fork_context ic)" "fork_context_new fcfg e2 = Some (oc_fork_context oc)"
    "inj_on (compute_fork_digest fcfg) (set (scheduled_epochs fcfg))" "\<forall>e. length (compute_fork_digest fcfg e) = CONTEXT_BYTES_LEN"
    "oc_protocol oc = ic_protocol ic" "outbound_reset oc = oc" "\<forall>n \<le> ic_max_packet_size ic. sendable w n"
    "inbound_encode w ic x dst = Some (Ok (), bs)" "response_fits w fcfg ic oc x"
  shows "awaiting_response w oc bs (received (ic_chain_config ic) (ic_version ic) x)"
proof -
  let ?v = "ic_version ic" and ?cfg = "ic_chain_config ic"
  have oc: "oc_phase oc = None" "oc_len oc = None" "current_response_code oc = None"
    using assms(7) by (cases oc; simp add: outbound_reset_def)+
  from assms(9) obtain code b d where e: "rpc_response_as_u8 x = Some code" "response_ssz w ?cfg ?v x = Some (Ok b)"
    "length b \<le> ic_max_packet_size ic" "context_bytes w ?v (ic_fork_context ic) x = Some d"
    "bs = code # (case d of None \<Rightarrow> [] | Some ctx \<Rightarrow> ctx) @ uvi_encode w (length b) @ snap_frame w b"
    by (rule encode_response_Ok)
  have len: "sendable w (length b)" using e(3) assms(8) by simp
  show ?thesis
  proof (cases x)
    case (ErrorResp c m)
    have "d = None" using e(4) ErrorResp by (auto simp: context_bytes_def split: if_splits)
    then show ?thesis using error_awaited [OF assms(1) error_code_roundtrip(1) oc _ _ len, of m c] e assms(10) ErrorResp
      by (simp add: response_fits_def error_code_roundtrip(2))
  next
    case (Success r)
    have ib: "response_in_bounds w oc b" and pr: "success_protocol r = protocol_of ?v" and code: "code = 0"
      using assms(10) e(1,2) Success by (auto simp: response_fits_def)
    show ?thesis
    proof (cases "success_payload r")
      case None
      from plain_response_read [OF assms(1) pr None] e(2) Success obtain r' where
        r': "\<not> has_context_bytes ?v" "received ?cfg ?v x = Success r'" "handle_rpc_response w ?v b None = Ok (Some r')" by auto
      have "d = None" using e(4) r'(1) by (simp add: context_bytes_def)
      then show ?thesis using success_awaited [OF assms(1) oc ib len, of "[]" None _ r'] r' e(5) code assms(6) by simp
    next
      case (Some pl)
      have rd: "handle_rpc_response w ?v b (if has_context_bytes ?v then Some (slot_phase w fcfg pl) else None) = Ok (Some r)"
        "b \<noteq> []"
        using payload_response_read [OF assms(1) pr Some, of ?cfg b] e(2) assms(10) Success Some
        by (auto simp: response_fits_def)
      have "if has_context_bytes ?v
         then \<exists>ctx. d = Some ctx \<and> length ctx = CONTEXT_BYTES_LEN \<and>
                context_bytes_to_phase ctx (oc_fork_context oc) = Ok (slot_phase w fcfg pl) else d = None"
        using e(4) Success Some context_bytes_agree [OF assms(2-5)]
        by (auto simp: context_bytes_def success_slot_payload slot_phase_def)
      then show ?thesis
        using success_awaited [OF assms(1) oc ib len, of "case d of None \<Rightarrow> [] | Some ctx \<Rightarrow> ctx"
            "if has_context_bytes ?v then Some (slot_phase w fcfg pl) else None" "slot_phase w fcfg pl" r] rd e(5) code assms(6)
          received_payload [OF Some] Success
        by (auto split: if_splits)
    qed
  qed (use e(1) in simp)
qed

text \<open>
  C3. A sequence of responses survives the way back. The sender encodes each response as a chunk on one
  stream; whatever pieces the bytes arrive in, the requester decodes exactly these responses in
  order, each as the negotiated version carries it, and the stream then ends without error.
  Both ends follow the same fork schedule, possibly at different epochs, the digests of the
  schedule differ, each payload is of the fork of its slot, the chunks are within the receiver's
  limits, and the compressor takes inputs up to the sender's packet limit; one more poll than responses is
  enough.
\<close>

theorem responses_delivered:
  assumes "wire_ok w" "fork_context_new fcfg e1 = Some (ic_fork_context ic)" "fork_context_new fcfg e2 = Some (oc_fork_context oc)"
    "inj_on (compute_fork_digest fcfg) (set (scheduled_epochs fcfg))" "\<forall>e. length (compute_fork_digest fcfg e) = CONTEXT_BYTES_LEN"
    "oc_protocol oc = ic_protocol ic" "outbound_reset oc = oc" "\<forall>n \<le> ic_max_packet_size ic. sendable w n"
    "list_all2 (\<lambda>x bs. inbound_encode w ic x [] = Some (Ok (), bs)) xs bss"
    "\<forall>x \<in> set xs. response_fits w fcfg ic oc x" "concat pieces = concat bss"
  shows "all_items (outbound_decode w) (Suc (length xs)) oc [] pieces
           = Some (map (received (ic_chain_config ic) (ic_version ic)) xs, None)"
proof -
  have "list_all2 (awaiting_response w (outbound_reset oc)) bss (map (received (ic_chain_config ic) (ic_version ic)) xs)"
    using assms(9,10)
    by (induction xs bss rule: list_all2_induct) (simp_all add: assms(7) response_awaited [OF assms(1-8)])
  from response_stream.all_items_awaited [OF this, of "[]" pieces "Suc (length xs)"] show ?thesis
    by (simp add: assms(7,11))
qed

text \<open>
  C31. Nothing outside the limits is accepted: a decoded request comes from a body whose length is between
  the bounds of its protocol and at most the packet limit, and its lists have no more elements than
  the configuration allows. It is required that \<open>read_exact\<close> fills its buffer.
\<close>

theorem decoded_request_bounded:
  assumes "\<forall>src n b k. snap_read w src n = (Ok b, k) \<longrightarrow> length b = n"
    "inbound_decode w c src = (Ok (Some r), c', src')" "protocol_of (ic_version c) \<noteq> MetaData"
  shows "request_fits (ic_chain_config c) (current_fork_name (ic_fork_context c)) r \<and>
    (\<exists>b. request_in_bounds w c b \<and>
       handle_rpc_request w (ic_chain_config c) (ic_version c) b (current_fork_name (ic_fork_context c)) = Ok (Some r))"
proof -
  let ?cfg = "ic_chain_config c" and ?v = "ic_version c" and ?p = "current_fork_name (ic_fork_context c)"
  have rf: "length b = n" if "read_frame w n s = Ok (Some (b, k))" for n s b k
  proof -
    obtain x m where x: "snap_read w (take (max_compress_len w n) s) n = (x, m)" by fastforce
    show ?thesis
    proof (cases x)
      case (Inl e)
      with that x show ?thesis by (cases e) (auto simp: read_frame_def split: if_splits)
    next
      case (Inr b')
      with that x assms(1) show ?thesis by (auto simp: read_frame_def)
    qed
  qed
  have "\<exists>b. request_in_bounds w c b \<and> handle_rpc_request w ?cfg ?v b ?p = Ok (Some r)"
    using assms(2) unfolding inbound_decode_eq [OF assms(3)]
    by (auto simp: request_in_bounds_def Let_def dest!: rf split: prod.splits sum.splits option.splits if_splits)
  moreover have "request_fits ?cfg ?p r" if "handle_rpc_request w ?cfg ?v b ?p = Ok (Some r)" for b
    using that by (cases ?v) (auto simp: result_bind_eq_Ok from_ssz_max_def blocks_by_root_len_def split: if_splits)
  ultimately show ?thesis by blast
qed

section \<open>Two ends that talk\<close>

text \<open>
  Encodings that satisfy the laws: base 128 integers, frames with one marker byte, one-byte integers,
  and blocks of five hundred bytes that hold their slot. The schedule is that of \<open>demo_forks\<close>.
\<close>

fun leb128 :: "nat \<Rightarrow> bytes" where
  "leb128 n = (if n < 128 then [word_of_nat n] else word_of_nat (128 + n mod 128) # leb128 (n div 128))"

declare leb128.simps [simp del]

fun unleb128 :: "bytes \<Rightarrow> (nat \<times> bytes) option" where
  "unleb128 [] = None"
| "unleb128 (x # xs) =
     (if unat x < 128 then Some (unat x, xs)
      else map_option (\<lambda>(n, rest). (unat x - 128 + 128 * n, rest)) (unleb128 xs))"

definition demo_read :: "bytes \<Rightarrow> nat \<Rightarrow> (bytes, io_error) result \<times> nat" where
  "demo_read src n =
     (if n = 0 then (Ok [], 0)
      else if length src \<le> n then (Err UnexpectedEof, length src)
      else (Ok (take n (tl src)), Suc n))"

definition byte_ssz :: "nat ssz" where
  "byte_ssz = \<lparr>ssz_write = (\<lambda>n. if n < 256 then Some [word_of_nat n] else None),
     ssz_read = (\<lambda>b. case b of [x] \<Rightarrow> Some (unat x) | _ \<Rightarrow> None)\<rparr>"

definition bytes_ssz :: "bytes ssz" where
  "bytes_ssz = \<lparr>ssz_write = Some, ssz_read = Some\<rparr>"

definition no_ssz :: "'a ssz" where
  "no_ssz = \<lparr>ssz_write = (\<lambda>_. None), ssz_read = (\<lambda>_. None)\<rparr>"

definition demo_range_ssz :: "old_range ssz" where
  "demo_range_ssz =
     \<lparr>ssz_write = (\<lambda>r. if or_start_slot r < 256 \<and> or_count r < 256 \<and> or_step r < 256
          then Some [word_of_nat (or_start_slot r), word_of_nat (or_count r), word_of_nat (or_step r)] else None),
      ssz_read = (\<lambda>b. case b of
          [x, y, z] \<Rightarrow> Some \<lparr>or_start_slot = unat x, or_count = unat y, or_step = unat z\<rparr> | _ \<Rightarrow> None)\<rparr>"

definition demo_payload_ssz :: "payload_kind \<Rightarrow> (payload_kind \<times> nat) ssz" where
  "demo_payload_ssz k =
     \<lparr>ssz_write = (\<lambda>(k', slot). if k' = k \<and> slot < 256 then Some (word_of_nat slot # replicate 499 0) else None),
      ssz_read = (\<lambda>b. case b of x # _ \<Rightarrow> Some (k, unat x) | [] \<Rightarrow> None)\<rparr>"

definition demo_sizes :: ssz_sizes where
  "demo_sizes = \<lparr>status_v1_size = 0, status_v2_size = 0, goodbye_size = 1, old_blocks_by_range_v2_size = 3,
     h256_size = 1, blobs_by_range_size = 0, blob_identifier_size = 0, data_columns_by_range_min = 0,
     data_columns_by_range_max = 0, ping_size = 1, light_client_bootstrap_request_size = 1, metadata_v1_size = 0,
     metadata_v3_size = 0, altair_bootstrap_size = 0, altair_optimistic_size = 0, altair_finality_size = 0,
     altair_update_size = 0, max_extra_data_bytes = 0, data_column_fulu_min = 0, data_column_fulu_max = 0,
     data_column_gloas_min = 0, data_column_gloas_max = 0, minimal_preset = False\<rparr>"

definition demo_wire :: "(nat, payload_kind \<times> nat) wire" where
  "demo_wire = \<lparr>uvi_encode = leb128, uvi_decode = (\<lambda>b. Ok (unleb128 b)),
     snap_frame = (\<lambda>b. if b = [] then [] else 255 # b), snap_read = demo_read,
     max_compress_len = (\<lambda>n. if 32 + n + n div 6 < 2 ^ 32 then 32 + n + n div 6 else 0), status_v1_ssz = no_ssz, status_v2_ssz = no_ssz, u64_ssz = byte_ssz,
     old_range_ssz = demo_range_ssz, block_roots_ssz = no_ssz, blobs_by_range_ssz = no_ssz, blob_ids_ssz = no_ssz,
     columns_by_range_ssz = no_ssz, column_ids_ssz = no_ssz, root_ssz = byte_ssz, updates_by_range_ssz = no_ssz,
     metadata_v1_ssz = no_ssz, metadata_v2_ssz = no_ssz, metadata_v3_ssz = no_ssz, error_ssz = bytes_ssz,
     payload_ssz = demo_payload_ssz, payload_kind_of = fst, payload_slot = snd, epoch_at_slot = (\<lambda>s. s),
     wire_sizes = demo_sizes\<rparr>"

lemma leb128_small [simp]: "n < 128 \<Longrightarrow> leb128 n = [word_of_nat n]"
  by (simp add: leb128.simps)

lemma unat_byte [simp]: "n < 256 \<Longrightarrow> unat (word_of_nat n :: 8 word) = n"
  by (simp add: unat_of_nat)

lemma unat_continued [simp]: "unat (128 + word_of_nat (n mod 128) :: 8 word) = 128 + n mod 128"
proof -
  have "128 + n mod 128 < 256" using mod_less_divisor [of 128 n] by linarith
  from unat_byte [OF this] show ?thesis by simp
qed

lemma unleb128_leb128: "unleb128 (leb128 n @ rest) = Some (n, rest)"
proof (induction n rule: leb128.induct)
  case (1 n)
  show ?case
  proof (cases "n < 128")
    case False
    then show ?thesis using 1 by (subst leb128.simps) simp
  qed simp
qed

lemma unleb128_prefix: "leb128 n = p @ q \<Longrightarrow> q \<noteq> [] \<Longrightarrow> unleb128 p = None"
proof (induction n arbitrary: p rule: leb128.induct)
  case (1 n)
  show ?case
  proof (cases p)
    case (Cons x xs)
    have "\<not> n < 128" using 1(2,3) Cons by (auto simp: leb128.simps split: if_splits)
    then show ?thesis using 1 Cons by (auto simp: leb128.simps [of n])
  qed simp
qed

lemma demo_read_full: "b \<noteq> [] \<Longrightarrow> demo_read (255 # b @ rest) (length b) = (Ok b, Suc (length b))"
  by (simp add: demo_read_def)

lemma demo_framing: "framing_ok demo_wire"
  unfolding framing_ok_def
proof (intro conjI allI impI)
  fix b p q :: bytes
  assume "snap_frame demo_wire b = p @ q" "q \<noteq> []"
  then have "b \<noteq> []" "length p + length q = Suc (length b)" "q \<noteq> []"
    by (auto simp: demo_wire_def split: if_splits dest: arg_cong [of _ _ length])
  moreover from this have "length p \<le> length b" by (cases q) auto
  ultimately show "\<exists>k \<le> length p. snap_read demo_wire p (length b) = (Err UnexpectedEof, k)"
    by (simp add: demo_wire_def demo_read_def)
next
  fix b rest :: bytes
  show "snap_read demo_wire (snap_frame demo_wire b @ rest) (length b) = (Ok b, length (snap_frame demo_wire b))"
    by (simp add: demo_wire_def demo_read_def)
qed (auto simp: demo_wire_def unleb128_leb128 unleb128_prefix Suc_le_eq split: if_splits)

lemma demo_sendable: "\<forall>n \<le> 10485760. sendable demo_wire n"
proof (intro allI impI)
  fix n :: nat
  assume "n \<le> 10485760"
  then have "32 + n + n div 6 < 2 ^ 32" "n < 2 ^ 64" by simp_all
  then show "sendable demo_wire n" by (simp add: sendable_def demo_wire_def)
qed

lemma demo_ssz_ok [simp]:
  "ssz_ok byte_ssz" "ssz_ok demo_range_ssz" "ssz_ok (demo_payload_ssz k)" "ssz_ok no_ssz" "list_ssz_ok no_ssz"
  "list_ssz_ok bytes_ssz"
  by (auto simp: ssz_ok_def list_ssz_ok_def byte_ssz_def demo_range_ssz_def demo_payload_ssz_def no_ssz_def bytes_ssz_def
      split: if_splits)

lemma demo_wire_ok: "wire_ok demo_wire"
  unfolding wire_ok_def by (simp add: demo_framing) (simp add: demo_wire_def)

definition demo_chain :: chain_config where
  "demo_chain = \<lparr>max_request_blocks = (\<lambda>_. 8), max_request_blob_sidecars = (\<lambda>_. 8), max_data_columns_by_root_request = 8,
     max_blobs_per_block = (\<lambda>_. 6), cfg_max_request_blocks = 8, cfg_max_request_blocks_deneb = 8,
     cfg_custody_requirement = 4, sync_committee_subnet_count = 4\<rparr>"

definition demo_listener :: "supported_protocol \<Rightarrow> inbound_codec" where
  "demo_listener v = inbound_codec_new demo_chain (protocol_id_new v SSZSnappy) 10485760 (demo_context 0)"

definition demo_dialer :: "supported_protocol \<Rightarrow> outbound_codec" where
  "demo_dialer v = outbound_codec_new (protocol_id_new v SSZSnappy) 10485760 (demo_context 12)"

lemma demo_ends [simp]:
  "ic_version (demo_listener v) = v" "ic_len (demo_listener v) = None" "ic_chain_config (demo_listener v) = demo_chain"
  "ic_max_packet_size (demo_listener v) = 10485760" "ic_fork_context (demo_listener v) = demo_context 0"
  "oc_version (demo_dialer v) = v" "oc_max_packet_size (demo_dialer v) = 10485760"
  "oc_fork_context (demo_dialer v) = demo_context 12" "oc_protocol (demo_dialer v) = ic_protocol (demo_listener v)"
  "outbound_reset (demo_dialer v) = demo_dialer v"
  by (simp_all add: demo_listener_def demo_dialer_def inbound_codec_new_def outbound_codec_new_def protocol_id_new_def
      outbound_reset_def)

definition demo_range :: "nat request_type" where
  "demo_range = BlocksByRangeReq (OldRangeV2 \<lparr>or_start_slot = 5, or_count = 3, or_step = 2\<rparr>)"

lemma demo_range_bytes:
  "request_ssz demo_wire v demo_range = Some (Some (Ok [5, 3, 2]))"
  "outbound_encode demo_wire (demo_dialer v) demo_range [] = Some (Ok (), [3, 255, 5, 3, 2])"
  by (simp_all add: demo_range_def outbound_encode_def demo_wire_def demo_range_ssz_def to_ssz_def)

text \<open>A request made as version two, negotiated as version one, arriving in three pieces.\<close>

theorem request_delivered_witness:
  "upgrade_inbound demo_wire (demo_listener BlocksByRangeV1) False [[3], [255, 5], [3, 2]]
     = Ok (BlocksByRangeReq (OldRangeV1 \<lparr>or_start_slot = 5, or_count = 3, or_step = 2\<rparr>))"
  using request_delivered [OF demo_wire_ok, of "demo_dialer BlocksByRangeV1" "demo_listener BlocksByRangeV1" demo_range
      "[[3], [255, 5], [3, 2]]" False]
  by (simp add: demo_range_bytes demo_sendable) (simp add: demo_range_def request_protocol_def request_in_bounds_def is_out_of_bounds_def
      rpc_limits_new_def demo_wire_def demo_sizes_def)

theorem decoded_request_bounded_witness:
  "request_in_bounds demo_wire (demo_listener PingV1) [7] \<and>
   (\<exists>b. request_in_bounds demo_wire (demo_listener PingV1) b \<and>
      handle_rpc_request demo_wire demo_chain PingV1 b (current_fork_name (demo_context 0)) = Ok (Some (PingReq 7)))"
proof -
  have ib: "request_in_bounds demo_wire (demo_listener PingV1) [7]"
    by (simp add: request_in_bounds_def is_out_of_bounds_def rpc_limits_new_def demo_wire_def demo_sizes_def)
  have "handle_rpc_request demo_wire demo_chain PingV1 [7] (current_fork_name (demo_context 0)) = Ok (Some (PingReq 7))"
    by (simp add: demo_wire_def byte_ssz_def from_ssz_def)
  moreover have "body_at demo_wire None [7] ([1, 255, 7])" by (simp add: body_at_def demo_framing demo_sendable) (simp add: demo_wire_def)
  ultimately have "awaiting_request demo_wire (demo_listener PingV1) [1, 255, 7] (PingReq 7)"
    using ib by (auto simp: awaiting_request_def)
  from request_stream.decode_full [OF this, of "[]"]
  have "inbound_decode demo_wire (demo_listener PingV1) [1, 255, 7] = (Ok (Some (PingReq 7)), inbound_reset (demo_listener PingV1), [])"
    by simp
  moreover have "\<forall>src n b k. snap_read demo_wire src n = (Ok b, k) \<longrightarrow> length b = n"
    by (auto simp: demo_wire_def demo_read_def)
  ultimately show ?thesis using ib decoded_request_bounded [of demo_wire "demo_listener PingV1"] by fastforce
qed

definition demo_answers :: "(payload_kind \<times> nat) rpc_response list" where
  "demo_answers =
     [Success (BlocksByRangeResp (BlockKind Phase0, 3)), Success (BlocksByRangeResp (BlockKind Altair, 12)),
      ErrorResp ServerError [1, 2]]"

definition demo_bytes :: "(payload_kind \<times> nat) rpc_response \<Rightarrow> bytes" where
  "demo_bytes x = snd (the (inbound_encode demo_wire (demo_listener BlocksByRangeV2) x []))"

lemma demo_context_bytes: "context_bytes_at (demo_context 0) 3 = Some [0, 0, 0, 0]" "context_bytes_at (demo_context 0) 12 = Some [0, 0, 0, 10]"
  by (simp_all add: context_bytes_at_def demo_context_def fork_context_new_eq demo_schedule bt_range_to_def last_opt_eq
      fork_at_def hard_fork_new_def)

lemma demo_wire_simps:
  "payload_kind_of demo_wire = fst" "payload_slot demo_wire = snd" "payload_ssz demo_wire = demo_payload_ssz"
  "epoch_at_slot demo_wire = (\<lambda>s. s)" "error_ssz demo_wire = bytes_ssz" "wire_sizes demo_wire = demo_sizes"
  by (simp_all add: demo_wire_def)

lemma demo_response_ssz:
  "slot < 256 \<Longrightarrow> response_ssz demo_wire cfg v (Success (BlocksByRangeResp (k, slot))) = Some (Ok (word_of_nat slot # replicate 499 0))"
  "response_ssz demo_wire cfg v (ErrorResp code e) = Some (Ok e)"
  by (simp_all add: demo_wire_simps payload_to_ssz_def demo_payload_ssz_def bytes_ssz_def to_ssz_def)

lemma demo_current: "current_fork_name (demo_context 12) = Altair"
  by (simp add: current_fork_name_def demo_context_def fork_context_new_eq demo_schedule fork_at_def hard_fork_new_def)

lemma demo_answers_fit:
  "\<forall>x \<in> set demo_answers. response_fits demo_wire demo_forks (demo_listener BlocksByRangeV2) (demo_dialer BlocksByRangeV2) x"
  by (simp add: demo_answers_def response_fits_def demo_response_ssz response_in_bounds_def error_in_bounds_def demo_current
      is_out_of_bounds_def rpc_limits_new_def slot_phase_def demo_wire_simps demo_schedule
      del: response_ssz.simps)

lemma demo_answers_encoded:
  "x \<in> set demo_answers \<Longrightarrow>
   inbound_encode demo_wire (demo_listener BlocksByRangeV2) x [] = Some (Ok (), demo_bytes x)"
  by (auto simp: demo_answers_def demo_bytes_def inbound_encode_def encode_response_def demo_response_ssz context_bytes_def
      demo_wire_simps demo_context_bytes simp del: response_ssz.simps)

text \<open>Two blocks of different forks and an error, arriving byte by byte.\<close>

theorem responses_delivered_witness:
  "all_items (outbound_decode demo_wire) 4 (demo_dialer BlocksByRangeV2) []
     (map (\<lambda>b. [b]) (concat (map demo_bytes demo_answers))) = Some (demo_answers, None)"
proof -
  have s: "set (scheduled_epochs demo_forks) = {0, 5, 10}" using schedule_facts(2) [of demo_forks] demo_schedule by simp
  have bytes: "concat (map (\<lambda>b. [b]) bs) = bs" for bs :: bytes by (induction bs) simp_all
  have "list_all2 (\<lambda>x bs. inbound_encode demo_wire (demo_listener BlocksByRangeV2) x [] = Some (Ok (), bs)) demo_answers
     (map demo_bytes demo_answers)"
    using demo_answers_encoded by (simp add: list_all2_map2 list_all2_same)
  from responses_delivered [OF demo_wire_ok _ _ _ _ _ _ _ this demo_answers_fit bytes, of 0 12]
  have "all_items (outbound_decode demo_wire) (Suc (length demo_answers)) (demo_dialer BlocksByRangeV2) []
     (map (\<lambda>b. [b]) (concat (map demo_bytes demo_answers)))
     = Some (map (received demo_chain BlocksByRangeV2) demo_answers, None)"
    by (simp add: demo_context_new s demo_sendable)
  then show ?thesis by (simp add: demo_answers_def eval_nat_numeral)
qed

end
