(* ===== verification/DelayedQueue.thy ===== *)
theory DelayedQueue
  imports Prelude
begin

text \<open>
  The contract of a limiter that holds back items: items of a key pass at once only when none of that key
  wait, otherwise they queue; waking a key releases a prefix of its queue; and whoever waits has a
  timer. Other calls leave the queues alone. The limiters of our own requests and of our responses (\<open>rpc/self_limiter.rs\<close>,
  \<open>rpc/response_limiter.rs\<close>) both implement it. \<open>'e\<close> is what a call reads from outside: the time and
  the configuration.
\<close>

datatype ('e, 'k, 'x, 'o) limiter_call = Submit 'e 'k 'x | Wake 'e 'k | Other 'o

text \<open>What has left the limiter, in order, and the state after a sequence of calls.\<close>

fun calls ::
    "('e \<Rightarrow> 's \<Rightarrow> 'k \<Rightarrow> 'x \<Rightarrow> bool \<times> 's) \<Rightarrow> ('e \<Rightarrow> 's \<Rightarrow> 'k \<Rightarrow> 'x list \<times> 's) \<Rightarrow> ('o \<Rightarrow> 's \<Rightarrow> 's) \<Rightarrow> 's \<Rightarrow> ('e, 'k, 'x, 'o) limiter_call list
     \<Rightarrow> ('k \<times> 'x) list \<times> 's" where
  "calls submit wake other s [] = ([], s)"
| "calls submit wake other s (Submit e k x # cs) =
     (let (passed, s') = submit e s k x; (out, s'') = calls submit wake other s' cs
      in ((if passed then [(k, x)] else []) @ out, s''))"
| "calls submit wake other s (Wake e k # cs) =
     (let (xs, s') = wake e s k; (out, s'') = calls submit wake other s' cs
      in (map (Pair k) xs @ out, s''))"
| "calls submit wake other s (Other x # cs) = calls submit wake other (other x s) cs"

fun submitted :: "('e, 'k, 'x, 'o) limiter_call list \<Rightarrow> ('k \<times> 'x) list" where
  "submitted [] = []"
| "submitted (Submit e k x # cs) = (k, x) # submitted cs"
| "submitted (Wake e k # cs) = submitted cs"
| "submitted (Other x # cs) = submitted cs"

definition of_key :: "'k \<Rightarrow> ('k \<times> 'x) list \<Rightarrow> 'x list" where
  "of_key k xs = map snd (filter (\<lambda>p. fst p = k) xs)"

lemma of_key_simps [simp]:
  "of_key k [] = []" "of_key k ((j, x) # xs) = (if j = k then x # of_key k xs else of_key k xs)"
  "of_key k (xs @ ys) = of_key k xs @ of_key k ys"
  "of_key k (map (Pair j) zs) = (if j = k then zs else [])"
  by (simp_all add: of_key_def filter_map comp_def)

fun submits_ok :: "('k \<Rightarrow> 'x \<Rightarrow> bool) \<Rightarrow> ('e, 'k, 'x, 'o) limiter_call list \<Rightarrow> bool" where
  "submits_ok fits [] = True"
| "submits_ok fits (Submit e k x # cs) = (fits k x \<and> submits_ok fits cs)"
| "submits_ok fits (Wake e k # cs) = submits_ok fits cs"
| "submits_ok fits (Other x # cs) = submits_ok fits cs"

locale delayed_queue =
  fixes inv :: "'s \<Rightarrow> bool"
    and fits :: "'k \<Rightarrow> 'x \<Rightarrow> bool"
    and queue :: "'s \<Rightarrow> 'k \<Rightarrow> 'x list"
    and timer :: "'s \<Rightarrow> 'k \<Rightarrow> bool"
    and submit :: "'e \<Rightarrow> 's \<Rightarrow> 'k \<Rightarrow> 'x \<Rightarrow> bool \<times> 's"
    and wake :: "'e \<Rightarrow> 's \<Rightarrow> 'k \<Rightarrow> 'x list \<times> 's"
    and other :: "'o \<Rightarrow> 's \<Rightarrow> 's"
  assumes inv_timer: "inv s \<Longrightarrow> queue s k \<noteq> [] \<Longrightarrow> timer s k"
    and submit_passed: "inv s \<Longrightarrow> fits k x \<Longrightarrow> submit e s k x = (True, s') \<Longrightarrow>
      inv s' \<and> queue s k = [] \<and> queue s' = queue s"
    and submit_queued: "inv s \<Longrightarrow> fits k x \<Longrightarrow> submit e s k x = (False, s') \<Longrightarrow>
      inv s' \<and> queue s' = (queue s)(k := queue s k @ [x])"
    and woken: "inv s \<Longrightarrow> wake e s k = (xs, s') \<Longrightarrow> inv s' \<and> queue s = (queue s')(k := xs @ queue s' k)"
    and other_queue: "inv s \<Longrightarrow> inv (other y s) \<and> queue (other y s) = queue s"
begin

lemma calls_fifo:
  assumes "inv s" "submits_ok fits cs" "calls submit wake other s cs = (out, s')"
  shows "inv s' \<and> queue s k @ of_key k (submitted cs) = of_key k out @ queue s' k"
  using assms
proof (induction cs arbitrary: s out)
  case (Cons c cs)
  show ?case
  proof (cases c)
    case (Submit e j x)
    obtain passed s1 where p: "submit e s j x = (passed, s1)" by (cases "submit e s j x")
    obtain out1 where o: "calls submit wake other s1 cs = (out1, s')" and
      out: "out = (if passed then [(j, x)] else []) @ out1"
      using Cons.prems Submit p by (auto split: prod.splits)
    have f: "fits j x" "submits_ok fits cs" using Cons.prems(2) Submit by auto
    show ?thesis
    proof (cases passed)
      case True
      with submit_passed [OF Cons.prems(1) f(1), of e s1] p have "inv s1" "queue s j = []" "queue s1 = queue s" by auto
      then show ?thesis using Cons.IH [OF _ f(2) o] Submit out True by auto
    next
      case False
      with submit_queued [OF Cons.prems(1) f(1), of e s1] p
      have "inv s1" "queue s1 = (queue s)(j := queue s j @ [x])" by auto
      then show ?thesis using Cons.IH [OF _ f(2) o] Submit out False by auto
    qed
  next
    case (Wake e j)
    obtain xs s1 where p: "wake e s j = (xs, s1)" by (cases "wake e s j")
    obtain out1 where o: "calls submit wake other s1 cs = (out1, s')" and out: "out = map (Pair j) xs @ out1"
      using Cons.prems Wake p by (auto split: prod.splits)
    from woken [OF Cons.prems(1) p] have "inv s1" "queue s = (queue s1)(j := xs @ queue s1 j)" by auto
    then show ?thesis using Cons.IH [OF _ _ o] Cons.prems(2) Wake out by auto
  next
    case (Other y)
    then show ?thesis using Cons.IH [of "other y s" out] Cons.prems other_queue [OF Cons.prems(1), of y] by simp
  qed
qed simp

text \<open>With nothing waiting at the start, what was submitted has left in order or waits behind a timer.\<close>

lemma calls_channel:
  assumes "inv s" "\<And>k. queue s k = []" "submits_ok fits cs" "calls submit wake other s cs = (out, s')"
  shows "of_key k (submitted cs) = of_key k out @ queue s' k" "queue s' k \<noteq> [] \<Longrightarrow> timer s' k"
  using calls_fifo [OF assms(1,3,4), of k] assms(2) inv_timer by auto

end

section \<open>Association lists of queues\<close>

definition queue_of :: "('k \<times> 'x list) list \<Rightarrow> 'k \<Rightarrow> 'x list" where
  "queue_of m k = (case map_of m k of None \<Rightarrow> [] | Some xs \<Rightarrow> xs)"

definition queues_ok :: "('k \<times> 'x list) list \<Rightarrow> ('k \<times> nanos) list \<Rightarrow> bool" where
  "queues_ok m timers \<longleftrightarrow> distinct (map fst m) \<and> (\<forall>(k, xs) \<in> set m. xs \<noteq> [] \<and> k \<in> fst ` set timers)"

text \<open>Storing what is left of a queue; an empty one is removed.\<close>

definition put_queue :: "'k \<Rightarrow> 'x list \<Rightarrow> ('k \<times> 'x list) list \<Rightarrow> ('k \<times> 'x list) list" where
  "put_queue k xs m = (if xs = [] then AList.delete k m else AList.update k xs m)"

text \<open>The delay queue hands out an entry of a key.\<close>

fun take_timer :: "'k \<Rightarrow> ('k \<times> nanos) list \<Rightarrow> ('k \<times> nanos) list" where
  "take_timer k [] = []"
| "take_timer k ((j, t) # ts) = (if j = k then ts else (j, t) # take_timer k ts)"

lemma queue_of_put [simp]: "queue_of (put_queue k xs m) = (queue_of m)(k := xs)"
  by (intro ext) (simp add: queue_of_def put_queue_def update_conv' delete_conv')

lemma queue_of_update [simp]: "queue_of (AList.update k xs m) = (queue_of m)(k := xs)"
  by (intro ext) (simp add: queue_of_def update_conv')

lemma queues_ok_lookup: "queues_ok m ts \<Longrightarrow> map_of m k = Some xs \<Longrightarrow> xs \<noteq> [] \<and> k \<in> fst ` set ts"
  by (auto simp: queues_ok_def dest: map_of_SomeD)

lemma queue_of_None: "queues_ok m ts \<Longrightarrow> map_of m k = None \<longleftrightarrow> queue_of m k = []"
  by (auto simp: queue_of_def dest: queues_ok_lookup split: option.splits)

lemma queues_ok_iff:
  "queues_ok m ts \<longleftrightarrow> distinct (map fst m) \<and> (\<forall>k xs. map_of m k = Some xs \<longrightarrow> xs \<noteq> [] \<and> k \<in> fst ` set ts)"
  by (cases "distinct (map fst m)") (fastforce simp: queues_ok_def)+

lemma take_timer_other: "j \<noteq> k \<Longrightarrow> j \<in> fst ` set (take_timer k ts) \<longleftrightarrow> j \<in> fst ` set ts"
  by (induction k ts rule: take_timer.induct) auto

lemma queues_ok_put:
  assumes "queues_ok m ts" "xs \<noteq> [] \<Longrightarrow> k \<in> fst ` set ts'" "\<And>j. j \<noteq> k \<Longrightarrow> j \<in> fst ` set ts \<Longrightarrow> j \<in> fst ` set ts'"
  shows "queues_ok (put_queue k xs m) ts'"
proof -
  have "map_of (put_queue k xs m) = (map_of m)(k := if xs = [] then None else Some xs)"
    by (auto simp: put_queue_def update_conv' delete_conv')
  moreover have "distinct (map fst (put_queue k xs m))"
    using assms(1) by (simp add: queues_ok_def put_queue_def distinct_update distinct_delete)
  ultimately show ?thesis using assms unfolding queues_ok_iff
    by (auto simp del: map_of_eq_Some_iff split: if_splits)
qed

lemma queues_ok_timers: "queues_ok m ts \<Longrightarrow> fst ` set ts \<subseteq> fst ` set ts' \<Longrightarrow> queues_ok m ts'"
  by (fastforce simp: queues_ok_def)

end
