(* ===== verification/ResponseLimiter.thy ===== *)
theory ResponseLimiter
  imports DelayedQueue RpcRateLimiter Methods
begin

text \<open>
  The limiter of our responses, \<open>rpc/response_limiter.rs\<close>. Responses the rate limiter refuses wait in a
  queue per peer and protocol, with an entry in a delay queue for the time of the next try. The delay
  queue is another crate: the model keeps its entries with their deadlines, and which entries have
  expired is an argument of the poll. Connection and substream identifiers are numbers.
\<close>

type_synonym 'peer limiter_key = "'peer \<times> protocol"

section \<open>The limiter\<close>

record ('peer, 'pl) queued_response =
  qr_peer :: 'peer
  qr_connection :: nat
  qr_substream :: nat
  qr_response :: "'pl rpc_response"
  qr_protocol :: protocol
  qr_queued_at :: nanos

record ('peer, 'pl) response_limiter =
  rsl_limiter :: "'peer rpc_rate_limiter"
  delayed_responses :: "('peer limiter_key \<times> ('peer, 'pl) queued_response list) list"
  next_response :: "('peer limiter_key \<times> nanos) list"

definition response_limiter_new :: "rate_limiter_config \<Rightarrow> (('peer, 'pl) response_limiter, string) result" where
  "response_limiter_new config =
     result_bind (new_with_config config)
       (\<lambda>l. Ok \<lparr>rsl_limiter = l, delayed_responses = [], next_response = []\<rparr>)"

text \<open>A response chunk takes one token; a batch that never fits passes.\<close>

definition try_limiter ::
    "'peer rpc_rate_limiter \<Rightarrow> nanos \<Rightarrow> 'peer \<Rightarrow> protocol \<Rightarrow> (unit, nanos) result \<times> 'peer rpc_rate_limiter" where
  "try_limiter l now peer p =
     (case rpc_allows l now peer p 1 of
        (Ok _, l') \<Rightarrow> (Ok (), l')
      | (Err TooLarge, l') \<Rightarrow> (Ok (), l')
      | (Err (TooSoon wait_time), l') \<Rightarrow> (Err wait_time, l'))"

definition response_allows ::
    "nanos \<Rightarrow> ('peer, 'pl) response_limiter \<Rightarrow> 'peer \<Rightarrow> protocol \<Rightarrow> nat \<Rightarrow> nat \<Rightarrow> 'pl rpc_response
     \<Rightarrow> bool \<times> ('peer, 'pl) response_limiter" where
  "response_allows now s peer p connection_id substream_id response =
     (let q = \<lparr>qr_peer = peer, qr_connection = connection_id, qr_substream = substream_id, qr_response = response,
               qr_protocol = p, qr_queued_at = now\<rparr> in
      case map_of (delayed_responses s) (peer, p) of
        Some queue \<Rightarrow> (False, s\<lparr>delayed_responses := AList.update (peer, p) (queue @ [q]) (delayed_responses s)\<rparr>)
      | None \<Rightarrow>
          (case try_limiter (rsl_limiter s) now peer p of
             (Err wait_time, l) \<Rightarrow>
               (False, s\<lparr>rsl_limiter := l, delayed_responses := AList.update (peer, p) [q] (delayed_responses s),
                         next_response := next_response s @ [((peer, p), now + wait_time)]\<rparr>)
           | (Ok _, l) \<Rightarrow> (True, s\<lparr>rsl_limiter := l\<rparr>)))"

text \<open>Removes all responses of a peer; its entries of the delay queue stay and are ignored later.\<close>

definition response_peer_disconnected :: "('peer, 'pl) response_limiter \<Rightarrow> 'peer \<Rightarrow> ('peer, 'pl) response_limiter" where
  "response_peer_disconnected s peer =
     s\<lparr>delayed_responses := filter (\<lambda>((map_peer_id, _), _). map_peer_id \<noteq> peer) (delayed_responses s)\<rparr>"

text \<open>What the limiter lets go of a queue, what stays, and the time to wait for the rest.\<close>

fun release_responses ::
    "'peer rpc_rate_limiter \<Rightarrow> nanos \<Rightarrow> ('peer, 'pl) queued_response list
     \<Rightarrow> ('peer, 'pl) queued_response list \<times> ('peer, 'pl) queued_response list \<times> nanos option \<times> 'peer rpc_rate_limiter" where
  "release_responses l now [] = ([], [], None, l)"
| "release_responses l now (r # queue) =
     (case try_limiter l now (qr_peer r) (qr_protocol r) of
        (Ok _, l') \<Rightarrow>
          (let (responses, rest, wait, l'') = release_responses l' now queue in (r # responses, rest, wait, l''))
      | (Err wait_time, l') \<Rightarrow> ([], r # queue, Some wait_time, l'))"

text \<open>One expired key.\<close>

definition release_key ::
    "nanos \<Rightarrow> ('peer, 'pl) response_limiter \<Rightarrow> 'peer limiter_key
     \<Rightarrow> ('peer, 'pl) queued_response list \<times> ('peer, 'pl) response_limiter" where
  "release_key now s key =
     (let s = s\<lparr>next_response := take_timer key (next_response s)\<rparr> in
      case map_of (delayed_responses s) key of
        None \<Rightarrow> ([], s)
      | Some queue \<Rightarrow>
          (let (responses, rest, wait, l) = release_responses (rsl_limiter s) now queue in
           (responses,
            s\<lparr>rsl_limiter := l, delayed_responses := put_queue key rest (delayed_responses s),
              next_response := next_response s @ (case wait of None \<Rightarrow> [] | Some t \<Rightarrow> [(key, now + t)])\<rparr>)))"

fun release_keys ::
    "nanos \<Rightarrow> ('peer, 'pl) response_limiter \<Rightarrow> 'peer limiter_key list
     \<Rightarrow> ('peer, 'pl) queued_response list \<times> ('peer, 'pl) response_limiter" where
  "release_keys now s [] = ([], s)"
| "release_keys now s (key # expired) =
     (let (xs, s') = release_key now s key; (ys, s'') = release_keys now s' expired in (xs @ ys, s''))"

definition response_prune :: "nanos \<Rightarrow> ('peer, 'pl) response_limiter \<Rightarrow> ('peer, 'pl) response_limiter" where
  "response_prune now s = s\<lparr>rsl_limiter := rpc_prune (rsl_limiter s) now\<rparr>"

text \<open>The keys the delay queue reports and whether the prune timer of the rate limiter has ticked are arguments.\<close>

definition response_poll_ready ::
    "nanos \<Rightarrow> 'peer limiter_key list \<Rightarrow> bool \<Rightarrow> ('peer, 'pl) response_limiter
     \<Rightarrow> ('peer, 'pl) queued_response list option \<times> ('peer, 'pl) response_limiter" where
  "response_poll_ready now expired tick s =
     (let (responses, s') = release_keys now s expired;
          s'' = (if tick then response_prune now s' else s')
      in (if responses \<noteq> [] then Some responses else None, s''))"

section \<open>It is a delayed queue\<close>

definition response_limiter_ok :: "('peer, 'pl) response_limiter \<Rightarrow> bool" where
  "response_limiter_ok s \<longleftrightarrow> queues_ok (delayed_responses s) (next_response s)"

definition response_queue :: "('peer, 'pl) response_limiter \<Rightarrow> 'peer limiter_key \<Rightarrow> (nat \<times> nat \<times> 'pl rpc_response) list" where
  "response_queue s k =
     map (\<lambda>q. (qr_connection q, qr_substream q, qr_response q)) (queue_of (delayed_responses s) k)"

definition response_timer :: "('peer, 'pl) response_limiter \<Rightarrow> 'peer limiter_key \<Rightarrow> bool" where
  "response_timer s k \<longleftrightarrow> k \<in> fst ` set (next_response s)"

definition response_submit ::
    "nanos \<Rightarrow> ('peer, 'pl) response_limiter \<Rightarrow> 'peer limiter_key \<Rightarrow> nat \<times> nat \<times> 'pl rpc_response
     \<Rightarrow> bool \<times> ('peer, 'pl) response_limiter" where
  "response_submit now s k x = response_allows now s (fst k) (snd k) (fst x) (fst (snd x)) (snd (snd x))"

definition response_wake ::
    "nanos \<Rightarrow> ('peer, 'pl) response_limiter \<Rightarrow> 'peer limiter_key
     \<Rightarrow> (nat \<times> nat \<times> 'pl rpc_response) list \<times> ('peer, 'pl) response_limiter" where
  "response_wake now s k =
     (let (rs, s') = release_key now s k in (map (\<lambda>q. (qr_connection q, qr_substream q, qr_response q)) rs, s'))"

lemma release_split:
  "release_responses l now queue = (responses, rest, wait, l') \<Longrightarrow> queue = responses @ rest \<and> (rest \<noteq> [] \<longleftrightarrow> wait \<noteq> None)"
proof (induction queue arbitrary: l responses)
  case (Cons r queue)
  obtain x l1 where t: "try_limiter l now (qr_peer r) (qr_protocol r) = (x, l1)" by fastforce
  show ?case
  proof (cases x)
    case (Inr y)
    then show ?thesis using Cons t by (auto split: prod.splits)
  qed (use Cons.prems t in auto)
qed simp

lemma response_allows_cases:
  assumes "response_limiter_ok s" "response_allows now s peer p c b r = (passed, s')"
  shows "response_limiter_ok s' \<and>
    (if passed then queue_of (delayed_responses s) (peer, p) = [] \<and> delayed_responses s' = delayed_responses s
     else \<exists>q. qr_connection q = c \<and> qr_substream q = b \<and> qr_response q = r \<and>
       queue_of (delayed_responses s') = (queue_of (delayed_responses s))((peer, p) := queue_of (delayed_responses s) (peer, p) @ [q]))"
proof -
  let ?k = "(peer, p)"
  define q where "q = \<lparr>qr_peer = peer, qr_connection = c, qr_substream = b, qr_response = r, qr_protocol = p, qr_queued_at = now\<rparr>"
  note d = assms(2) [unfolded response_allows_def q_def [symmetric] Let_def]
  have q: "qr_connection q = c" "qr_substream q = b" "qr_response q = r" by (simp_all add: q_def)
  have put: "AList.update ?k (xs @ [q]) m = put_queue ?k (xs @ [q]) m" for xs m by (simp add: put_queue_def)
  show ?thesis
  proof (cases "map_of (delayed_responses s) ?k")
    case None
    obtain x l where t: "try_limiter (rsl_limiter s) now peer p = (x, l)" by fastforce
    have e: "queue_of (delayed_responses s) ?k = []" using None by (simp add: queue_of_def)
    have "queues_ok (put_queue ?k ([] @ [q]) (delayed_responses s)) (next_response s @ [(?k, now + w)])" for w
      using assms(1) unfolding response_limiter_ok_def by (rule queues_ok_put) auto
    then show ?thesis using d None t e q assms(1) put [of "[]"]
      by (cases x) (auto simp: response_limiter_ok_def)
  next
    case (Some xs)
    have e: "queue_of (delayed_responses s) ?k = xs" using Some by (simp add: queue_of_def)
    have "?k \<in> fst ` set (next_response s)"
      using assms(1) Some by (auto simp: response_limiter_ok_def dest: queues_ok_lookup)
    then have "queues_ok (put_queue ?k (xs @ [q]) (delayed_responses s)) (next_response s)"
      using assms(1) unfolding response_limiter_ok_def by (intro queues_ok_put) auto
    then show ?thesis using d Some e q put [of xs] by (auto simp: response_limiter_ok_def)
  qed
qed

lemma release_key_cases:
  assumes "response_limiter_ok s" "release_key now s k = (xs, s')"
  shows "response_limiter_ok s' \<and>
    queue_of (delayed_responses s) = (queue_of (delayed_responses s'))(k := xs @ queue_of (delayed_responses s') k)"
proof (cases "map_of (delayed_responses s) k")
  case None
  then have e: "queue_of (delayed_responses s) k = []" by (simp add: queue_of_def)
  then have "(queue_of (delayed_responses s))(k := []) = queue_of (delayed_responses s)" by (rule fun_upd_idem)
  moreover have "queues_ok (put_queue k [] (delayed_responses s)) (take_timer k (next_response s))"
    using assms(1) unfolding response_limiter_ok_def by (rule queues_ok_put) (auto simp: take_timer_other)
  moreover have "put_queue k [] (delayed_responses s) = delayed_responses s"
    using None by (simp add: put_queue_def delete_id map_of_eq_None_iff)
  moreover have "xs = []" "delayed_responses s' = delayed_responses s" "next_response s' = take_timer k (next_response s)"
    using assms(2) None by (auto simp: release_key_def)
  ultimately show ?thesis using e by (simp add: response_limiter_ok_def)
next
  case (Some queue)
  obtain responses rest wait l where r: "release_responses (rsl_limiter s) now queue = (responses, rest, wait, l)"
    by (cases "release_responses (rsl_limiter s) now queue") auto
  note sp = release_split [OF r]
  have e: "queue_of (delayed_responses s) k = queue" using Some by (simp add: queue_of_def)
  let ?ts = "take_timer k (next_response s) @ (case wait of None \<Rightarrow> [] | Some t \<Rightarrow> [(k, now + t)])"
  have "queues_ok (put_queue k rest (delayed_responses s)) ?ts"
    using assms(1) unfolding response_limiter_ok_def
    by (rule queues_ok_put) (use sp in \<open>auto simp: take_timer_other image_Un\<close>)
  moreover have "xs = responses" "delayed_responses s' = put_queue k rest (delayed_responses s)" "next_response s' = ?ts"
    using assms(2) Some r by (auto simp: release_key_def)
  ultimately show ?thesis using e sp by (simp add: response_limiter_ok_def fun_upd_idem)
qed

interpretation response_channel: delayed_queue response_limiter_ok "\<lambda>_ _. True" response_queue response_timer response_submit
    response_wake response_prune
proof
  fix s s' :: "('peer, 'pl) response_limiter" and k :: "'peer limiter_key" and x now xs
  show "response_limiter_ok s \<Longrightarrow> response_queue s k \<noteq> [] \<Longrightarrow> response_timer s k"
    by (auto simp: response_limiter_ok_def response_queue_def response_timer_def queue_of_def dest: queues_ok_lookup split: option.splits)
  assume ok: "response_limiter_ok s"
  then show "response_limiter_ok (response_prune now s) \<and> response_queue (response_prune now s) = response_queue s"
    by (simp add: response_limiter_ok_def response_prune_def response_queue_def fun_eq_iff)
  have k: "(fst k, snd k) = k" by simp
  show "response_submit now s k x = (True, s') \<Longrightarrow>
      response_limiter_ok s' \<and> response_queue s k = [] \<and> response_queue s' = response_queue s"
    using response_allows_cases [OF ok, of now "fst k" "snd k"] unfolding response_submit_def k
    by (fastforce simp: response_queue_def)
  show "response_submit now s k x = (False, s') \<Longrightarrow>
      response_limiter_ok s' \<and> response_queue s' = (response_queue s)(k := response_queue s k @ [x])"
  proof -
    assume "response_submit now s k x = (False, s')"
    from response_allows_cases [OF ok this [unfolded response_submit_def]] obtain q where
      "response_limiter_ok s'" "x = (qr_connection q, qr_substream q, qr_response q)"
      "queue_of (delayed_responses s') = (queue_of (delayed_responses s))(k := queue_of (delayed_responses s) k @ [q])"
      by (cases x) (auto simp: k)
    then show ?thesis by (simp add: response_queue_def fun_eq_iff)
  qed
  assume w: "response_wake now s k = (xs, s')"
  obtain rs where r: "release_key now s k = (rs, s')" "xs = map (\<lambda>q. (qr_connection q, qr_substream q, qr_response q)) rs"
    using w by (auto simp: response_wake_def split: prod.splits)
  from release_key_cases [OF ok r(1)] show "response_limiter_ok s' \<and> response_queue s = (response_queue s')(k := xs @ response_queue s' k)"
    by (simp add: r(2) response_queue_def fun_eq_iff)
qed

section \<open>Properties\<close>

text \<open>
  C26. The response limiter is a first-in first-out channel per peer and protocol: whatever responses are
  submitted and whenever the delay queue wakes keys, the responses let through followed by those
  still waiting are exactly those submitted, in order, and whoever waits has a pending timer. No
  chunk of a stream is lost, repeated or reordered.
\<close>

theorem response_limiter_fifo:
  assumes "response_limiter_new config = Ok s"
    "calls response_submit response_wake response_prune s cs = (out, s')"
  shows "of_key k (submitted cs) = of_key k out @ response_queue s' k \<and>
         (response_queue s' k \<noteq> [] \<longrightarrow> response_timer s' k)"
proof -
  have s: "delayed_responses s = []" using assms(1) by (auto simp: response_limiter_new_def result_bind_eq_Ok)
  have "submits_ok (\<lambda>_ _. True) cs" by (induction cs rule: submitted.induct) simp_all
  moreover have "response_limiter_ok s" "\<And>k. response_queue s k = []"
    by (simp_all add: s response_limiter_ok_def queues_ok_def response_queue_def queue_of_def)
  ultimately show ?thesis using response_channel.calls_channel [of s cs out s'] assms(2) by blast
qed

theorem response_limiter_fifo_witness:
  "\<exists>s out s'. response_limiter_new default_config = Ok s \<and>
     calls response_submit response_wake response_prune s
       [Submit 0 (7 :: nat, Status) (1, 1, Success (PongResp 1)), Submit 5 (7, Status) (1, 2, Success (PongResp 2)),
        Submit 6 (8, Status) (2, 1, Success (PongResp 3)), Wake 90 (7, Status), Other 100,
        Submit 110 (7, Status) (1, 3, StreamTermination EndBlobsByRoot)] = (out, s') \<and>
     [(1, 1, Success (PongResp 1)), (1, 2, Success (PongResp 2)), (1, 3, StreamTermination EndBlobsByRoot :: nat rpc_response)]
       = of_key (7, Status) out @ response_queue s' (7, Status)"
proof -
  obtain rl :: "nat rpc_rate_limiter" where "new_with_config default_config = Ok rl" using default_config_builds by blast
  then obtain s :: "(nat, nat) response_limiter" where s: "response_limiter_new default_config = Ok s"
    by (simp add: response_limiter_new_def)
  let ?cs = "[Submit 0 (7 :: nat, Status) (1, 1, Success (PongResp 1)), Submit 5 (7, Status) (1, 2, Success (PongResp 2)),
        Submit 6 (8, Status) (2, 1, Success (PongResp 3)), Wake 90 (7, Status), Other 100,
        Submit 110 (7, Status) (1, 3, StreamTermination EndBlobsByRoot :: nat rpc_response)]"
  obtain out s' where c: "calls response_submit response_wake response_prune s ?cs = (out, s')" by fastforce
  from response_limiter_fifo [OF s c, of "(7, Status)"] s c show ?thesis by (auto simp del: calls.simps)
qed

end
