(* ===== verification/SelfLimiter.thy ===== *)
theory SelfLimiter
  imports ResponseLimiter
begin

text \<open>
  The limiter of our own requests, \<open>rpc/self_limiter.rs\<close>. Per peer and protocol at most
  \<open>MAX_CONCURRENT_REQUESTS\<close> requests are in flight; further ones, and those an optional rate limiter
  refuses, wait in a queue with an entry in a delay queue. Requests released later collect in a list
  of ready requests that the poll hands out one at a time, the last one first. As in
  \<^theory_text>\<open>ResponseLimiter\<close>, the expired entries of the delay queue and the tick of the prune timer are
  arguments of the poll; the times at which requests were queued serve only metrics.
\<close>

definition MAX_CONCURRENT_REQUESTS :: nat where
  "MAX_CONCURRENT_REQUESTS = 2"

text \<open>One hundred milliseconds, in nanoseconds.\<close>

abbreviation WAIT_TIME_DUE_TO_CONCURRENT_REQUESTS :: nanos where
  "WAIT_TIME_DUE_TO_CONCURRENT_REQUESTS \<equiv> 100 * 1000000"

datatype ('id, 'root, 'pl) rpc_send =
    SendRequest 'id "'root request_type"
  | SendResponse nat "'pl rpc_response"
  | SendShutdown 'id goodbye_reason

record ('id, 'root) queued_request =
  q_req :: "'root request_type"
  q_id :: 'id
  q_queued_at :: nanos

record ('peer, 'id, 'root, 'pl) self_limiter =
  active_requests :: "'peer \<rightharpoonup> (protocol \<rightharpoonup> nat)"
  delayed_requests :: "('peer limiter_key \<times> ('id, 'root) queued_request list) list"
  next_peer_request :: "('peer limiter_key \<times> nanos) list"
  sl_rate_limiter :: "'peer rpc_rate_limiter option"
  ready_requests :: "('peer \<times> ('id, 'root, 'pl) rpc_send \<times> nanos) list"

text \<open>Why a request is not sent at once.\<close>

datatype self_limiter_error = PendingRequests | RateLimitedRequest

definition self_limiter_new :: "rate_limiter_config option \<Rightarrow> (('peer, 'id, 'root, 'pl) self_limiter, string) result" where
  "self_limiter_new config =
     result_bind (case config of None \<Rightarrow> Ok None | Some c \<Rightarrow> result_bind (new_with_config c) (\<lambda>l. Ok (Some l)))
       (\<lambda>l. Ok \<lparr>active_requests = Map.empty, delayed_requests = [], next_peer_request = [], sl_rate_limiter = l,
                 ready_requests = []\<rparr>)"

text \<open>The configuration the number of responses of a request depends on, and the time.\<close>

record limiter_env =
  env_epoch_at_slot :: "nat \<Rightarrow> nat"
  env_chain_config :: chain_config
  env_now :: nanos

definition in_flight :: "('peer \<rightharpoonup> (protocol \<rightharpoonup> nat)) \<Rightarrow> 'peer \<Rightarrow> protocol \<Rightarrow> nat" where
  "in_flight active peer p =
     (case active peer of None \<Rightarrow> 0 | Some m \<Rightarrow> (case m p of None \<Rightarrow> 0 | Some n \<Rightarrow> n))"

definition add_active :: "('peer \<rightharpoonup> (protocol \<rightharpoonup> nat)) \<Rightarrow> 'peer \<Rightarrow> protocol \<Rightarrow> ('peer \<rightharpoonup> (protocol \<rightharpoonup> nat))" where
  "add_active active peer p =
     active(peer \<mapsto> (case active peer of None \<Rightarrow> Map.empty | Some m \<Rightarrow> m)(p \<mapsto> in_flight active peer p + 1))"

definition try_send_request ::
    "limiter_env \<Rightarrow> ('peer \<rightharpoonup> (protocol \<rightharpoonup> nat)) \<Rightarrow> 'peer rpc_rate_limiter option \<Rightarrow> 'peer \<Rightarrow> 'id \<Rightarrow> 'root request_type
     \<Rightarrow> (('id, 'root, 'pl) rpc_send, ('id, 'root) queued_request \<times> nanos) result
        \<times> ('peer \<rightharpoonup> (protocol \<rightharpoonup> nat)) \<times> 'peer rpc_rate_limiter option" where
  "try_send_request env active limiter peer request_id req =
     (let p = request_protocol req;
          queued = \<lparr>q_req = req, q_id = request_id, q_queued_at = env_now env\<rparr>
      in if MAX_CONCURRENT_REQUESTS \<le> in_flight active peer p
         then (Err (queued, WAIT_TIME_DUE_TO_CONCURRENT_REQUESTS), active, limiter)
         else
           (case limiter of
              None \<Rightarrow> (Ok (SendRequest request_id req), add_active active peer p, None)
            | Some l \<Rightarrow>
                (case rpc_allows l (env_now env) peer p (max_responses (env_epoch_at_slot env) (env_chain_config env) req) of
                   (Err (TooSoon wait_time), l') \<Rightarrow> (Err (queued, wait_time), active, Some l')
                 | (Err TooLarge, l') \<Rightarrow> (Ok (SendRequest request_id req), add_active active peer p, Some l')
                 | (Ok _, l') \<Rightarrow> (Ok (SendRequest request_id req), add_active active peer p, Some l'))))"

definition self_allows ::
    "limiter_env \<Rightarrow> ('peer, 'id, 'root, 'pl) self_limiter \<Rightarrow> 'peer \<Rightarrow> 'id \<Rightarrow> 'root request_type
     \<Rightarrow> (('id, 'root, 'pl) rpc_send, self_limiter_error) result \<times> ('peer, 'id, 'root, 'pl) self_limiter" where
  "self_allows env s peer request_id req =
     (let key = (peer, request_protocol req) in
      case map_of (delayed_requests s) key of
        Some queue \<Rightarrow>
          (Err PendingRequests,
           s\<lparr>delayed_requests := AList.update key
               (queue @ [\<lparr>q_req = req, q_id = request_id, q_queued_at = env_now env\<rparr>]) (delayed_requests s)\<rparr>)
      | None \<Rightarrow>
          (case try_send_request env (active_requests s) (sl_rate_limiter s) peer request_id req of
             (Err (rate_limited_req, wait_time), active, l) \<Rightarrow>
               (Err RateLimitedRequest,
                s\<lparr>active_requests := active, sl_rate_limiter := l,
                  next_peer_request := next_peer_request s @ [(key, env_now env + wait_time)],
                  delayed_requests := AList.update key [rate_limited_req] (delayed_requests s)\<rparr>)
           | (Ok event, active, l) \<Rightarrow> (Ok event, s\<lparr>active_requests := active, sl_rate_limiter := l\<rparr>)))"

text \<open>The loop over a queue: what becomes ready, what stays, and the time to wait for the rest.\<close>

fun release_requests ::
    "limiter_env \<Rightarrow> 'peer \<Rightarrow> ('peer \<rightharpoonup> (protocol \<rightharpoonup> nat)) \<Rightarrow> 'peer rpc_rate_limiter option \<Rightarrow> ('id, 'root) queued_request list
     \<Rightarrow> ('peer \<times> ('id, 'root, 'pl) rpc_send \<times> nanos) list \<times> ('id, 'root) queued_request list \<times> nanos option
        \<times> ('peer \<rightharpoonup> (protocol \<rightharpoonup> nat)) \<times> 'peer rpc_rate_limiter option" where
  "release_requests env peer active l [] = ([], [], None, active, l)"
| "release_requests env peer active l (q # queue) =
     (case try_send_request env active l peer (q_id q) (q_req q) of
        (Err (_, wait_time), active', l') \<Rightarrow> ([], q # queue, Some wait_time, active', l')
      | (Ok event, active', l') \<Rightarrow>
          (let (ready, rest, wait, active'', l'') = release_requests env peer active' l' queue
           in ((peer, event, q_queued_at q) # ready, rest, wait, active'', l'')))"

definition next_peer_request_ready ::
    "limiter_env \<Rightarrow> ('peer, 'id, 'root, 'pl) self_limiter \<Rightarrow> 'peer \<Rightarrow> protocol \<Rightarrow> ('peer, 'id, 'root, 'pl) self_limiter" where
  "next_peer_request_ready env s peer p =
     (case map_of (delayed_requests s) (peer, p) of
        None \<Rightarrow> s
      | Some queue \<Rightarrow>
          (let (ready, rest, wait, active, l) = release_requests env peer (active_requests s) (sl_rate_limiter s) queue in
           s\<lparr>active_requests := active, sl_rate_limiter := l, ready_requests := ready_requests s @ ready,
             next_peer_request := next_peer_request s
               @ (case wait of None \<Rightarrow> [] | Some t \<Rightarrow> [((peer, p), env_now env + t)]),
             delayed_requests := put_queue (peer, p) rest (delayed_requests s)\<rparr>))"

definition self_peer_disconnected ::
    "('peer, 'id, 'root, 'pl) self_limiter \<Rightarrow> 'peer \<Rightarrow> ('id \<times> protocol) list \<times> ('peer, 'id, 'root, 'pl) self_limiter" where
  "self_peer_disconnected s peer =
     (concat (map (\<lambda>((map_peer_id, p), queue). if map_peer_id = peer then map (\<lambda>q. (q_id q, p)) queue else [])
        (delayed_requests s)),
      s\<lparr>active_requests := (active_requests s)(peer := None),
        delayed_requests := filter (\<lambda>((map_peer_id, _), _). map_peer_id \<noteq> peer) (delayed_requests s)\<rparr>)"

definition request_completed ::
    "('peer, 'id, 'root, 'pl) self_limiter \<Rightarrow> 'peer \<Rightarrow> protocol \<Rightarrow> ('peer, 'id, 'root, 'pl) self_limiter" where
  "request_completed s peer p =
     (case active_requests s peer of
        None \<Rightarrow> s
      | Some m \<Rightarrow>
          (case m p of
             None \<Rightarrow> s
           | Some n \<Rightarrow> s\<lparr>active_requests := (active_requests s)(peer \<mapsto> m(p := if 1 < n then Some (n - 1) else None))\<rparr>))"

definition self_prune :: "nanos \<Rightarrow> ('peer, 'id, 'root, 'pl) self_limiter \<Rightarrow> ('peer, 'id, 'root, 'pl) self_limiter" where
  "self_prune now s = s\<lparr>sl_rate_limiter := map_option (\<lambda>l. rpc_prune l now) (sl_rate_limiter s)\<rparr>"

text \<open>At most one expired key per poll; \<open>SmallVec::pop\<close> takes the last ready request.\<close>

definition self_poll_ready ::
    "limiter_env \<Rightarrow> 'peer limiter_key option \<Rightarrow> bool \<Rightarrow> ('peer, 'id, 'root, 'pl) self_limiter
     \<Rightarrow> ('peer \<times> ('id, 'root, 'pl) rpc_send) option \<times> ('peer, 'id, 'root, 'pl) self_limiter" where
  "self_poll_ready env expired tick s =
     (let s1 = (case expired of
                  None \<Rightarrow> s
                | Some (peer, p) \<Rightarrow>
                    next_peer_request_ready env
                      (s\<lparr>next_peer_request := take_timer (peer, p) (next_peer_request s)\<rparr>) peer p);
          s2 = (if tick then self_prune (env_now env) s1 else s1)
      in if ready_requests s2 = [] then (None, s2)
         else (Some (fst (last (ready_requests s2)), fst (snd (last (ready_requests s2)))),
               s2\<lparr>ready_requests := butlast (ready_requests s2)\<rparr>))"

section \<open>It is a delayed queue\<close>

definition within_limit :: "('peer \<rightharpoonup> (protocol \<rightharpoonup> nat)) \<Rightarrow> bool" where
  "within_limit active \<longleftrightarrow> (\<forall>peer p. in_flight active peer p \<le> MAX_CONCURRENT_REQUESTS)"

text \<open>Queues as for responses; a counter is never zero and never above the limit.\<close>

definition self_limiter_ok :: "('peer, 'id, 'root, 'pl) self_limiter \<Rightarrow> bool" where
  "self_limiter_ok s \<longleftrightarrow> queues_ok (delayed_requests s) (next_peer_request s) \<and>
     within_limit (active_requests s)"

definition request_queue :: "('peer, 'id, 'root, 'pl) self_limiter \<Rightarrow> 'peer limiter_key \<Rightarrow> ('id \<times> 'root request_type) list" where
  "request_queue s k = map (\<lambda>q. (q_id q, q_req q)) (queue_of (delayed_requests s) k)"

definition request_timer :: "('peer, 'id, 'root, 'pl) self_limiter \<Rightarrow> 'peer limiter_key \<Rightarrow> bool" where
  "request_timer s k \<longleftrightarrow> k \<in> fst ` set (next_peer_request s)"

definition request_submit ::
    "limiter_env \<Rightarrow> ('peer, 'id, 'root, 'pl) self_limiter \<Rightarrow> 'peer limiter_key \<Rightarrow> 'id \<times> 'root request_type
     \<Rightarrow> bool \<times> ('peer, 'id, 'root, 'pl) self_limiter" where
  "request_submit env s k x = apfst is_ok (self_allows env s (fst k) (fst x) (snd x))"

text \<open>Waking a key: what has been added to the ready requests.\<close>

definition request_wake ::
    "limiter_env \<Rightarrow> ('peer, 'id, 'root, 'pl) self_limiter \<Rightarrow> 'peer limiter_key
     \<Rightarrow> ('id \<times> 'root request_type) list \<times> ('peer, 'id, 'root, 'pl) self_limiter" where
  "request_wake env s k =
     (let s' = next_peer_request_ready env (s\<lparr>next_peer_request := take_timer k (next_peer_request s)\<rparr>) (fst k) (snd k)
      in (List.map_filter (\<lambda>(_, e, _). case e of SendRequest i r \<Rightarrow> Some (i, r) | _ \<Rightarrow> None)
            (drop (length (ready_requests s)) (ready_requests s')), s'))"

datatype 'peer other_call = Completed 'peer protocol | PruneTick nanos | TakeReady

fun request_other :: "'peer other_call \<Rightarrow> ('peer, 'id, 'root, 'pl) self_limiter \<Rightarrow> ('peer, 'id, 'root, 'pl) self_limiter" where
  "request_other (Completed peer p) s = request_completed s peer p"
| "request_other (PruneTick now) s = self_prune now s"
| "request_other TakeReady s = s\<lparr>ready_requests := butlast (ready_requests s)\<rparr>"

lemma in_flight_add:
  "in_flight (add_active active peer p) peer' p' =
     (if peer' = peer \<and> p' = p then in_flight active peer p + 1 else in_flight active peer' p')"
  by (auto simp: in_flight_def add_active_def split: option.splits)

lemma try_send_cases:
  assumes "try_send_request env active l peer i r = (x, active', l')"
  shows "(case x of
      Ok ev \<Rightarrow> ev = SendRequest i r \<and> in_flight active peer (request_protocol r) < MAX_CONCURRENT_REQUESTS
        \<and> active' = add_active active peer (request_protocol r)
    | Err (q, wait) \<Rightarrow> q_id q = i \<and> q_req q = r \<and> active' = active)"
  using assms
  by (auto simp: try_send_request_def Let_def not_le
      split: if_splits option.splits prod.splits sum.splits rate_limited_err.splits)

lemma try_send_within: "within_limit active \<Longrightarrow> try_send_request env active l peer i r = (x, active', l') \<Longrightarrow> within_limit active'"
  by (drule try_send_cases) (auto simp: within_limit_def in_flight_add split: sum.splits)

lemma release_requests_split:
  fixes ready :: "('peer \<times> ('id, 'root, 'pl) rpc_send \<times> nanos) list"
  assumes "release_requests env peer active l queue = (ready, rest, wait, active', l')"
  shows "\<exists>released. queue = released @ rest \<and> (rest \<noteq> [] \<longleftrightarrow> wait \<noteq> None)
     \<and> ready = map (\<lambda>q. (peer, SendRequest (q_id q) (q_req q), q_queued_at q)) released
     \<and> (within_limit active \<longrightarrow> within_limit active')"
  using assms
proof (induction queue arbitrary: active l ready)
  case (Cons q queue)
  obtain x :: "(('id, 'root, 'pl) rpc_send, ('id, 'root) queued_request \<times> nanos) result" and a1 l1 where
    t: "try_send_request env active l peer (q_id q) (q_req q) = (x, a1, l1)" by (rule prod_cases3)
  note c = try_send_cases [OF t] and w = try_send_within [OF _ t]
  show ?case
  proof (cases x)
    case (Inl e)
    then show ?thesis using Cons.prems t w by (cases e) auto
  next
    case (Inr ev)
    obtain ready1 where r: "release_requests env peer a1 l1 queue = (ready1, rest, wait, active', l')"
      "ready = (peer, ev, q_queued_at q) # ready1"
      using Cons.prems t Inr by (auto split: prod.splits)
    from Cons.IH [OF r(1)] obtain released where "queue = released @ rest \<and> (rest \<noteq> [] \<longleftrightarrow> wait \<noteq> None)
     \<and> ready1 = map (\<lambda>q. (peer, SendRequest (q_id q) (q_req q), q_queued_at q)) released
     \<and> (within_limit a1 \<longrightarrow> within_limit active')" by blast
    then show ?thesis using r(2) c w Inr by (intro exI [of _ "q # released"]) auto
  qed
qed simp

lemma self_allows_cases:
  fixes s s' :: "('peer, 'id, 'root, 'pl) self_limiter"
  assumes "self_limiter_ok s" "self_allows env s peer i r = (x, s')"
  shows "self_limiter_ok s' \<and> ready_requests s' = ready_requests s \<and>
    (case x of
       Ok ev \<Rightarrow> ev = SendRequest i r \<and> queue_of (delayed_requests s) (peer, request_protocol r) = []
         \<and> delayed_requests s' = delayed_requests s
     | Err _ \<Rightarrow> \<exists>q. q_id q = i \<and> q_req q = r \<and>
         queue_of (delayed_requests s') = (queue_of (delayed_requests s))((peer, request_protocol r) :=
            queue_of (delayed_requests s) (peer, request_protocol r) @ [q]))"
proof -
  let ?k = "(peer, request_protocol r)"
  have put: "AList.update ?k (xs @ [q]) m = put_queue ?k (xs @ [q]) m" for xs q m by (simp add: put_queue_def)
  have ok: "queues_ok (delayed_requests s) (next_peer_request s)" "within_limit (active_requests s)"
    using assms(1) by (simp_all add: self_limiter_ok_def)
  show ?thesis
  proof (cases "map_of (delayed_requests s) ?k")
    case None
    obtain y :: "(('id, 'root, 'pl) rpc_send, ('id, 'root) queued_request \<times> nanos) result" and a l where
      t: "try_send_request env (active_requests s) (sl_rate_limiter s) peer i r = (y, a, l)" by (rule prod_cases3)
    note c = try_send_cases [OF t] and w = try_send_within [OF ok(2) t]
    have e: "queue_of (delayed_requests s) ?k = []" using None by (simp add: queue_of_def)
    show ?thesis
    proof (cases y)
      case (Inl z)
      obtain q wait where z: "z = (q, wait)" by fastforce
      have "queues_ok (put_queue ?k ([] @ [q]) (delayed_requests s)) (next_peer_request s @ [(?k, env_now env + wait)])"
        using ok(1) by (rule queues_ok_put) auto
      moreover have "x = Err RateLimitedRequest" "delayed_requests s' = put_queue ?k ([] @ [q]) (delayed_requests s)"
        "next_peer_request s' = next_peer_request s @ [(?k, env_now env + wait)]" "active_requests s' = a"
        "ready_requests s' = ready_requests s"
        using assms(2) None t Inl z put [of "[]" q] by (auto simp: self_allows_def Let_def)
      ultimately show ?thesis using c w e Inl z by (auto simp: self_limiter_ok_def)
    next
      case (Inr ev)
      then show ?thesis using assms(2) None t c w e ok(1) by (auto simp: self_allows_def self_limiter_ok_def Let_def)
    qed
  next
    case (Some xs)
    have e: "queue_of (delayed_requests s) ?k = xs" using Some by (simp add: queue_of_def)
    have "?k \<in> fst ` set (next_peer_request s)" using ok(1) Some by (auto dest: queues_ok_lookup)
    then have "queues_ok (put_queue ?k (xs @ [q]) (delayed_requests s)) (next_peer_request s)" for q
      using ok(1) by (intro queues_ok_put) auto
    then show ?thesis using assms(2) Some e ok(2) put [of xs]
      by (auto simp: self_allows_def self_limiter_ok_def Let_def
          intro!: exI [of _ "\<lparr>q_req = r, q_id = i, q_queued_at = env_now env\<rparr>"])
  qed
qed

lemma next_ready_cases:
  fixes s s' :: "('peer, 'id, 'root, 'pl) self_limiter"
  assumes "queues_ok (delayed_requests s) ts" "within_limit (active_requests s)"
    "next_peer_request s = take_timer (peer, p) ts" "next_peer_request_ready env s peer p = s'"
  shows "self_limiter_ok s' \<and> (\<exists>released.
    queue_of (delayed_requests s) = (queue_of (delayed_requests s'))((peer, p) := released @ queue_of (delayed_requests s') (peer, p)) \<and>
    ready_requests s' = ready_requests s @ map (\<lambda>q. (peer, SendRequest (q_id q) (q_req q), q_queued_at q)) released)"
proof (cases "map_of (delayed_requests s) (peer, p)")
  case None
  then have e: "queue_of (delayed_requests s) (peer, p) = []" by (simp add: queue_of_def)
  then have i: "(queue_of (delayed_requests s))((peer, p) := []) = queue_of (delayed_requests s)" by (rule fun_upd_idem)
  have "queues_ok (put_queue (peer, p) [] (delayed_requests s)) (take_timer (peer, p) ts)"
    using assms(1) by (rule queues_ok_put) (auto simp: take_timer_other)
  moreover have "put_queue (peer, p) [] (delayed_requests s) = delayed_requests s"
    using None by (simp add: put_queue_def delete_id map_of_eq_None_iff)
  moreover have "s' = s" using assms(4) None by (simp add: next_peer_request_ready_def)
  ultimately show ?thesis using assms(2,3) e i by (simp add: self_limiter_ok_def)
next
  case (Some queue)
  obtain ready :: "('peer \<times> ('id, 'root, 'pl) rpc_send \<times> nanos) list" and rest wait active l where r:
    "release_requests env peer (active_requests s) (sl_rate_limiter s) queue = (ready, rest, wait, active, l)"
    by (rule prod_cases5)
  from release_requests_split [OF r] assms(2) obtain released where rel: "queue = released @ rest" "rest \<noteq> [] \<longleftrightarrow> wait \<noteq> None"
    "ready = map (\<lambda>q. (peer, SendRequest (q_id q) (q_req q), q_queued_at q)) released" "within_limit active" by auto
  have e: "queue_of (delayed_requests s) (peer, p) = queue" using Some by (simp add: queue_of_def)
  let ?ts = "take_timer (peer, p) ts @ (case wait of None \<Rightarrow> [] | Some t \<Rightarrow> [((peer, p), env_now env + t)])"
  have "queues_ok (put_queue (peer, p) rest (delayed_requests s)) ?ts"
    using assms(1) by (rule queues_ok_put) (use rel(2) in \<open>auto simp: take_timer_other image_Un\<close>)
  moreover have "delayed_requests s' = put_queue (peer, p) rest (delayed_requests s)" "next_peer_request s' = ?ts"
    "active_requests s' = active" "ready_requests s' = ready_requests s @ ready"
    using assms(3,4) Some r by (auto simp: next_peer_request_ready_def)
  moreover have "(queue_of (delayed_requests s))((peer, p) := released @ rest) = queue_of (delayed_requests s)"
    using e rel(1) by (intro fun_upd_idem) simp
  ultimately show ?thesis using rel(3,4) by (auto simp: self_limiter_ok_def intro!: exI [of _ released])
qed

lemma request_completed_flight:
  "in_flight (active_requests (request_completed s peer p)) peer' p' =
     (if peer' = peer \<and> p' = p then in_flight (active_requests s) peer p - 1 else in_flight (active_requests s) peer' p')"
  by (auto simp: request_completed_def in_flight_def split: option.splits)

lemma request_completed_fields [simp]:
  "delayed_requests (request_completed s peer p) = delayed_requests s"
  "next_peer_request (request_completed s peer p) = next_peer_request s"
  "ready_requests (request_completed s peer p) = ready_requests s"
  by (simp_all add: request_completed_def split: option.splits)

lemma request_other_ok: "self_limiter_ok s \<Longrightarrow> self_limiter_ok (request_other y s) \<and> request_queue (request_other y s) = request_queue s"
  by (cases y) (auto simp: self_limiter_ok_def within_limit_def request_queue_def request_completed_flight self_prune_def
      fun_eq_iff intro: diff_le_self le_trans)

interpretation request_channel: delayed_queue self_limiter_ok "\<lambda>k x. snd k = request_protocol (snd x)" request_queue
    request_timer request_submit request_wake request_other
proof
  fix s s' :: "('peer, 'id, 'root, 'pl) self_limiter" and k :: "'peer limiter_key" and x env xs
  assume ok: "self_limiter_ok s"
  show "request_queue s k \<noteq> [] \<Longrightarrow> request_timer s k" using ok
    by (auto simp: self_limiter_ok_def request_queue_def request_timer_def queue_of_def dest: queues_ok_lookup split: option.splits)
  show "self_limiter_ok (request_other y s) \<and> request_queue (request_other y s) = request_queue s" for y
    using ok by (rule request_other_ok)
  assume "request_wake env s k = (xs, s')"
  then have w: "next_peer_request_ready env (s\<lparr>next_peer_request := take_timer k (next_peer_request s)\<rparr>) (fst k) (snd k) = s'"
    "xs = List.map_filter (\<lambda>(_, e, _). case e of SendRequest i r \<Rightarrow> Some (i, r) | _ \<Rightarrow> None)
            (drop (length (ready_requests s)) (ready_requests s'))" by (auto simp: request_wake_def Let_def)
  from next_ready_cases [OF _ _ _ w(1), of "next_peer_request s"] ok obtain released where rel: "self_limiter_ok s'"
    "queue_of (delayed_requests s) = (queue_of (delayed_requests s'))(k := released @ queue_of (delayed_requests s') k)"
    "ready_requests s' = ready_requests s @ map (\<lambda>q. (fst k, SendRequest (q_id q) (q_req q), q_queued_at q)) released"
    by (auto simp: self_limiter_ok_def)
  then have "xs = map (\<lambda>q. (q_id q, q_req q)) released" by (simp add: w(2) map_filter_def comp_def)
  then show "self_limiter_ok s' \<and> request_queue s = (request_queue s')(k := xs @ request_queue s' k)"
    using rel by (simp add: request_queue_def fun_eq_iff)
next
  fix s s' :: "('peer, 'id, 'root, 'pl) self_limiter" and k :: "'peer limiter_key" and x :: "'id \<times> 'root request_type" and env
  assume ok: "self_limiter_ok s" and k: "snd k = request_protocol (snd x)"
  have kk: "(fst k, request_protocol (snd x)) = k" using k by (cases k) simp
  obtain y s1 where y: "self_allows env s (fst k) (fst x) (snd x) = (y, s1)" by (rule prod.exhaust)
  note c = self_allows_cases [OF ok y, unfolded kk]
  show "request_submit env s k x = (True, s') \<Longrightarrow>
      self_limiter_ok s' \<and> request_queue s k = [] \<and> request_queue s' = request_queue s"
    using c y by (cases y) (auto simp: request_submit_def request_queue_def fun_eq_iff)
  show "self_limiter_ok s' \<and> request_queue s' = (request_queue s)(k := request_queue s k @ [x])"
    if sub: "request_submit env s k x = (False, s')"
  proof -
    obtain e where "y = Err e" "s' = s1" using sub y by (cases y) (auto simp: request_submit_def)
    with c obtain q where "x = (q_id q, q_req q)" "self_limiter_ok s'"
      "queue_of (delayed_requests s') = (queue_of (delayed_requests s))(k := queue_of (delayed_requests s) k @ [q])"
      by (cases x) auto
    then show ?thesis by (simp add: request_queue_def fun_eq_iff)
  qed
qed

section \<open>Properties\<close>

text \<open>
  C27. Our own requests leave their queues in the order they were made: per peer and protocol, what was
  passed on or became ready followed by what waits is what was submitted, whoever waits has a pending timer, and the
  counted requests in flight never exceed \<open>MAX_CONCURRENT_REQUESTS\<close>. This holds for every
  configuration and whatever completions, ticks and polls come in between.
\<close>

theorem self_limiter_fifo:
  assumes "self_limiter_new config = Ok s" "submits_ok (\<lambda>k x. snd k = request_protocol (snd x)) cs"
    "calls request_submit request_wake request_other s cs = (out, s')"
  shows "of_key k (submitted cs) = of_key k out @ request_queue s' k \<and>
         (request_queue s' k \<noteq> [] \<longrightarrow> request_timer s' k) \<and>
         in_flight (active_requests s') peer p \<le> MAX_CONCURRENT_REQUESTS"
proof -
  have s: "delayed_requests s = []" "active_requests s = Map.empty" using assms(1) by (auto simp: self_limiter_new_def result_bind_eq_Ok)
  have "self_limiter_ok s" "\<And>k. request_queue s k = []"
    by (simp_all add: s self_limiter_ok_def queues_ok_def within_limit_def in_flight_def request_queue_def queue_of_def)
  then show ?thesis using request_channel.calls_channel [of s cs out s' k] request_channel.calls_fifo [of s cs out s' k] assms(2,3)
    by (auto simp: self_limiter_ok_def within_limit_def)
qed

definition demo_env :: "nanos \<Rightarrow> limiter_env" where
  "demo_env now = \<lparr>env_epoch_at_slot = (\<lambda>slot. slot div 32),
     env_chain_config = \<lparr>max_request_blocks = (\<lambda>_. 8), max_request_blob_sidecars = (\<lambda>_. 8),
       max_data_columns_by_root_request = 8, max_blobs_per_block = (\<lambda>_. 6), cfg_max_request_blocks = 8,
       cfg_max_request_blocks_deneb = 8, cfg_custody_requirement = 4, sync_committee_subnet_count = 4\<rparr>,
     env_now = now\<rparr>"

text \<open>Four pings without a rate limiter: two pass, two wait until one completes.\<close>

theorem self_limiter_fifo_witness:
  "\<exists>(s :: (nat, nat, nat, nat) self_limiter) out s'. self_limiter_new None = Ok s \<and>
     calls request_submit request_wake request_other s
       [Submit (demo_env 0) (7, Ping) (1, PingReq 5), Submit (demo_env 1) (7, Ping) (2, PingReq 5),
        Submit (demo_env 2) (7, Ping) (3, PingReq 5), Submit (demo_env 3) (7, Ping) (4, PingReq 5),
        Other (Completed 7 Ping), Wake (demo_env 200000000) (7, Ping)] = (out, s') \<and>
     [(1, PingReq 5), (2, PingReq 5), (3, PingReq 5), (4, PingReq 5)] = of_key (7, Ping) out @ request_queue s' (7, Ping) \<and>
     in_flight (active_requests s') 7 Ping \<le> MAX_CONCURRENT_REQUESTS"
proof -
  let ?cs = "[Submit (demo_env 0) (7 :: nat, Ping) (1 :: nat, PingReq 5 :: nat request_type),
        Submit (demo_env 1) (7, Ping) (2, PingReq 5),
        Submit (demo_env 2) (7, Ping) (3, PingReq 5), Submit (demo_env 3) (7, Ping) (4, PingReq 5),
        Other (Completed 7 Ping), Wake (demo_env 200000000) (7, Ping)]"
  obtain s :: "(nat, nat, nat, nat) self_limiter" where s: "self_limiter_new None = Ok s" by (simp add: self_limiter_new_def)
  obtain out s' where c: "calls request_submit request_wake request_other s ?cs = (out, s')" by (rule prod.exhaust)
  have "submits_ok (\<lambda>k x. snd k = request_protocol (snd x)) ?cs" by (simp add: request_protocol_def)
  from self_limiter_fifo [OF s this c, of "(7, Ping)" 7 Ping] s c show ?thesis by (auto simp del: calls.simps)
qed

end
