(* ===== verification/RpcBehaviour.thy ===== *)
theory RpcBehaviour
  imports SelfLimiter
begin

text \<open>
  The network behaviour of the request/response protocols, \<open>rpc/mod.rs\<close>: it gives requests of the
  application to the limiter of our own requests, answers of the application to the response
  limiter, keeps the inbound requests that still await an answer, and turns what the connection
  handlers and the swarm report into events. \<open>None\<close> is the panic of \<open>Protocol::terminator\<close> on the
  protocol for which it is a \<open>todo!()\<close>. Identifiers of connections and substreams are numbers.
\<close>

section \<open>Messages\<close>

record inbound_request_id =
  ir_connection :: nat
  ir_substream :: nat

datatype ('id, 'root, 'pl) rpc_received =
    ReceivedRequest inbound_request_id "'root request_type"
  | ReceivedResponse 'id "'pl rpc_success_response"
  | EndOfStream 'id response_termination

datatype 'id handler_err =
    InboundErr nat protocol rpc_error
  | OutboundErr 'id protocol rpc_error

datatype ('id, 'root, 'pl) handler_event =
    HandlerOk "('id, 'root, 'pl) rpc_received"
  | HandlerFailed "'id handler_err"
  | HandlerClose rpc_error

record ('peer, 'id, 'root, 'pl) rpc_message =
  msg_peer :: 'peer
  msg_connection :: nat
  message :: "(('id, 'root, 'pl) rpc_received, 'id handler_err) result"

datatype notify_handler = AnyHandler | OneHandler nat

datatype ('peer, 'id, 'root, 'pl) to_swarm =
    NotifyHandler 'peer notify_handler "('id, 'root, 'pl) rpc_send"
  | GenerateEvent "('peer, 'id, 'root, 'pl) rpc_message"
  | CloseConnection 'peer

record ('peer, 'root) active_inbound_request =
  ai_peer :: 'peer
  ai_request :: "'root request_type"
  ai_disconnected :: bool

record ('peer, 'id, 'root, 'pl) rpc =
  rpc_response_limiter :: "('peer, 'pl) response_limiter option"
  outbound_request_limiter :: "('peer, 'id, 'root, 'pl) self_limiter"
  active_inbound_requests :: "(inbound_request_id \<times> ('peer, 'root) active_inbound_request) list"
  events :: "('peer, 'id, 'root, 'pl) to_swarm list"
  rpc_seq_number :: nat

text \<open>\<open>None\<close> when a limiter configuration is not valid (\<open>expect\<close> in the source).\<close>

definition rpc_new ::
    "rate_limiter_config option \<Rightarrow> rate_limiter_config option \<Rightarrow> nat \<Rightarrow> ('peer, 'id, 'root, 'pl) rpc option" where
  "rpc_new inbound outbound seq =
     (case (case inbound of None \<Rightarrow> Ok None | Some c \<Rightarrow> result_bind (response_limiter_new c) (\<lambda>l. Ok (Some l)),
            self_limiter_new outbound) of
        (Ok rl, Ok sl) \<Rightarrow>
          Some \<lparr>rpc_response_limiter = rl, outbound_request_limiter = sl, active_inbound_requests = [], events = [],
                rpc_seq_number = seq\<rparr>
      | _ \<Rightarrow> None)"

section \<open>Operations of the application\<close>

abbreviation push_event :: "('peer, 'id, 'root, 'pl) to_swarm \<Rightarrow> ('peer, 'id, 'root, 'pl) rpc \<Rightarrow> ('peer, 'id, 'root, 'pl) rpc" where
  "push_event e s \<equiv> s\<lparr>events := events s @ [e]\<rparr>"

definition send_response_inner ::
    "limiter_env \<Rightarrow> ('peer, 'id, 'root, 'pl) rpc \<Rightarrow> 'peer \<Rightarrow> protocol \<Rightarrow> inbound_request_id \<Rightarrow> 'pl rpc_response
     \<Rightarrow> ('peer, 'id, 'root, 'pl) rpc" where
  "send_response_inner env s peer p rid response =
     (let event = NotifyHandler peer (OneHandler (ir_connection rid)) (SendResponse (ir_substream rid) response) in
      case rpc_response_limiter s of
        None \<Rightarrow> push_event event s
      | Some l \<Rightarrow>
          (let (allowed, l') = response_allows (env_now env) l peer p (ir_connection rid) (ir_substream rid) response;
               s' = s\<lparr>rpc_response_limiter := Some l'\<rparr>
           in if allowed then push_event event s' else s'))"

definition is_success :: "'pl rpc_response \<Rightarrow> bool" where
  "is_success r = (case r of Success _ \<Rightarrow> True | _ \<Rightarrow> False)"

definition send_response ::
    "limiter_env \<Rightarrow> ('peer, 'id, 'root, 'pl) rpc \<Rightarrow> inbound_request_id \<Rightarrow> 'pl rpc_response
     \<Rightarrow> ((unit, 'pl rpc_response) result \<times> ('peer, 'id, 'root, 'pl) rpc) option" where
  "send_response env s rid response =
     (case map_of (active_inbound_requests s) rid of
        None \<Rightarrow> Some (Err response, s)
      | Some a \<Rightarrow>
          (let active = AList.delete rid (active_inbound_requests s); p = request_protocol (ai_request a) in
           case terminator p of
             None \<Rightarrow> None
           | Some t \<Rightarrow>
               (let active' = (if t \<noteq> None \<and> is_success response then AList.update rid a active else active);
                    s' = s\<lparr>active_inbound_requests := active'\<rparr>
                in if ai_disconnected a then Some (Ok (), s')
                   else Some (Ok (), send_response_inner env s' (ai_peer a) p rid response))))"

definition send_request ::
    "limiter_env \<Rightarrow> ('peer, 'id, 'root, 'pl) rpc \<Rightarrow> 'peer \<Rightarrow> 'id \<Rightarrow> 'root request_type \<Rightarrow> ('peer, 'id, 'root, 'pl) rpc" where
  "send_request env s peer request_id req =
     (let (r, l) = self_allows env (outbound_request_limiter s) peer request_id req;
          s' = s\<lparr>outbound_request_limiter := l\<rparr>
      in case r of
           Ok event \<Rightarrow> push_event (NotifyHandler peer AnyHandler event) s'
         | Err _ \<Rightarrow> s')"

definition shutdown :: "('peer, 'id, 'root, 'pl) rpc \<Rightarrow> 'peer \<Rightarrow> 'id \<Rightarrow> goodbye_reason \<Rightarrow> ('peer, 'id, 'root, 'pl) rpc" where
  "shutdown s peer i reason = push_event (NotifyHandler peer AnyHandler (SendShutdown i reason)) s"

definition update_seq_number :: "('peer, 'id, 'root, 'pl) rpc \<Rightarrow> nat \<Rightarrow> ('peer, 'id, 'root, 'pl) rpc" where
  "update_seq_number s seq = s\<lparr>rpc_seq_number := seq\<rparr>"

definition rpc_ping :: "limiter_env \<Rightarrow> ('peer, 'id, 'root, 'pl) rpc \<Rightarrow> 'peer \<Rightarrow> 'id \<Rightarrow> ('peer, 'id, 'root, 'pl) rpc" where
  "rpc_ping env s peer i = send_request env s peer i (PingReq (rpc_seq_number s))"

section \<open>Events of the swarm and of the handlers\<close>

definition disconnected_report :: "'peer \<Rightarrow> nat \<Rightarrow> 'id \<Rightarrow> protocol \<Rightarrow> ('peer, 'id, 'root, 'pl) to_swarm" where
  "disconnected_report peer conn i p =
     GenerateEvent \<lparr>msg_peer = peer, msg_connection = conn, message = Err (OutboundErr i p DisconnectedError)\<rparr>"

fun fail_pending :: "'peer \<Rightarrow> nat \<Rightarrow> ('peer, 'id, 'root, 'pl) to_swarm \<Rightarrow> ('peer, 'id, 'root, 'pl) to_swarm" where
  "fail_pending peer conn (NotifyHandler p h (SendRequest i req)) =
     (if p = peer then disconnected_report peer conn i (request_protocol req)
      else NotifyHandler p h (SendRequest i req))"
| "fail_pending peer conn e = e"

text \<open>Only the closing of a connection matters to the behaviour.\<close>

definition on_connection_closed ::
    "('peer, 'id, 'root, 'pl) rpc \<Rightarrow> 'peer \<Rightarrow> nat \<Rightarrow> nat \<Rightarrow> ('peer, 'id, 'root, 'pl) rpc" where
  "on_connection_closed s peer remaining_established conn =
     (if 0 < remaining_established then s
      else
        (let (failed, l) = self_peer_disconnected (outbound_request_limiter s) peer;
             s1 = s\<lparr>outbound_request_limiter := l,
                    events := events s @ map (\<lambda>(i, p). disconnected_report peer conn i p) failed,
                    active_inbound_requests :=
                      map (\<lambda>(rid, a). (rid, if ai_peer a = peer then a\<lparr>ai_disconnected := True\<rparr> else a))
                        (active_inbound_requests s),
                    rpc_response_limiter :=
                      map_option (\<lambda>rl. response_peer_disconnected rl peer) (rpc_response_limiter s)\<rparr>
         in s1\<lparr>events := map (fail_pending peer conn) (events s1)\<rparr>))"

definition active_inbound :: "('peer, 'id, 'root, 'pl) rpc \<Rightarrow> 'peer \<Rightarrow> protocol \<Rightarrow> nat" where
  "active_inbound s peer p =
     length (filter (\<lambda>(_, a). ai_peer a = peer \<and> request_protocol (ai_request a) = p \<and> \<not> ai_disconnected a)
       (active_inbound_requests s))"

text \<open>The answer to a request beyond the limit.\<close>

definition rate_limited_response :: "'pl rpc_response" where
  "rate_limited_response =
     ErrorResp RateLimited
       (error_type_from (map of_char ''Rate limited. There are already 2 active requests with the same protocol''))"

abbreviation generate :: "'peer \<Rightarrow> nat \<Rightarrow> (('id, 'root, 'pl) rpc_received, 'id handler_err) result
     \<Rightarrow> ('peer, 'id, 'root, 'pl) rpc \<Rightarrow> ('peer, 'id, 'root, 'pl) rpc" where
  "generate peer conn m s \<equiv> push_event (GenerateEvent \<lparr>msg_peer = peer, msg_connection = conn, message = m\<rparr>) s"

definition on_request ::
    "limiter_env \<Rightarrow> ('peer, 'id, 'root, 'pl) rpc \<Rightarrow> 'peer \<Rightarrow> nat \<Rightarrow> inbound_request_id \<Rightarrow> 'root request_type
     \<Rightarrow> ('peer, 'id, 'root, 'pl) rpc option" where
  "on_request env s peer conn rid req =
     (if MAX_CONCURRENT_REQUESTS \<le> active_inbound s peer (request_protocol req)
      then Some (send_response_inner env s peer (request_protocol req) rid rate_limited_response)
      else
        (let s1 = s\<lparr>active_inbound_requests :=
               AList.update rid \<lparr>ai_peer = peer, ai_request = req, ai_disconnected = False\<rparr> (active_inbound_requests s)\<rparr>;
             s2 = (case req of
                     PingReq _ \<Rightarrow>
                       (case send_response env s1 rid (Success (PongResp (rpc_seq_number s1))) of
                          Some (Ok _, s2) \<Rightarrow> Some s2
                        | _ \<Rightarrow> None)
                   | _ \<Rightarrow> Some s1)
         in map_option (generate peer conn (Ok (ReceivedRequest rid req))) s2))"

fun on_connection_handler_event ::
    "limiter_env \<Rightarrow> ('peer, 'id, 'root, 'pl) rpc \<Rightarrow> 'peer \<Rightarrow> nat \<Rightarrow> ('id, 'root, 'pl) handler_event
     \<Rightarrow> ('peer, 'id, 'root, 'pl) rpc option" where
  "on_connection_handler_event env s peer conn (HandlerOk (ReceivedRequest rid req)) = on_request env s peer conn rid req"
| "on_connection_handler_event env s peer conn (HandlerOk (ReceivedResponse i response)) =
     map_option (\<lambda>t.
         let s' = (if t = None
                   then s\<lparr>outbound_request_limiter := request_completed (outbound_request_limiter s) peer (success_protocol response)\<rparr>
                   else s)
         in generate peer conn (Ok (ReceivedResponse i response)) s')
       (terminator (success_protocol response))"
| "on_connection_handler_event env s peer conn (HandlerOk (EndOfStream i t)) =
     Some (generate peer conn (Ok (EndOfStream i t))
       (s\<lparr>outbound_request_limiter := request_completed (outbound_request_limiter s) peer (as_protocol t)\<rparr>))"
| "on_connection_handler_event env s peer conn (HandlerFailed err) =
     (let p = (case err of InboundErr _ p _ \<Rightarrow> p | OutboundErr _ p _ \<Rightarrow> p) in
      Some (generate peer conn (Err err)
        (s\<lparr>outbound_request_limiter := request_completed (outbound_request_limiter s) peer p\<rparr>)))"
| "on_connection_handler_event env s peer conn (HandlerClose _) = Some (push_event (CloseConnection peer) s)"

text \<open>
  The poll: what the response limiter releases, at most one ready request, and then the oldest event.
  The expired keys of both delay queues and the ticks of both prune timers are arguments.
\<close>

record 'peer poll_inputs =
  expired_responses :: "'peer limiter_key list"
  response_tick :: bool
  expired_request :: "'peer limiter_key option"
  request_tick :: bool

definition poll_responses ::
    "limiter_env \<Rightarrow> 'peer poll_inputs \<Rightarrow> ('peer, 'id, 'root, 'pl) rpc \<Rightarrow> ('peer, 'id, 'root, 'pl) rpc" where
  "poll_responses env inp s =
     (case rpc_response_limiter s of
        None \<Rightarrow> s
      | Some l \<Rightarrow>
          (let (ready, l') = response_poll_ready (env_now env) (expired_responses inp) (response_tick inp) l;
               responses = (case ready of None \<Rightarrow> [] | Some rs \<Rightarrow> rs)
           in s\<lparr>rpc_response_limiter := Some l',
                events := events s @ map (\<lambda>r. NotifyHandler (qr_peer r) (OneHandler (qr_connection r))
                  (SendResponse (qr_substream r) (qr_response r))) responses\<rparr>))"

definition poll_requests ::
    "limiter_env \<Rightarrow> 'peer poll_inputs \<Rightarrow> ('peer, 'id, 'root, 'pl) rpc \<Rightarrow> ('peer, 'id, 'root, 'pl) rpc" where
  "poll_requests env inp s =
     (let (ready, l) = self_poll_ready env (expired_request inp) (request_tick inp) (outbound_request_limiter s);
          s' = s\<lparr>outbound_request_limiter := l\<rparr>
      in case ready of
           None \<Rightarrow> s'
         | Some (peer, event) \<Rightarrow> push_event (NotifyHandler peer AnyHandler event) s')"

definition rpc_poll ::
    "limiter_env \<Rightarrow> 'peer poll_inputs \<Rightarrow> ('peer, 'id, 'root, 'pl) rpc
     \<Rightarrow> ('peer, 'id, 'root, 'pl) to_swarm option \<times> ('peer, 'id, 'root, 'pl) rpc" where
  "rpc_poll env inp s =
     (let s' = poll_requests env inp (poll_responses env inp s) in
      case events s' of
        [] \<Rightarrow> (None, s')
      | e # es \<Rightarrow> (Some e, s'\<lparr>events := es\<rparr>))"

section \<open>Runs\<close>

text \<open>Every operation on the behaviour; a run collects the events it emits, and \<open>None\<close> is a panic.\<close>

datatype ('peer, 'id, 'root, 'pl) rpc_call =
    CallRequest limiter_env 'peer 'id "'root request_type"
  | CallPing limiter_env 'peer 'id
  | CallResponse limiter_env inbound_request_id "'pl rpc_response"
  | CallShutdown 'peer 'id goodbye_reason
  | CallSeqNumber nat
  | CallClosed 'peer nat nat
  | CallHandler limiter_env 'peer nat "('id, 'root, 'pl) handler_event"
  | CallPoll limiter_env "'peer poll_inputs"

fun rpc_step ::
    "('peer, 'id, 'root, 'pl) rpc \<Rightarrow> ('peer, 'id, 'root, 'pl) rpc_call
     \<Rightarrow> (('peer, 'id, 'root, 'pl) to_swarm list \<times> ('peer, 'id, 'root, 'pl) rpc) option" where
  "rpc_step s (CallRequest env peer i req) = Some ([], send_request env s peer i req)"
| "rpc_step s (CallPing env peer i) = Some ([], rpc_ping env s peer i)"
| "rpc_step s (CallResponse env rid response) = map_option (\<lambda>(_, s'). ([], s')) (send_response env s rid response)"
| "rpc_step s (CallShutdown peer i reason) = Some ([], shutdown s peer i reason)"
| "rpc_step s (CallSeqNumber n) = Some ([], update_seq_number s n)"
| "rpc_step s (CallClosed peer remaining conn) = Some ([], on_connection_closed s peer remaining conn)"
| "rpc_step s (CallHandler env peer conn e) = map_option (Pair []) (on_connection_handler_event env s peer conn e)"
| "rpc_step s (CallPoll env inp) =
     (let (e, s') = rpc_poll env inp s in Some (case e of None \<Rightarrow> [] | Some x \<Rightarrow> [x], s'))"

fun rpc_execute ::
    "('peer, 'id, 'root, 'pl) rpc \<Rightarrow> ('peer, 'id, 'root, 'pl) rpc_call list
     \<Rightarrow> (('peer, 'id, 'root, 'pl) to_swarm list \<times> ('peer, 'id, 'root, 'pl) rpc) option" where
  "rpc_execute s [] = Some ([], s)"
| "rpc_execute s (c # cs) =
     Option.bind (rpc_step s c) (\<lambda>(es, s'). map_option (apfst ((@) es)) (rpc_execute s' cs))"

end
