(* ===== verification/Handler.thy ===== *)
theory Handler
  imports RpcBehaviour Codec RpcConfig
begin

text \<open>
  The handler of one connection, \<open>rpc/handler.rs\<close>: it opens a substream for each of our requests and
  reports what arrives on it, keeps the substreams on which the peer awaits our answers and writes
  those, and shuts the connection down. Substreams, timers and the delay queues are other crates:
  what a poll of them returns is an argument of the poll of the handler. What is handed to a
  substream and accepted by it is part of the result of the poll. \<open>None\<close> is a panic of the source.
\<close>

section \<open>State\<close>

abbreviation IO_ERROR_RETRIES :: nat where
  "IO_ERROR_RETRIES \<equiv> 3"

abbreviation MAX_INBOUND_SUBSTREAMS :: nat where
  "MAX_INBOUND_SUBSTREAMS \<equiv> 32"

datatype handler_state = Active | ShuttingDown | Deactivated

text \<open>
  The future of a busy inbound substream is \<open>send_message_to_inbound_substream\<close> on the message and
  the flag that it holds.
\<close>

datatype 'pl inbound_state = InIdle | InBusy "'pl rpc_response" bool | InPoisoned

record 'pl inbound_info =
  in_state :: "'pl inbound_state"
  pending_items :: "'pl rpc_response list"
  in_protocol :: protocol
  in_remaining :: nat
  in_delay_key :: "nat option"

datatype 'root outbound_state = RequestPendingResponse "'root request_type" | OutClosing | OutPoisoned

record ('id, 'root) outbound_info =
  out_state :: "'root outbound_state"
  out_delay_key :: nat
  out_proto :: protocol
  out_remaining :: "nat option"
  out_req_id :: 'id

record ('id, 'root, 'pl) handler =
  h_connection_id :: nat
  events_out :: "('id, 'root, 'pl) handler_event list"
  dial_queue :: "('id \<times> 'root request_type) list"
  dial_negotiated :: nat
  inbound_substreams :: "(nat \<times> 'pl inbound_info) list"
  inbound_delay :: "nat list"
  outbound_substreams :: "(nat \<times> ('id, 'root) outbound_info) list"
  outbound_delay :: "nat list"
  current_inbound_id :: nat
  current_outbound_id :: nat
  max_dial_negotiated :: nat
  h_state :: handler_state
  io_error_retries :: nat

definition handler_new :: "nat \<Rightarrow> ('id, 'root, 'pl) handler" where
  "handler_new conn =
     \<lparr>h_connection_id = conn, events_out = [], dial_queue = [], dial_negotiated = 0, inbound_substreams = [],
      inbound_delay = [], outbound_substreams = [], outbound_delay = [], current_inbound_id = 0,
      current_outbound_id = 0, max_dial_negotiated = 8, h_state = Active, io_error_retries = 0\<rparr>"

text \<open>
  What the handler reads of its surroundings: the chain configuration and the fork context, the
  epoch of a slot, and the text of the error message of a peer (\<open>ErrorType::to_string\<close>, which runs a
  regular expression of another crate).
\<close>

record handler_ctx =
  hc_config :: chain_config
  hc_fork :: fork_context
  hc_epoch_at_slot :: "nat \<Rightarrow> nat"
  hc_error_text :: "8 word list \<Rightarrow> string"

abbreviation ctx_max_responses :: "handler_ctx \<Rightarrow> 'root request_type \<Rightarrow> nat" where
  "ctx_max_responses ctx req \<equiv> max_responses (hc_epoch_at_slot ctx) (hc_config ctx) req"

text \<open>
  A delay queue holds the identifiers whose timer runs, and the key of an entry is its identifier.
  Removing or resetting a key that is not in the queue panics.
\<close>

definition delay_remove :: "nat \<Rightarrow> nat list \<Rightarrow> nat list option" where
  "delay_remove k q = (if k \<in> set q then Some (remove1 k q) else None)"

definition delay_reset :: "nat \<Rightarrow> nat list \<Rightarrow> nat list option" where
  "delay_reset k q = (if k \<in> set q then Some q else None)"

definition on_key :: "(nat \<Rightarrow> nat list \<Rightarrow> nat list option) \<Rightarrow> nat option \<Rightarrow> nat list \<Rightarrow> nat list option" where
  "on_key f k q = (case k of None \<Rightarrow> Some q | Some i \<Rightarrow> f i q)"

section \<open>Commands of the behaviour\<close>

abbreviation push_out :: "('id, 'root, 'pl) handler_event \<Rightarrow> ('id, 'root, 'pl) handler \<Rightarrow> ('id, 'root, 'pl) handler" where
  "push_out e s \<equiv> s\<lparr>events_out := events_out s @ [e]\<rparr>"

definition unsent :: "'id \<times> 'root request_type \<Rightarrow> ('id, 'root, 'pl) handler_event" where
  "unsent r = HandlerFailed (OutboundErr (fst r) (request_protocol (snd r)) DisconnectedError)"

definition handler_shutdown :: "('id \<times> goodbye_reason) option \<Rightarrow> ('id, 'root, 'pl) handler \<Rightarrow> ('id, 'root, 'pl) handler" where
  "handler_shutdown goodbye s =
     (if h_state s = Active then
        s\<lparr>events_out := events_out s @ map unsent (rev (dial_queue s)),
          dial_queue := (case goodbye of None \<Rightarrow> [] | Some (i, reason) \<Rightarrow> [(i, GoodbyeReq reason)]),
          h_state := ShuttingDown\<rparr>
      else s)"

definition handler_send_request :: "'id \<Rightarrow> 'root request_type \<Rightarrow> ('id, 'root, 'pl) handler \<Rightarrow> ('id, 'root, 'pl) handler" where
  "handler_send_request i req s =
     (case h_state s of
        Active \<Rightarrow> s\<lparr>dial_queue := dial_queue s @ [(i, req)]\<rparr>
      | _ \<Rightarrow> push_out (unsent (i, req)) s)"

definition handler_send_response ::
    "handler_ctx \<Rightarrow> nat \<Rightarrow> 'pl rpc_response \<Rightarrow> ('id, 'root, 'pl) handler \<Rightarrow> ('id, 'root, 'pl) handler" where
  "handler_send_response ctx inbound_id response s =
     (case map_of (inbound_substreams s) inbound_id of
        None \<Rightarrow> s
      | Some info \<Rightarrow>
          (let s1 = (case response of
                       ErrorResp code reason \<Rightarrow>
                         push_out (HandlerFailed (InboundErr inbound_id (in_protocol info)
                           (ErrorResponse code (hc_error_text ctx reason)))) s
                     | _ \<Rightarrow> s)
           in if h_state s1 = Deactivated then s1
              else s1\<lparr>inbound_substreams := AList.update inbound_id
                        (info\<lparr>pending_items := pending_items info @ [response]\<rparr>) (inbound_substreams s1)\<rparr>))"

fun on_behaviour_event ::
    "handler_ctx \<Rightarrow> ('id, 'root, 'pl) rpc_send \<Rightarrow> ('id, 'root, 'pl) handler \<Rightarrow> ('id, 'root, 'pl) handler" where
  "on_behaviour_event ctx (SendRequest i req) s = handler_send_request i req s"
| "on_behaviour_event ctx (SendResponse inbound_id response) s = handler_send_response ctx inbound_id response s"
| "on_behaviour_event ctx (SendShutdown i reason) s = handler_shutdown (Some (i, reason)) s"

definition connection_keep_alive :: "('id, 'root, 'pl) handler \<Rightarrow> bool" where
  "connection_keep_alive s = (h_state s \<noteq> Deactivated)"

section \<open>Negotiated substreams\<close>

definition exceeds_limit :: "nat \<Rightarrow> nat \<Rightarrow> rpc_error" where
  "exceeds_limit max_allowed requested =
     InvalidData (''requested exceeded limit. allowed: '' @ show_nat max_allowed @ '', requested: '' @ show_nat requested)"

text \<open>The limit that a request of the peer is over, with its protocol.\<close>

fun over_limit :: "handler_ctx \<Rightarrow> 'root request_type \<Rightarrow> (protocol \<times> rpc_error) option" where
  "over_limit ctx (BlocksByRangeReq r) =
     (let max_allowed = max_request_blocks (hc_config ctx) (current_fork_name (hc_fork ctx)) in
      if max_allowed < old_range_count r then Some (BlocksByRange, exceeds_limit max_allowed (old_range_count r)) else None)"
| "over_limit ctx (BlobsByRangeReq r) =
     (let requested = max_blobs_requested r (hc_config ctx) (hc_epoch_at_slot ctx (blr_start_slot r));
          max_allowed = max_request_blob_sidecars (hc_config ctx) (current_fork_name (hc_fork ctx))
      in if max_allowed < requested then Some (BlobsByRange, exceeds_limit max_allowed requested) else None)"
| "over_limit ctx _ = None"

definition on_fully_negotiated_inbound ::
    "handler_ctx \<Rightarrow> 'root request_type \<Rightarrow> ('id, 'root, 'pl) handler \<Rightarrow> ('id, 'root, 'pl) handler" where
  "on_fully_negotiated_inbound ctx req s =
     (if h_state s \<noteq> Active then s
      else case over_limit ctx req of
        Some (p, e) \<Rightarrow> handler_shutdown None (push_out (HandlerFailed (InboundErr (current_inbound_id s) p e)) s)
      | None \<Rightarrow>
          (let n = ctx_max_responses ctx req; i = current_inbound_id s in
           if 0 < n \<and> MAX_INBOUND_SUBSTREAMS \<le> length (inbound_substreams s) then
             handler_shutdown None (push_out (HandlerFailed (InboundErr i (request_protocol req) HandlerRejected)) s)
           else
             (let s1 = (if 0 < n then
                          s\<lparr>inbound_delay := inbound_delay s @ [i],
                            inbound_substreams := AList.update i
                              \<lparr>in_state = InIdle, pending_items = [], in_protocol = request_protocol req,
                               in_remaining = n, in_delay_key = Some i\<rparr> (inbound_substreams s)\<rparr>
                        else s);
                  s2 = (case req of GoodbyeReq _ \<Rightarrow> handler_shutdown None s1 | _ \<Rightarrow> s1);
                  s3 = push_out (HandlerOk (ReceivedRequest
                         \<lparr>ir_connection = h_connection_id s2, ir_substream = i\<rparr> req)) s2
              in s3\<lparr>current_inbound_id := current_inbound_id s3 + 1\<rparr>)))"

text \<open>The counter of dials is unsigned: taking one from zero is a panic.\<close>

definition on_fully_negotiated_outbound ::
    "handler_ctx \<Rightarrow> 'id \<Rightarrow> 'root request_type \<Rightarrow> ('id, 'root, 'pl) handler \<Rightarrow> ('id, 'root, 'pl) handler option" where
  "on_fully_negotiated_outbound ctx i req s =
     (if dial_negotiated s = 0 then None
      else
        (let s1 = s\<lparr>dial_negotiated := dial_negotiated s - 1, io_error_retries := 0\<rparr>;
             s2 = (if h_state s1 = Deactivated then push_out (unsent (i, req)) s1 else s1);
             n = ctx_max_responses ctx req
         in Some (if 0 < n then
               (let k = current_outbound_id s2 in
                s2\<lparr>outbound_delay := outbound_delay s2 @ [k],
                   outbound_substreams := AList.update k
                     \<lparr>out_state = RequestPendingResponse req, out_delay_key = k, out_proto = request_protocol req,
                      out_remaining = (if expect_exactly_one_response req then None else Some n), out_req_id = i\<rparr>
                     (outbound_substreams s2),
                   current_outbound_id := k + 1\<rparr>)
             else s2)))"

datatype upgrade_error = UpgradeTimeout | UpgradeApply rpc_error | NegotiationFailed | UpgradeIo string

text \<open>The error an unsuccessful dial is reported with, and whether it may be retried.\<close>

fun upgrade_failure :: "upgrade_error \<Rightarrow> bool \<times> rpc_error" where
  "upgrade_failure UpgradeTimeout = (False, NegotiationTimeout)"
| "upgrade_failure (UpgradeApply (IoError e)) = (True, IoError e)"
| "upgrade_failure NegotiationFailed = (False, UnsupportedProtocol)"
| "upgrade_failure (UpgradeIo e) = (True, IoError e)"
| "upgrade_failure (UpgradeApply e) = (False, e)"

definition on_dial_upgrade_error ::
    "'id \<Rightarrow> 'root request_type \<Rightarrow> upgrade_error \<Rightarrow> ('id, 'root, 'pl) handler \<Rightarrow> ('id, 'root, 'pl) handler option" where
  "on_dial_upgrade_error i req err s =
     (if dial_negotiated s = 0 then None
      else
        (let (io, e) = upgrade_failure err;
             s1 = s\<lparr>dial_negotiated := dial_negotiated s - 1\<rparr>;
             s2 = (if io then s1\<lparr>io_error_retries := io_error_retries s1 + 1\<rparr> else s1)
         in Some (if io \<and> io_error_retries s2 < IO_ERROR_RETRIES then handler_send_request i req s2
             else push_out (HandlerFailed (OutboundErr i (request_protocol req) e)) (s2\<lparr>io_error_retries := 0\<rparr>))))"

section \<open>Poll\<close>

datatype ('id, 'root, 'pl) handler_output =
    NotifyBehaviour "('id, 'root, 'pl) handler_event"
  | OutboundSubstreamRequest 'id "'root request_type"
  | PollPending

type_synonym io_result = "(unit, rpc_error) result"

text \<open>
  What the polls inside one poll return: whether the shutdown timer has elapsed, the identifiers
  the two delay queues give as expired, how the sends of an inbound substream end that end now
  (the results of sending and of closing), the result of closing an idle inbound substream, the
  next item of an outbound substream, and whether closing an outbound substream is done.
\<close>

record 'pl handler_io =
  shutdown_elapsed :: bool
  expired_inbound :: "nat list"
  expired_outbound :: "nat list"
  io_sends :: "nat \<Rightarrow> (io_result \<times> io_result) list"
  io_close_inbound :: "nat \<Rightarrow> io_result option"
  io_next :: "nat \<Rightarrow> 'pl rpc_response poll"
  io_close_outbound :: "nat \<Rightarrow> bool"

definition is_error_response :: "'pl rpc_response \<Rightarrow> bool" where
  "is_error_response r = (case r of ErrorResp _ _ \<Rightarrow> True | _ \<Rightarrow> False)"

definition is_termination :: "'pl rpc_response \<Rightarrow> bool" where
  "is_termination r = (case r of StreamTermination _ \<Rightarrow> True | _ \<Rightarrow> False)"

text \<open>
  \<open>send_message_to_inbound_substream\<close>: whether the message was written, and the result, which says
  whether the substream was closed.
\<close>

definition send_message_to_inbound_substream ::
    "'pl rpc_response \<Rightarrow> bool \<Rightarrow> io_result \<Rightarrow> io_result \<Rightarrow> bool \<times> (bool, rpc_error) result" where
  "send_message_to_inbound_substream msg last_chunk send_result close_result =
     (if is_termination msg then (False, result_bind close_result (\<lambda>_. Ok True))
      else
        (is_ok send_result,
         if last_chunk \<or> is_error_response msg \<or> \<not> is_ok send_result then
           (case send_result of Err e \<Rightarrow> Err e | Ok _ \<Rightarrow> result_bind close_result (\<lambda>_. Ok True))
         else result_bind send_result (\<lambda>_. Ok False)))"

text \<open>
  Driving an inbound substream gives the errors to report, the messages written, what is left of the
  substream (\<open>None\<close> when it is to be removed) and the delay queue.
\<close>

type_synonym ('id, 'root, 'pl) inbound_step =
  "('id, 'root, 'pl) handler_event list \<times> (nat \<times> 'pl rpc_response) list \<times> 'pl inbound_info option \<times> nat list"

abbreviation inbound_failed :: "nat \<Rightarrow> 'pl inbound_info \<Rightarrow> rpc_error \<Rightarrow> ('id, 'root, 'pl) handler_event" where
  "inbound_failed i info e \<equiv> HandlerFailed (InboundErr i (in_protocol info) e)"

fun drive_busy ::
    "bool \<Rightarrow> nat \<Rightarrow> (io_result \<times> io_result) list \<Rightarrow> 'pl rpc_response \<Rightarrow> bool \<Rightarrow> 'pl inbound_info \<Rightarrow> nat list
     \<Rightarrow> ('id, 'root, 'pl) inbound_step option" where
  "drive_busy deactivated i [] msg last_chunk info q =
     Some ([], [], Some (info\<lparr>in_state := InBusy msg last_chunk\<rparr>), q)"
| "drive_busy deactivated i ((send_result, close_result) # sends) msg last_chunk info q =
     (let (was_written, r) = send_message_to_inbound_substream msg last_chunk send_result close_result;
          writes = (if was_written then [(i, msg)] else [])
      in case r of
           Ok False \<Rightarrow>
             (let info1 = info\<lparr>in_remaining := in_remaining info - 1\<rparr> in
              Option.bind (on_key delay_reset (in_delay_key info1) q) (\<lambda>q1.
                case pending_items info1 of
                  next_msg # items \<Rightarrow>
                    (if deactivated then Some ([], writes, Some (info1\<lparr>in_state := InIdle\<rparr>), q1)
                     else map_option (\<lambda>(es, ws, rest). (es, writes @ ws, rest))
                       (drive_busy deactivated i sends next_msg (in_remaining info1 \<le> 1)
                          (info1\<lparr>pending_items := items\<rparr>) q1))
                | [] \<Rightarrow> Some ([], writes, Some (info1\<lparr>in_state := InIdle\<rparr>), q1)))
         | Ok True \<Rightarrow> map_option (\<lambda>q1. ([], writes, None, q1)) (on_key delay_remove (in_delay_key info) q)
         | Err e \<Rightarrow>
             map_option (\<lambda>q1. ([inbound_failed i info e], writes, None, q1))
               (on_key delay_remove (in_delay_key info) q))"

definition drive_inbound ::
    "'pl handler_io \<Rightarrow> bool \<Rightarrow> nat \<Rightarrow> 'pl inbound_info \<Rightarrow> nat list \<Rightarrow> ('id, 'root, 'pl) inbound_step option" where
  "drive_inbound io deactivated i info q =
     (case in_state info of
        InIdle \<Rightarrow>
          (if \<not> deactivated then
             (case pending_items info of
                msg # items \<Rightarrow>
                  drive_busy deactivated i (io_sends io i) msg (in_remaining info \<le> 1)
                    (info\<lparr>pending_items := items\<rparr>) q
              | [] \<Rightarrow> Some ([], [], Some info, q))
           else
             (case io_close_inbound io i of
                None \<Rightarrow> Some ([], [], Some info, q)
              | Some res \<Rightarrow>
                  map_option (\<lambda>q1.
                      ((case res of Err e \<Rightarrow> [inbound_failed i info e] | Ok _ \<Rightarrow> []) @
                       (if pending_items info \<noteq> [] \<and> \<not> close_after (last (pending_items info))
                        then [inbound_failed i info DisconnectedError] else []),
                       [], None, q1))
                    (on_key delay_remove (in_delay_key info) q)))
      | InBusy msg last_chunk \<Rightarrow> drive_busy deactivated i (io_sends io i) msg last_chunk info q
      | InPoisoned \<Rightarrow> None)"

fun drive_inbounds ::
    "'pl handler_io \<Rightarrow> bool \<Rightarrow> (nat \<times> 'pl inbound_info) list \<Rightarrow> nat list
     \<Rightarrow> (('id, 'root, 'pl) handler_event list \<times> (nat \<times> 'pl rpc_response) list \<times> (nat \<times> 'pl inbound_info) list \<times> nat list) option" where
  "drive_inbounds io deactivated [] q = Some ([], [], [], q)"
| "drive_inbounds io deactivated ((i, info) # rest) q =
     Option.bind (drive_inbound io deactivated i info q) (\<lambda>(es, ws, kept, q1).
       map_option (\<lambda>(es', ws', rest', q2).
           (es @ es', ws @ ws', (case kept of None \<Rightarrow> rest' | Some info' \<Rightarrow> (i, info') # rest'), q2))
         (drive_inbounds io deactivated rest q1))"

text \<open>
  Driving an outbound substream: the event with which the poll returns, if it does, the errors to
  report later, what is left of the substream and the delay queue.
\<close>

type_synonym ('id, 'root, 'pl) outbound_step =
  "('id, 'root, 'pl) handler_event option \<times> ('id, 'root, 'pl) handler_event list \<times> ('id, 'root) outbound_info option
   \<times> nat list"

fun received_event :: "handler_ctx \<Rightarrow> 'id \<Rightarrow> protocol \<Rightarrow> 'pl rpc_response \<Rightarrow> ('id, 'root, 'pl) handler_event" where
  "received_event ctx i p (StreamTermination t) = HandlerOk (EndOfStream i t)"
| "received_event ctx i p (Success r) = HandlerOk (ReceivedResponse i r)"
| "received_event ctx i p (ErrorResp code r) = HandlerFailed (OutboundErr i p (ErrorResponse code (hc_error_text ctx r)))"

definition on_response ::
    "handler_ctx \<Rightarrow> 'root request_type \<Rightarrow> 'pl rpc_response \<Rightarrow> ('id, 'root) outbound_info \<Rightarrow> nat list
     \<Rightarrow> ('id, 'root, 'pl) outbound_step option" where
  "on_response ctx req response info q =
     (let event = received_event ctx (out_req_id info) (out_proto info) response;
          remaining = (case out_remaining info of Some c \<Rightarrow> c - 1 | None \<Rightarrow> 0)
      in if expect_exactly_one_response req \<or> close_after response \<or> remaining = 0
         then Some (Some event, [], Some (info\<lparr>out_state := OutClosing\<rparr>), q)
         else map_option (\<lambda>q1. (Some event, [], Some (info\<lparr>out_remaining := Some remaining\<rparr>), q1))
                (delay_reset (out_delay_key info) q))"

definition on_stream_closed ::
    "'root request_type \<Rightarrow> ('id, 'root) outbound_info \<Rightarrow> ('id, 'root, 'pl) handler_event option" where
  "on_stream_closed req info =
     (if expect_exactly_one_response req
      then Some (HandlerFailed (OutboundErr (out_req_id info) (request_protocol req) IncompleteStream))
      else map_option (\<lambda>t. HandlerOk (EndOfStream (out_req_id info) t)) (stream_termination req))"

definition drive_outbound ::
    "handler_ctx \<Rightarrow> 'pl handler_io \<Rightarrow> bool \<Rightarrow> nat \<Rightarrow> ('id, 'root) outbound_info \<Rightarrow> nat list
     \<Rightarrow> ('id, 'root, 'pl) outbound_step option" where
  "drive_outbound ctx io deactivated k info q =
     (case out_state info of
        RequestPendingResponse req \<Rightarrow>
          (if deactivated then
             Some (None, [HandlerFailed (OutboundErr (out_req_id info) (out_proto info) DisconnectedError)],
                   Some (info\<lparr>out_state := OutClosing\<rparr>), q)
           else case io_next io k of
             Got response \<Rightarrow> on_response ctx req response info q
           | Closed \<Rightarrow>
               Option.bind (delay_remove (out_delay_key info) q) (\<lambda>q1.
                 map_option (\<lambda>e. (Some e, [], None, q1)) (on_stream_closed req info))
           | Pending \<Rightarrow> Some (None, [], Some info, q)
           | Failed e \<Rightarrow>
               map_option (\<lambda>q1. (Some (HandlerFailed (OutboundErr (out_req_id info) (out_proto info) e)), [], None, q1))
                 (delay_remove (out_delay_key info) q))
      | OutClosing \<Rightarrow>
          (if io_close_outbound io k then
             Option.bind (delay_remove (out_delay_key info) q) (\<lambda>q1.
               map_option (\<lambda>t. (map_option (\<lambda>e. HandlerOk (EndOfStream (out_req_id info) e)) t, [], None, q1))
                 (terminator (out_proto info)))
           else Some (None, [], Some info, q))
      | OutPoisoned \<Rightarrow> None)"

fun drive_outbounds ::
    "handler_ctx \<Rightarrow> 'pl handler_io \<Rightarrow> bool \<Rightarrow> (nat \<times> ('id, 'root) outbound_info) list \<Rightarrow> nat list
     \<Rightarrow> (('id, 'root, 'pl) handler_event option \<times> ('id, 'root, 'pl) handler_event list
         \<times> (nat \<times> ('id, 'root) outbound_info) list \<times> nat list) option" where
  "drive_outbounds ctx io deactivated [] q = Some (None, [], [], q)"
| "drive_outbounds ctx io deactivated ((k, info) # rest) q =
     Option.bind (drive_outbound ctx io deactivated k info q) (\<lambda>(ret, es, left, q1).
       let kept = (case left of None \<Rightarrow> [] | Some info' \<Rightarrow> [(k, info')]) in
       case ret of
         Some e \<Rightarrow> Some (Some e, es, kept @ rest, q1)
       | None \<Rightarrow>
           map_option (\<lambda>(ret', es', rest', q2). (ret', es @ es', kept @ rest', q2))
             (drive_outbounds ctx io deactivated rest q1))"

text \<open>The expired entries of the delay queues; an identifier without a timer cannot expire.\<close>

definition request_timed_out :: "'pl rpc_response" where
  "request_timed_out = ErrorResp ServerError (error_type_from (map of_char ''Request timed out''))"

definition time_out_inbound :: "'pl inbound_info \<Rightarrow> 'pl inbound_info" where
  "time_out_inbound info =
     info\<lparr>in_delay_key := None,
          pending_items := pending_items info @
            (if pending_items info \<noteq> [] \<and> \<not> close_after (last (pending_items info)) then [request_timed_out] else [])\<rparr>"

fun expire_inbound :: "nat list \<Rightarrow> ('id, 'root, 'pl) handler \<Rightarrow> ('id, 'root, 'pl) handler" where
  "expire_inbound [] s = s"
| "expire_inbound (i # is) s =
     expire_inbound is
       (if i \<in> set (inbound_delay s) then
          (let s1 = s\<lparr>inbound_delay := remove1 i (inbound_delay s)\<rparr> in
           case map_of (inbound_substreams s1) i of
             None \<Rightarrow> s1
           | Some info \<Rightarrow>
               s1\<lparr>events_out := events_out s1 @ [inbound_failed i info StreamTimeout],
                  inbound_substreams := AList.update i (time_out_inbound info) (inbound_substreams s1)\<rparr>)
        else s)"

fun expire_outbound ::
    "nat list \<Rightarrow> ('id, 'root, 'pl) handler \<Rightarrow> ('id, 'root, 'pl) handler_event option \<times> ('id, 'root, 'pl) handler" where
  "expire_outbound [] s = (None, s)"
| "expire_outbound (k # ks) s =
     (if k \<in> set (outbound_delay s) then
        (let s1 = s\<lparr>outbound_delay := remove1 k (outbound_delay s)\<rparr> in
         case map_of (outbound_substreams s1) k of
           Some info \<Rightarrow>
             (Some (HandlerFailed (OutboundErr (out_req_id info) (out_proto info) StreamTimeout)),
              s1\<lparr>outbound_substreams := AList.delete k (outbound_substreams s1)\<rparr>)
         | None \<Rightarrow> expire_outbound ks s1)
      else expire_outbound ks s)"

text \<open>The end of the poll: a new dial, the end of the shutdown, or nothing to do.\<close>

definition poll_dial ::
    "('id, 'root, 'pl) handler \<Rightarrow> ('id, 'root, 'pl) handler_output \<times> ('id, 'root, 'pl) handler" where
  "poll_dial s =
     (case dial_queue s of
        (i, req) # rest \<Rightarrow>
          (if dial_negotiated s < max_dial_negotiated s
           then (OutboundSubstreamRequest i req, s\<lparr>dial_negotiated := dial_negotiated s + 1, dial_queue := rest\<rparr>)
           else (PollPending, s))
      | [] \<Rightarrow>
          (if h_state s = ShuttingDown \<and> outbound_substreams s = [] \<and> inbound_substreams s = [] \<and> events_out s = [] \<and>
              dial_negotiated s = 0
           then (NotifyBehaviour (HandlerClose DisconnectedError), s\<lparr>h_state := Deactivated\<rparr>)
           else (PollPending, s)))"

definition poll_streams ::
    "handler_ctx \<Rightarrow> 'pl handler_io \<Rightarrow> ('id, 'root, 'pl) handler
     \<Rightarrow> (('id, 'root, 'pl) handler_output \<times> (nat \<times> 'pl rpc_response) list \<times> ('id, 'root, 'pl) handler) option" where
  "poll_streams ctx io s =
     (let deactivated = (h_state s = Deactivated) in
      Option.bind (drive_inbounds io deactivated (inbound_substreams s) (inbound_delay s)) (\<lambda>(es, ws, ins, q).
        let s1 = s\<lparr>events_out := events_out s @ es, inbound_substreams := ins, inbound_delay := q\<rparr> in
        map_option (\<lambda>(ret, es', outs, q').
            let s2 = s1\<lparr>events_out := events_out s1 @ es', outbound_substreams := outs, outbound_delay := q'\<rparr> in
            case ret of
              Some e \<Rightarrow> (NotifyBehaviour e, ws, s2)
            | None \<Rightarrow> (let (out, s3) = poll_dial s2 in (out, ws, s3)))
          (drive_outbounds ctx io deactivated (outbound_substreams s1) (outbound_delay s1))))"

definition handler_poll ::
    "handler_ctx \<Rightarrow> 'pl handler_io \<Rightarrow> ('id, 'root, 'pl) handler
     \<Rightarrow> (('id, 'root, 'pl) handler_output \<times> (nat \<times> 'pl rpc_response) list \<times> ('id, 'root, 'pl) handler) option" where
  "handler_poll ctx io s =
     (case events_out s of
        e # es \<Rightarrow> Some (NotifyBehaviour e, [], s\<lparr>events_out := es\<rparr>)
      | [] \<Rightarrow>
          (if h_state s = ShuttingDown \<and> shutdown_elapsed io
           then Some (NotifyBehaviour (HandlerClose DisconnectedError), [], s\<lparr>h_state := Deactivated\<rparr>)
           else
             (let (ret, s1) = expire_outbound (expired_outbound io) (expire_inbound (expired_inbound io) s) in
              case ret of
                Some e \<Rightarrow> Some (NotifyBehaviour e, [], s1)
              | None \<Rightarrow> poll_streams ctx io s1)))"

section \<open>A connection\<close>

datatype ('id, 'root) connection_event =
    FullyNegotiatedInbound "'root request_type"
  | FullyNegotiatedOutbound 'id "'root request_type"
  | DialUpgradeFailed 'id "'root request_type" upgrade_error
  | OtherConnectionEvent

fun on_connection_event ::
    "handler_ctx \<Rightarrow> ('id, 'root) connection_event \<Rightarrow> ('id, 'root, 'pl) handler \<Rightarrow> ('id, 'root, 'pl) handler option" where
  "on_connection_event ctx (FullyNegotiatedInbound req) s = Some (on_fully_negotiated_inbound ctx req s)"
| "on_connection_event ctx (FullyNegotiatedOutbound i req) s = on_fully_negotiated_outbound ctx i req s"
| "on_connection_event ctx (DialUpgradeFailed i req err) s = on_dial_upgrade_error i req err s"
| "on_connection_event ctx OtherConnectionEvent s = Some s"

text \<open>
  The swarm reports the outcome only of substreams the handler asked for, each once: a connection is
  a handler with the substreams being opened.
\<close>

type_synonym ('id, 'root, 'pl) connection = "('id, 'root, 'pl) handler \<times> ('id \<times> 'root request_type) list"

datatype ('id, 'root, 'pl) connection_step =
    Command "('id, 'root, 'pl) rpc_send"
  | Event "('id, 'root) connection_event"
  | Polled "('id, 'root, 'pl) handler_output" "(nat \<times> 'pl rpc_response) list"

fun outcome_of :: "('id, 'root) connection_event \<Rightarrow> ('id \<times> 'root request_type) option" where
  "outcome_of (FullyNegotiatedOutbound i req) = Some (i, req)"
| "outcome_of (DialUpgradeFailed i req err) = Some (i, req)"
| "outcome_of _ = None"

definition dials_after :: "('id, 'root, 'pl) handler_output \<Rightarrow> ('id \<times> 'root request_type) list \<Rightarrow> ('id \<times> 'root request_type) list" where
  "dials_after out ds = (case out of OutboundSubstreamRequest i req \<Rightarrow> ds @ [(i, req)] | _ \<Rightarrow> ds)"

inductive connection_moves ::
    "handler_ctx \<Rightarrow> ('id, 'root, 'pl) connection \<Rightarrow> ('id, 'root, 'pl) connection_step \<Rightarrow> ('id, 'root, 'pl) connection \<Rightarrow> bool"
  for ctx where
  command: "connection_moves ctx (s, ds) (Command e) (on_behaviour_event ctx e s, ds)"
| inbound: "outcome_of ev = None \<Longrightarrow> on_connection_event ctx ev s = Some s'
     \<Longrightarrow> connection_moves ctx (s, ds) (Event ev) (s', ds)"
| outcome: "outcome_of ev = Some r \<Longrightarrow> r \<in> set ds \<Longrightarrow> on_connection_event ctx ev s = Some s'
     \<Longrightarrow> connection_moves ctx (s, ds) (Event ev) (s', remove1 r ds)"
| polled: "handler_poll ctx io s = Some (out, ws, s')
     \<Longrightarrow> connection_moves ctx (s, ds) (Polled out ws) (s', dials_after out ds)"

inductive connection_runs ::
    "handler_ctx \<Rightarrow> ('id, 'root, 'pl) connection \<Rightarrow> ('id, 'root, 'pl) connection_step list \<Rightarrow> ('id, 'root, 'pl) connection \<Rightarrow> bool"
  for ctx where
  stop: "connection_runs ctx c [] c"
| move: "connection_runs ctx c ms c1 \<Longrightarrow> connection_moves ctx c1 m c2 \<Longrightarrow> connection_runs ctx c (ms @ [m]) c2"

inductive_cases connection_movesE: "connection_moves ctx (s, ds) m c"

end
