(* ===== verification/HandlerInvariant.thy ===== *)
theory HandlerInvariant
  imports Handler
begin

text \<open>
  The invariant of the connection handler: timers and streams agree, no stream is left in its
  temporary state, identifiers are fresh and the bounds are kept. Every operation of the handler
  keeps it and, where it holds, does not panic.
\<close>

section \<open>Timers and streams\<close>

lemma delay_remove_Some: "k \<in> set q \<Longrightarrow> delay_remove k q = Some (remove1 k q)"
  by (simp add: delay_remove_def)

lemma delay_reset_Some: "k \<in> set q \<Longrightarrow> delay_reset k q = Some q"
  by (simp add: delay_reset_def)

text \<open>A stream has a timer exactly when it holds its key.\<close>

definition inbound_sound :: "nat \<Rightarrow> 'pl inbound_info \<Rightarrow> nat list \<Rightarrow> bool" where
  "inbound_sound i info q \<longleftrightarrow> in_state info \<noteq> InPoisoned \<and>
     (case in_delay_key info of None \<Rightarrow> i \<notin> set q | Some k \<Rightarrow> k = i \<and> i \<in> set q)"

definition outbound_sound :: "nat \<Rightarrow> ('id, 'root) outbound_info \<Rightarrow> nat list \<Rightarrow> bool" where
  "outbound_sound k info q \<longleftrightarrow> out_state info \<noteq> OutPoisoned \<and> out_delay_key info = k \<and> k \<in> set q \<and>
     terminator (out_proto info) \<noteq> None \<and>
     (\<forall>req. out_state info = RequestPendingResponse req \<longrightarrow>
        expect_exactly_one_response req \<or> stream_termination req \<noteq> None)"

definition streams_sound :: "(nat \<Rightarrow> 'info \<Rightarrow> nat list \<Rightarrow> bool) \<Rightarrow> (nat \<times> 'info) list \<Rightarrow> nat list \<Rightarrow> bool" where
  "streams_sound sound xs q \<longleftrightarrow> distinct (map fst xs) \<and> distinct q \<and> set q \<subseteq> fst ` set xs \<and>
     (\<forall>(i, info) \<in> set xs. sound i info q)"

text \<open>What is left of a stream after a step, with the queue of timers.\<close>

definition step_sound ::
    "(nat \<Rightarrow> 'info \<Rightarrow> nat list \<Rightarrow> bool) \<Rightarrow> nat \<Rightarrow> nat list \<Rightarrow> 'info option \<Rightarrow> nat list \<Rightarrow> bool" where
  "step_sound sound i q kept q' \<longleftrightarrow> distinct q' \<and> (\<forall>j. j \<noteq> i \<longrightarrow> (j \<in> set q' \<longleftrightarrow> j \<in> set q)) \<and>
     (case kept of None \<Rightarrow> i \<notin> set q' | Some info \<Rightarrow> sound i info q')"

lemma on_key_reset: "inbound_sound i info q \<Longrightarrow> on_key delay_reset (in_delay_key info) q = Some q"
  by (auto simp: inbound_sound_def on_key_def delay_reset_def split: option.splits)

lemma on_key_remove:
  fixes info :: "'pl inbound_info"
  assumes "inbound_sound i info q" "distinct q"
  shows "\<exists>q'. on_key delay_remove (in_delay_key info) q = Some q' \<and>
    step_sound inbound_sound i q (None :: 'pl inbound_info option) q'"
  using assms by (auto simp: inbound_sound_def on_key_def delay_remove_def step_sound_def split: option.splits)

lemma inbound_sound_cong:
  "in_delay_key info' = in_delay_key info \<Longrightarrow> in_state info' \<noteq> InPoisoned \<Longrightarrow> inbound_sound i info q
     \<Longrightarrow> inbound_sound i info' q"
  by (simp add: inbound_sound_def)

lemma step_sound_keep: "distinct q \<Longrightarrow> sound i info q \<Longrightarrow> step_sound sound i q (Some info) q"
  by (simp add: step_sound_def)

lemma drive_busy_sound:
  fixes info :: "'pl inbound_info"
  shows "inbound_sound i (info\<lparr>in_state := InIdle\<rparr>) q \<Longrightarrow> distinct q \<Longrightarrow>
     \<exists>es ws kept q'. drive_busy d i sends msg lc info q = Some (es, ws, kept, q') \<and> step_sound inbound_sound i q kept q'"
proof (induction sends arbitrary: msg lc info)
  case Nil
  then show ?case by (auto intro!: step_sound_keep simp: inbound_sound_def)
next
  case (Cons sc sends)
  obtain sr cr where sc: "sc = (sr, cr)" by force
  obtain w r where wr: "send_message_to_inbound_substream msg lc sr cr = (w, r)" by force
  let ?info1 = "info\<lparr>in_remaining := in_remaining info - 1\<rparr>"
  note s = Cons.prems(1)
  have reset: "on_key delay_reset (in_delay_key info) q = Some q"
    using on_key_reset [OF s] by simp
  obtain q' where rem: "on_key delay_remove (in_delay_key info) q = Some q'"
    "step_sound inbound_sound i q (None :: 'pl inbound_info option) q'"
    using on_key_remove [OF s Cons.prems(2)] by auto
  show ?case
  proof (cases r)
    case (Inl e)
    then show ?thesis using rem by (simp add: sc wr)
  next
    case (Inr closed)
    have idle: "step_sound inbound_sound i q (Some (?info1\<lparr>in_state := InIdle\<rparr>)) q"
      using s Cons.prems(2) by (intro step_sound_keep) (auto simp: inbound_sound_def)
    show ?thesis
    proof (cases "closed \<or> pending_items info = [] \<or> d")
      case True
      then show ?thesis using Inr rem reset idle
        by (cases closed; cases "pending_items info") (auto simp: sc wr Let_def)
    next
      case False
      then obtain m ms where p: "pending_items info = m # ms" by (cases "pending_items info") auto
      have s': "inbound_sound i ((?info1\<lparr>pending_items := ms\<rparr>)\<lparr>in_state := InIdle\<rparr>) q"
        by (rule inbound_sound_cong [OF _ _ s]) simp_all
      show ?thesis
        using Cons.IH [OF s' Cons.prems(2), of m "in_remaining ?info1 \<le> 1"] False Inr reset p
        by (auto simp: sc wr)
    qed
  qed
qed

lemma drive_inbound_sound:
  fixes info :: "'pl inbound_info"
  assumes "inbound_sound i info q" "distinct q"
  shows "\<exists>es ws kept q'. drive_inbound io d i info q = Some (es, ws, kept, q') \<and> step_sound inbound_sound i q kept q'"
proof -
  have busy: "\<exists>es ws kept q'. drive_busy d i sends msg lc info' q = Some (es, ws, kept, q') \<and> step_sound inbound_sound i q kept q'"
    if "in_delay_key info' = in_delay_key info" for sends msg lc info'
    using that by (intro drive_busy_sound inbound_sound_cong [OF _ _ assms(1)] assms(2)) simp_all
  show ?thesis
  proof (cases "in_state info")
    case InIdle
    obtain q' where q': "on_key delay_remove (in_delay_key info) q = Some q'"
      "step_sound inbound_sound i q (None :: 'pl inbound_info option) q'"
      using on_key_remove [OF assms] by auto
    have keep: "step_sound inbound_sound i q (Some info) q"
      using assms by (intro step_sound_keep)
    show ?thesis
      using busy [of "info\<lparr>pending_items := tl (pending_items info)\<rparr>"] q' keep
      by (cases d; cases "pending_items info"; cases "io_close_inbound io i") (simp_all add: drive_inbound_def InIdle)
  next
    case (InBusy msg lc)
    then show ?thesis using busy [of info] by (simp add: drive_inbound_def)
  next
    case InPoisoned
    then show ?thesis using assms(1) by (simp add: inbound_sound_def)
  qed
qed

section \<open>Sweeps over all streams\<close>

definition sweep_sound ::
    "(nat \<Rightarrow> 'info \<Rightarrow> nat list \<Rightarrow> bool) \<Rightarrow> (nat \<times> 'info) list \<Rightarrow> nat list \<Rightarrow> (nat \<times> 'info) list \<Rightarrow> nat list \<Rightarrow> bool" where
  "sweep_sound sound xs q xs' q' \<longleftrightarrow> distinct (map fst xs') \<and> distinct q' \<and> length xs' \<le> length xs \<and>
     fst ` set xs' \<subseteq> fst ` set xs \<and> (\<forall>j. j \<notin> fst ` set xs \<longrightarrow> (j \<in> set q' \<longleftrightarrow> j \<in> set q)) \<and>
     set q' \<inter> fst ` set xs \<subseteq> fst ` set xs' \<and> (\<forall>(i, info) \<in> set xs'. sound i info q')"

text \<open>
  Streams with timers: what is required of a stream depends only on the stream and on whether its
  own timer runs.
\<close>

locale timed_streams =
  fixes sound :: "nat \<Rightarrow> 'info \<Rightarrow> nat list \<Rightarrow> bool"
  assumes own_timer: "(i \<in> set q \<longleftrightarrow> i \<in> set q') \<Longrightarrow> sound i info q \<Longrightarrow> sound i info q'"
begin

lemma sweep_Nil: "distinct q \<Longrightarrow> sweep_sound sound [] q [] q"
  by (simp add: sweep_sound_def)

lemma step_rest:
  assumes "step_sound sound i q kept q'" "i \<notin> fst ` set xs" "\<forall>(j, x) \<in> set xs. sound j x q"
  shows "\<forall>(j, x) \<in> set xs. sound j x q'"
proof -
  have "sound j x q'" if "(j, x) \<in> set xs" for j x
  proof (rule own_timer [of j q])
    have "j \<noteq> i" using that assms(2) by force
    then show "j \<in> set q \<longleftrightarrow> j \<in> set q'" using assms(1) by (simp add: step_sound_def)
  qed (use assms(3) that in blast)
  then show ?thesis by blast
qed

lemma sweep_stop:
  assumes "step_sound sound i q kept q'" "distinct (i # map fst xs)" "\<forall>(j, info) \<in> set xs. sound j info q"
  shows "sweep_sound sound ((i, info) # xs) q ((case kept of None \<Rightarrow> [] | Some info' \<Rightarrow> [(i, info')]) @ xs) q'"
proof -
  have "\<forall>(j, x) \<in> set xs. sound j x q'"
    using step_rest [OF assms(1) _ assms(3)] assms(2) by simp
  then show ?thesis using assms(1,2)
    by (cases kept) (auto simp: sweep_sound_def step_sound_def image_iff)
qed

lemma sweep_Cons:
  assumes "step_sound sound i q kept q1" "sweep_sound sound xs q1 xs' q2" "i \<notin> fst ` set xs"
  shows "sweep_sound sound ((i, info) # xs) q ((case kept of None \<Rightarrow> [] | Some info' \<Rightarrow> [(i, info')]) @ xs') q2"
proof -
  have own: "i \<in> set q1 \<longleftrightarrow> i \<in> set q2" and fresh: "i \<notin> fst ` set xs'"
    using assms(2,3) by (auto simp: sweep_sound_def)
  let ?k = "case kept of None \<Rightarrow> [] | Some info' \<Rightarrow> [(i, info')]"
  have k: "fst ` set ?k \<subseteq> {i}" "distinct (map fst ?k)" "length ?k \<le> 1" "i \<in> set q2 \<Longrightarrow> i \<in> fst ` set ?k"
    using assms(1) own by (auto simp: step_sound_def split: option.splits)
  have "sound j x q2" if "(j, x) \<in> set ?k" for j x
    using own_timer [OF own] assms(1) that by (auto simp: step_sound_def split: option.splits)
  then have all: "\<forall>(j, x) \<in> set (?k @ xs'). sound j x q2"
    using assms(2) by (auto simp: sweep_sound_def)
  have dis: "distinct (map fst (?k @ xs'))"
    using fresh assms(2) by (cases kept) (simp_all add: sweep_sound_def)
  have other: "\<forall>j. j \<notin> fst ` set ((i, info) # xs) \<longrightarrow> (j \<in> set q2 \<longleftrightarrow> j \<in> set q)"
    using assms(1,2) by (simp add: sweep_sound_def step_sound_def)
  have timers: "set q2 \<inter> fst ` set ((i, info) # xs) \<subseteq> fst ` set (?k @ xs')"
  proof
    fix j assume j: "j \<in> set q2 \<inter> fst ` set ((i, info) # xs)"
    have "set q2 \<inter> fst ` set xs \<subseteq> fst ` set xs'" using assms(2) by (simp add: sweep_sound_def)
    then show "j \<in> fst ` set (?k @ xs')"
      unfolding set_append image_Un using j k(4) by (cases "j = i") auto
  qed
  have "fst ` set xs' \<subseteq> fst ` set xs" using assms(2) by (simp add: sweep_sound_def)
  then have keys: "fst ` set (?k @ xs') \<subseteq> fst ` set ((i, info) # xs)"
    unfolding set_append image_Un using k(1) by (intro Un_least) (simp_all add: subset_insertI2 subset_trans [of _ "{i}"])
  show ?thesis
    unfolding sweep_sound_def [of _ "(i, info) # xs"]
    using assms(2) k(3) by (intro conjI dis other timers keys all) (simp_all add: sweep_sound_def)
qed

lemma sweep_streams:
  assumes "streams_sound sound xs q" "sweep_sound sound xs q xs' q'"
  shows "streams_sound sound xs' q'"
proof -
  have "set q' \<subseteq> fst ` set xs"
  proof
    fix j assume j: "j \<in> set q'"
    show "j \<in> fst ` set xs"
    proof (rule ccontr)
      assume "j \<notin> fst ` set xs"
      then have "j \<in> set q" using assms(2) j unfolding sweep_sound_def by simp
      with assms(1) \<open>j \<notin> fst ` set xs\<close> show False by (auto simp: streams_sound_def)
    qed
  qed
  then have "set q' \<subseteq> fst ` set xs'" using assms(2) unfolding sweep_sound_def by (simp add: Int_absorb2)
  with assms(2) show ?thesis unfolding streams_sound_def sweep_sound_def by simp
qed

lemma streams_new:
  assumes "streams_sound sound xs q" "k \<notin> fst ` set xs" "sound k info (q @ [k])"
  shows "streams_sound sound (AList.update k info xs) (q @ [k])"
proof -
  have "sound j x (q @ [k])" if "(j, x) \<in> set xs" for j x
  proof (rule own_timer [of j q])
    show "j \<in> set q \<longleftrightarrow> j \<in> set (q @ [k])" using that assms(2) by force
  qed (use assms(1) that in \<open>auto simp: streams_sound_def\<close>)
  then show ?thesis using assms by (auto simp: streams_sound_def alist_update_new)
qed

lemma streams_update:
  assumes "streams_sound sound xs q" "map_of xs i = Some info" "step_sound sound i q (Some info') q'"
  shows "streams_sound sound (AList.update i info' xs) q'"
proof -
  have d: "distinct (map fst xs)" using assms(1) by (simp add: streams_sound_def)
  have keys: "fst ` set (AList.update i info' xs) = fst ` set xs"
    using map_of_SomeD [OF assms(2)] by (force simp: alist_update_keys)
  have "sound j x q'" if "(j, x) \<in> set (AList.update i info' xs)" for j x
  proof (cases "j = i")
    case True
    then show ?thesis
      using that assms(3) d by (simp add: step_sound_def alist_update_mem)
  next
    case False
    then have "(j, x) \<in> set xs"
      using that d by (simp add: alist_update_mem)
    then show ?thesis
      using assms(1,3) False own_timer [of j q q' x] by (auto simp: streams_sound_def step_sound_def)
  qed
  moreover have "set q' \<subseteq> fst ` set xs"
  proof
    fix x assume x: "x \<in> set q'"
    show "x \<in> fst ` set xs"
    proof (cases "x = i")
      case True
      then show ?thesis using map_of_SomeD [OF assms(2)] by force
    next
      case False
      then have "x \<in> set q" using x assms(3) by (simp add: step_sound_def)
      then show ?thesis using assms(1) unfolding streams_sound_def by blast
    qed
  qed
  moreover have "distinct q'" "distinct (map fst (AList.update i info' xs))"
    using assms(3) d by (simp_all add: step_sound_def distinct_update)
  ultimately show ?thesis unfolding streams_sound_def keys by blast
qed

lemma streams_delete:
  assumes "streams_sound sound xs q"
  shows "streams_sound sound (AList.delete k xs) (remove1 k q)"
proof -
  have d: "distinct (map fst xs)" "distinct q" "set q \<subseteq> fst ` set xs"
    using assms by (simp_all add: streams_sound_def)
  have "sound j x (remove1 k q)" if "(j, x) \<in> set (AList.delete k xs)" for j x
  proof (rule own_timer [of j q])
    have "(j, x) \<in> set xs" "j \<noteq> k" using that by (auto simp: AList.delete_eq)
    then show "j \<in> set q \<longleftrightarrow> j \<in> set (remove1 k q)" "sound j x q"
      using assms by (auto simp: streams_sound_def in_set_remove1)
  qed
  moreover have "set (remove1 k q) \<subseteq> fst ` set (AList.delete k xs)"
  proof
    fix x assume "x \<in> set (remove1 k q)"
    then have "x \<in> set q" "x \<noteq> k" using d(2) by simp_all
    then obtain y where "(x, y) \<in> set xs" using d(3) by force
    then show "x \<in> fst ` set (AList.delete k xs)" using \<open>x \<noteq> k\<close> by (force simp: AList.delete_eq)
  qed
  ultimately show ?thesis using d
    unfolding streams_sound_def by (auto simp: distinct_delete simp del: AList.delete_eq)
qed

end

interpretation inbound: timed_streams inbound_sound
  by unfold_locales (auto simp: inbound_sound_def split: option.splits)

interpretation outbound: timed_streams outbound_sound
  by unfold_locales (auto simp: outbound_sound_def)

lemma drive_inbounds_sound:
  assumes "distinct (map fst xs)" "distinct q" "\<forall>(i, info) \<in> set xs. inbound_sound i info q"
  shows "\<exists>(es :: ('id, 'root, 'pl) handler_event list) ws xs' q'.
    drive_inbounds io d xs q = Some (es, ws, xs', q') \<and> sweep_sound inbound_sound xs q xs' q'"
  using assms
proof (induction xs arbitrary: q)
  case Nil
  then show ?case by (simp add: inbound.sweep_Nil)
next
  case (Cons x xs)
  obtain i info where x: "x = (i, info)" by force
  obtain es :: "('id, 'root, 'pl) handler_event list" and ws kept q1
    where 1: "drive_inbound io d i info q = Some (es, ws, kept, q1)" "step_sound inbound_sound i q kept q1"
    using drive_inbound_sound [of i info q io d] Cons.prems by (auto simp: x)
  have i: "i \<notin> fst ` set xs" "distinct (map fst xs)" using Cons.prems(1) by (auto simp: x)
  have "\<forall>(j, y) \<in> set xs. inbound_sound j y q1" using Cons.prems(3) by (intro inbound.step_rest [OF 1(2) i(1)]) (simp add: x)
  then obtain es' :: "('id, 'root, 'pl) handler_event list" and ws' xs' q2
    where 2: "drive_inbounds io d xs q1 = Some (es', ws', xs', q2)"
    "sweep_sound inbound_sound xs q1 xs' q2"
    using Cons.IH [OF i(2), of q1] 1(2) by (auto simp: step_sound_def)
  show ?case
    using inbound.sweep_Cons [OF 1(2) 2(2) i(1), of info] by (cases kept) (simp_all add: x 1(1) 2(1))
qed

lemma drive_outbound_sound:
  fixes info :: "('id, 'root) outbound_info" and io :: "'pl handler_io"
  assumes "outbound_sound k info q" "distinct q"
  shows "\<exists>ret es kept q'. drive_outbound ctx io d k info q = Some (ret, es, kept, q') \<and>
    step_sound outbound_sound k q kept q'"
proof -
  have facts: "out_delay_key info = k" "k \<in> set q" "terminator (out_proto info) \<noteq> None"
    using assms(1) by (simp_all add: outbound_sound_def)
  have keep: "step_sound outbound_sound k q (Some info') q"
    if "out_state info' = OutClosing \<or> out_state info' = out_state info" "out_delay_key info' = k"
      "out_proto info' = out_proto info" for info' :: "('id, 'root) outbound_info"
    using that(1)
  proof
    assume "out_state info' = OutClosing"
    then show ?thesis using that(2,3) assms by (intro step_sound_keep) (simp_all add: outbound_sound_def)
  next
    assume "out_state info' = out_state info"
    then show ?thesis using that(2,3) assms by (intro step_sound_keep) (simp_all add: outbound_sound_def)
  qed
  have gone: "step_sound outbound_sound k q (None :: ('id, 'root) outbound_info option) (remove1 k q)"
    using assms(2) by (auto simp: step_sound_def)
  have remove: "delay_remove k q = Some (remove1 k q)" and reset: "delay_reset k q = Some q"
    using facts by (simp_all add: delay_remove_Some delay_reset_Some)
  show ?thesis
  proof (cases "out_state info")
    case (RequestPendingResponse req)
    have "on_stream_closed req info \<noteq> (None :: ('id, 'root, 'pl) handler_event option)"
      using assms(1) RequestPendingResponse by (auto simp: outbound_sound_def on_stream_closed_def)
    then obtain e :: "('id, 'root, 'pl) handler_event" where ended: "on_stream_closed req info = Some e" by auto
    show ?thesis
    proof (cases "d \<or> io_next io k = Pending")
      case True
      then show ?thesis using keep [of info] keep [of "info\<lparr>out_state := OutClosing\<rparr>"] facts
        by (cases d) (auto simp: drive_outbound_def RequestPendingResponse)
    next
      case False
      then show ?thesis
        using keep [of "info\<lparr>out_remaining := n\<rparr>" for n] keep [of "info\<lparr>out_state := OutClosing\<rparr>"] facts gone
        by (cases "io_next io k")
          (auto simp: drive_outbound_def RequestPendingResponse on_response_def Let_def remove reset ended)
    qed
  next
    case OutClosing
    then show ?thesis using keep [of info] gone facts by (auto simp: drive_outbound_def remove)
  next
    case OutPoisoned
    then show ?thesis using assms(1) by (simp add: outbound_sound_def)
  qed
qed

lemma drive_outbounds_sound:
  assumes "distinct (map fst xs)" "distinct q" "\<forall>(k, info) \<in> set xs. outbound_sound k info q"
  shows "\<exists>ret es xs' q'. drive_outbounds ctx io d xs q = Some (ret, es, xs', q') \<and> sweep_sound outbound_sound xs q xs' q'"
  using assms
proof (induction xs arbitrary: q)
  case Nil
  then show ?case by (simp add: outbound.sweep_Nil)
next
  case (Cons x xs)
  obtain k info where x: "x = (k, info)" by force
  obtain ret es kept q1 where 1: "drive_outbound ctx io d k info q = Some (ret, es, kept, q1)"
    "step_sound outbound_sound k q kept q1"
    using drive_outbound_sound [of k info q ctx io d] Cons.prems by (auto simp: x)
  have k: "k \<notin> fst ` set xs" "distinct (map fst xs)" using Cons.prems(1) by (auto simp: x)
  have rest: "\<forall>(j, y) \<in> set xs. outbound_sound j y q" using Cons.prems(3) by (simp add: x)
  show ?case
  proof (cases ret)
    case (Some e)
    then show ?thesis
      using outbound.sweep_stop [OF 1(2) _ rest, of info] Cons.prems(1) by (cases kept) (simp_all add: x 1(1))
  next
    case None
    obtain ret' es' xs' q2 where 2: "drive_outbounds ctx io d xs q1 = Some (ret', es', xs', q2)"
      "sweep_sound outbound_sound xs q1 xs' q2"
      using Cons.IH [OF k(2), of q1] outbound.step_rest [OF 1(2) k(1) rest] 1(2) by (auto simp: step_sound_def)
    show ?thesis
      using outbound.sweep_Cons [OF 1(2) 2(2) k(1), of info] None by (cases kept) (simp_all add: x 1(1) 2(1))
  qed
qed

section \<open>The invariant of a connection\<close>

text \<open>
  \<open>Protocol::terminator\<close> is not defined for light client updates by range: no such request may be
  made.
\<close>

definition supported_request :: "'root request_type \<Rightarrow> bool" where
  "supported_request req \<longleftrightarrow> request_protocol req \<noteq> LightClientUpdatesByRange"

lemma supported_terminates:
  "supported_request req \<Longrightarrow> 0 < max_responses f cfg req \<Longrightarrow>
     terminator (request_protocol req) \<noteq> None \<and> (expect_exactly_one_response req \<or> stream_termination req \<noteq> None)"
  by (cases req rule: request_versioned_protocol.cases) (simp_all add: supported_request_def request_protocol_def)

definition keys_below :: "(nat \<times> 'info) list \<Rightarrow> nat \<Rightarrow> bool" where
  "keys_below xs n \<longleftrightarrow> (\<forall>i \<in> fst ` set xs. i < n)"

lemma keys_below_Nil [simp]: "keys_below [] n"
  by (simp add: keys_below_def)

lemma keys_below_update [simp]: "keys_below (AList.update k v xs) n \<longleftrightarrow> k < n \<and> keys_below xs n"
  unfolding keys_below_def alist_update_keys by blast

lemma keys_below_mem: "keys_below xs n \<Longrightarrow> i \<in> fst ` set xs \<Longrightarrow> i < n"
  by (simp only: keys_below_def)

lemma keys_below_subset: "keys_below xs n \<Longrightarrow> fst ` set ys \<subseteq> fst ` set xs \<Longrightarrow> n \<le> m \<Longrightarrow> keys_below ys m"
  unfolding keys_below_def by (meson order.strict_trans2 subsetD)

lemma keys_below_sweep: "keys_below xs n \<Longrightarrow> sweep_sound sound xs q xs' q' \<Longrightarrow> keys_below xs' n"
  by (erule keys_below_subset) (simp_all add: sweep_sound_def)

lemma keys_below_delete: "keys_below xs n \<Longrightarrow> keys_below (AList.delete k xs) n"
  by (erule keys_below_subset) (auto simp: AList.delete_eq)

definition connection_ok :: "('id, 'root, 'pl) connection \<Rightarrow> bool" where
  "connection_ok = (\<lambda>(s, ds).
     streams_sound inbound_sound (inbound_substreams s) (inbound_delay s) \<and>
     streams_sound outbound_sound (outbound_substreams s) (outbound_delay s) \<and>
     keys_below (inbound_substreams s) (current_inbound_id s) \<and>
     keys_below (outbound_substreams s) (current_outbound_id s) \<and>
     length (inbound_substreams s) \<le> MAX_INBOUND_SUBSTREAMS \<and>
     dial_negotiated s = length ds \<and> length ds \<le> max_dial_negotiated s \<and> max_dial_negotiated s = 8 \<and>
     io_error_retries s < IO_ERROR_RETRIES \<and>
     (\<forall>r \<in> set (dial_queue s). supported_request (snd r)) \<and> (\<forall>r \<in> set ds. supported_request (snd r)))"

lemma connection_ok_new: "connection_ok (handler_new conn, [])"
  by (simp add: connection_ok_def handler_new_def streams_sound_def)

text \<open>The invariant does not read the events, the state of the shutdown or the connection.\<close>

lemma connection_ok_push [simp]:
  "connection_ok (s\<lparr>events_out := es\<rparr>, ds) = connection_ok (s, ds)"
  "connection_ok (s\<lparr>h_state := st\<rparr>, ds) = connection_ok (s, ds)"
  by (simp_all add: connection_ok_def)

lemma connection_ok_dials:
  assumes "connection_ok (s, ds)" "\<forall>r \<in> set rs. supported_request (snd r)"
  shows "connection_ok (s\<lparr>dial_queue := rs\<rparr>, ds)"
  using assms by (auto simp: connection_ok_def)

lemma goodbye_supported [simp]: "supported_request (GoodbyeReq r)"
  by (simp add: supported_request_def request_protocol_def)

lemma shutdown_ok: "connection_ok (s, ds) \<Longrightarrow> connection_ok (handler_shutdown g s, ds)"
  by (cases g) (auto simp: handler_shutdown_def connection_ok_def)

lemma handler_send_request_ok:
  "connection_ok (s, ds) \<Longrightarrow> supported_request req \<Longrightarrow> connection_ok (handler_send_request i req s, ds)"
  by (cases "h_state s") (auto simp: handler_send_request_def connection_ok_def)

lemma handler_send_response_ok:
  assumes "connection_ok (s, ds)"
  shows "connection_ok (handler_send_response ctx i r s, ds)"
proof (cases "map_of (inbound_substreams s) i")
  case None
  then show ?thesis using assms by (simp add: handler_send_response_def)
next
  case (Some info)
  let ?info = "info\<lparr>pending_items := pending_items info @ [r]\<rparr>"
  have i: "i \<in> fst ` set (inbound_substreams s)" using map_of_SomeD [OF Some] by force
  have st: "streams_sound inbound_sound (inbound_substreams s) (inbound_delay s)"
    using assms by (simp add: connection_ok_def)
  have "inbound_sound i info (inbound_delay s)" "distinct (inbound_delay s)"
    using st map_of_SomeD [OF Some] by (auto simp: streams_sound_def)
  then have "step_sound inbound_sound i (inbound_delay s) (Some ?info) (inbound_delay s)"
    by (intro step_sound_keep) (auto simp: inbound_sound_def)
  from inbound.streams_update [OF st Some this]
  have "connection_ok (s\<lparr>inbound_substreams := AList.update i ?info (inbound_substreams s)\<rparr>, ds)"
    using assms i keys_below_mem [OF _ i, of "current_inbound_id s"]
    by (simp add: connection_ok_def alist_update_length)
  then have "connection_ok (s\<lparr>events_out := es, inbound_substreams := AList.update i ?info (inbound_substreams s)\<rparr>, ds)" for es
    by (simp add: connection_ok_def)
  then show ?thesis
    using assms by (cases r) (simp_all add: handler_send_response_def Some Let_def connection_ok_def)
qed

text \<open>A request of the peer is ignored, refused with a shutdown, or accepted.\<close>

definition accept_inbound :: "handler_ctx \<Rightarrow> 'root request_type \<Rightarrow> ('id, 'root, 'pl) handler \<Rightarrow> ('id, 'root, 'pl) handler" where
  "accept_inbound ctx req s =
     (let i = current_inbound_id s; n = ctx_max_responses ctx req; s1 = s\<lparr>current_inbound_id := Suc i\<rparr> in
      if n = 0 then s1
      else s1\<lparr>inbound_delay := inbound_delay s @ [i],
              inbound_substreams := AList.update i \<lparr>in_state = InIdle, pending_items = [],
                in_protocol = request_protocol req, in_remaining = n, in_delay_key = Some i\<rparr> (inbound_substreams s)\<rparr>)"

lemma negotiated_inbound_cases:
  fixes s :: "('id, 'root, 'pl) handler"
  obtains (ignored) "on_fully_negotiated_inbound ctx req s = s"
  | (refused) p e where "on_fully_negotiated_inbound ctx req s =
      handler_shutdown None (push_out (HandlerFailed (InboundErr (current_inbound_id s) p e)) s)"
  | (accepted) e where "h_state s = Active" "length (inbound_substreams s) < MAX_INBOUND_SUBSTREAMS \<or> ctx_max_responses ctx req = 0"
      "e = HandlerOk (ReceivedRequest \<lparr>ir_connection = h_connection_id s, ir_substream = current_inbound_id s\<rparr> req)"
      "on_fully_negotiated_inbound ctx req s = push_out e (accept_inbound ctx req s)"
  | (goodbye) e where "h_state s = Active" "ctx_max_responses ctx req = 0"
      "e = HandlerOk (ReceivedRequest \<lparr>ir_connection = h_connection_id s, ir_substream = current_inbound_id s\<rparr> req)"
      "on_fully_negotiated_inbound ctx req s = push_out e (handler_shutdown None (accept_inbound ctx req s))"
proof -
  let ?full = "0 < ctx_max_responses ctx req \<and> MAX_INBOUND_SUBSTREAMS \<le> length (inbound_substreams s)"
  show ?thesis
  proof (cases "h_state s = Active")
    case False
    then show ?thesis using ignored by (simp add: on_fully_negotiated_inbound_def)
  next
    case active: True
    show ?thesis
    proof (cases "over_limit ctx req")
      case (Some pe)
      then show ?thesis
        using refused [of "fst pe" "snd pe"] active by (cases pe) (simp add: on_fully_negotiated_inbound_def)
    next
      case None
      show ?thesis
      proof (cases ?full)
        case True
        then show ?thesis using refused active None by (simp add: on_fully_negotiated_inbound_def Let_def)
      next
        case False
        then show ?thesis
          using goodbye [OF active _ refl] accepted [OF active _ refl] active None
          by (cases req) (auto simp: on_fully_negotiated_inbound_def accept_inbound_def handler_shutdown_def Let_def)
      qed
    qed
  qed
qed

lemma accept_inbound_ok:
  assumes "connection_ok (s, ds)" "length (inbound_substreams s) < MAX_INBOUND_SUBSTREAMS \<or> ctx_max_responses ctx req = 0"
  shows "connection_ok (accept_inbound ctx req s, ds)"
proof -
  let ?i = "current_inbound_id s"
  have below: "keys_below (inbound_substreams s) ?i" using assms(1) by (simp add: connection_ok_def)
  have fresh: "?i \<notin> fst ` set (inbound_substreams s)" using keys_below_mem [OF below] by blast
  have "streams_sound inbound_sound (inbound_substreams s) (inbound_delay s)" using assms(1) by (simp add: connection_ok_def)
  then have "streams_sound inbound_sound (AList.update ?i info (inbound_substreams s)) (inbound_delay s @ [?i])"
    if "in_state info = InIdle" "in_delay_key info = Some ?i" for info
    using fresh that by (intro inbound.streams_new) (simp_all add: inbound_sound_def)
  then show ?thesis
    using assms keys_below_subset [OF below, of _ "Suc ?i"]
    by (auto simp: accept_inbound_def connection_ok_def Let_def alist_update_new [OF fresh, symmetric])
      (simp add: alist_update_new [OF fresh])
qed

lemma negotiated_inbound_ok:
  assumes "connection_ok (s, ds)"
  shows "connection_ok (on_fully_negotiated_inbound ctx req s, ds)"
  using assms by (cases rule: negotiated_inbound_cases [of ctx req s]) (simp_all add: shutdown_ok accept_inbound_ok)

lemma dial_settled_ok:
  assumes "connection_ok (s, ds)" "r \<in> set ds" "n < IO_ERROR_RETRIES"
  shows "connection_ok (s\<lparr>dial_negotiated := dial_negotiated s - 1, io_error_retries := n\<rparr>, remove1 r ds)"
  using assms notin_set_remove1 by (fastforce simp: connection_ok_def length_remove1)

lemma dialed_supported: "connection_ok (s, ds) \<Longrightarrow> (i, req) \<in> set ds \<Longrightarrow> supported_request req \<and> dial_negotiated s \<noteq> 0"
  by (auto simp: connection_ok_def)

definition open_outbound :: "handler_ctx \<Rightarrow> 'id \<Rightarrow> 'root request_type \<Rightarrow> ('id, 'root, 'pl) handler \<Rightarrow> ('id, 'root, 'pl) handler" where
  "open_outbound ctx i req s =
     (let k = current_outbound_id s; n = ctx_max_responses ctx req in
      if n = 0 then s
      else s\<lparr>outbound_delay := outbound_delay s @ [k],
             outbound_substreams := AList.update k
               \<lparr>out_state = RequestPendingResponse req, out_delay_key = k, out_proto = request_protocol req,
                out_remaining = (if expect_exactly_one_response req then None else Some n), out_req_id = i\<rparr>
               (outbound_substreams s),
             current_outbound_id := k + 1\<rparr>)"

lemma negotiated_outbound_eq:
  "on_fully_negotiated_outbound ctx i req s =
     (if dial_negotiated s = 0 then None
      else Some (open_outbound ctx i req
        (s\<lparr>dial_negotiated := dial_negotiated s - 1, io_error_retries := 0,
           events_out := events_out s @ (if h_state s = Deactivated then [unsent (i, req)] else [])\<rparr>)))"
  by (simp add: on_fully_negotiated_outbound_def open_outbound_def Let_def)

lemma open_outbound_ok:
  assumes "connection_ok (s, ds)" "supported_request req"
  shows "connection_ok (open_outbound ctx i req s, ds)"
proof -
  let ?k = "current_outbound_id s"
  have below: "keys_below (outbound_substreams s) ?k" using assms(1) by (simp add: connection_ok_def)
  have fresh: "?k \<notin> fst ` set (outbound_substreams s)" using keys_below_mem [OF below] by blast
  have "streams_sound outbound_sound (outbound_substreams s) (outbound_delay s)" using assms(1) by (simp add: connection_ok_def)
  then have "streams_sound outbound_sound (AList.update ?k info (outbound_substreams s)) (outbound_delay s @ [?k])"
    if "out_state info = RequestPendingResponse req" "out_delay_key info = ?k" "out_proto info = request_protocol req"
      "ctx_max_responses ctx req \<noteq> 0" for info
    using fresh that supported_terminates [OF assms(2), of "hc_epoch_at_slot ctx" "hc_config ctx"]
    by (intro outbound.streams_new) (simp_all add: outbound_sound_def)
  then show ?thesis
    using assms keys_below_subset [OF below subset_refl, of "Suc ?k"] by (simp add: open_outbound_def connection_ok_def Let_def)
qed

lemma negotiated_outbound_ok:
  assumes "connection_ok (s, ds)" "(i, req) \<in> set ds"
  shows "\<exists>s'. on_fully_negotiated_outbound ctx i req s = Some s' \<and> connection_ok (s', remove1 (i, req) ds)"
  using dialed_supported [OF assms] dial_settled_ok [OF assms, of 0]
  by (auto simp: negotiated_outbound_eq intro!: open_outbound_ok)

lemma dial_error_ok:
  assumes "connection_ok (s, ds)" "(i, req) \<in> set ds"
  shows "\<exists>s'. on_dial_upgrade_error i req err s = Some s' \<and> connection_ok (s', remove1 (i, req) ds)"
proof -
  have z: "dial_negotiated s \<noteq> 0" "supported_request req" using dialed_supported [OF assms] by simp_all
  have ok: "connection_ok (s\<lparr>dial_negotiated := dial_negotiated s - 1, io_error_retries := n\<rparr>, remove1 (i, req) ds)"
    if "n < IO_ERROR_RETRIES" for n by (rule dial_settled_ok [OF assms that])
  have same: "io_error_retries s < IO_ERROR_RETRIES" using assms(1) by (simp add: connection_ok_def)
  obtain io e where "upgrade_failure err = (io, e)" by force
  then show ?thesis
    using z ok [of "Suc (io_error_retries s)"] ok [of 0] same
    by (auto simp: on_dial_upgrade_error_def Let_def intro!: handler_send_request_ok)
qed

lemma connection_ok_streams:
  assumes "connection_ok (s, ds)"
  shows "streams_sound inbound_sound (inbound_substreams s) (inbound_delay s)"
    "streams_sound outbound_sound (outbound_substreams s) (outbound_delay s)"
  using assms by (simp_all add: connection_ok_def)

lemma connection_ok_inbound:
  assumes "connection_ok (s, ds)" "streams_sound inbound_sound xs q" "keys_below xs (current_inbound_id s)"
    "length xs \<le> length (inbound_substreams s)"
  shows "connection_ok (s\<lparr>inbound_delay := q, events_out := es, inbound_substreams := xs\<rparr>, ds)"
  using assms by (simp add: connection_ok_def)

lemma connection_ok_outbound:
  assumes "connection_ok (s, ds)" "streams_sound outbound_sound xs q" "keys_below xs (current_outbound_id s)"
  shows "connection_ok (s\<lparr>outbound_delay := q, outbound_substreams := xs\<rparr>, ds)"
  using assms by (simp add: connection_ok_def)

lemma timer_known:
  "streams_sound sound xs q \<Longrightarrow> i \<in> set q \<Longrightarrow> \<exists>info. map_of xs i = Some info \<and> sound i info q"
  by (fastforce simp: streams_sound_def)

lemma expire_inbound_ok: "connection_ok (s, ds) \<Longrightarrow> connection_ok (expire_inbound is s, ds)"
proof (induction "is" arbitrary: s)
  case Nil
  then show ?case by simp
next
  case (Cons i "is")
  note st = connection_ok_streams(1) [OF Cons.prems]
  show ?case
  proof (cases "i \<in> set (inbound_delay s)")
    case False
    then show ?thesis using Cons by simp
  next
    case True
    obtain info where info: "map_of (inbound_substreams s) i = Some info" "inbound_sound i info (inbound_delay s)"
      using timer_known [OF st True] by blast
    have mem: "i \<in> fst ` set (inbound_substreams s)" using map_of_SomeD [OF info(1)] by force
    have d: "distinct (inbound_delay s)" using st by (simp add: streams_sound_def)
    have step: "step_sound inbound_sound i (inbound_delay s) (Some (time_out_inbound info)) (remove1 i (inbound_delay s))"
      using info(2) d by (auto simp: step_sound_def inbound_sound_def time_out_inbound_def)
    have below: "keys_below (AList.update i (time_out_inbound info) (inbound_substreams s)) (current_inbound_id s)"
      using Cons.prems keys_below_mem [OF _ mem] by (simp add: connection_ok_def)
    have "connection_ok (s\<lparr>inbound_delay := remove1 i (inbound_delay s), events_out := es,
        inbound_substreams := AList.update i (time_out_inbound info) (inbound_substreams s)\<rparr>, ds)" for es
      using connection_ok_inbound [OF Cons.prems inbound.streams_update [OF st info(1) step] below] mem
      by (simp add: alist_update_length)
    from Cons.IH [OF this] show ?thesis using True info(1) by (simp add: Let_def)
  qed
qed

lemma expire_outbound_ok:
  "connection_ok (s, ds) \<Longrightarrow> expire_outbound ks s = (ret, s') \<Longrightarrow> connection_ok (s', ds)"
proof (induction ks arbitrary: s)
  case Nil
  then show ?case by simp
next
  case (Cons k ks)
  note st = connection_ok_streams(2) [OF Cons.prems(1)]
  show ?case
  proof (cases "k \<in> set (outbound_delay s)")
    case False
    then show ?thesis using Cons by simp
  next
    case True
    obtain info where info: "map_of (outbound_substreams s) k = Some info" using timer_known [OF st True] by blast
    have "keys_below (AList.delete k (outbound_substreams s)) (current_outbound_id s)"
      using Cons.prems(1) by (intro keys_below_delete) (simp add: connection_ok_def)
    from connection_ok_outbound [OF Cons.prems(1) outbound.streams_delete [OF st] this]
    show ?thesis using Cons.prems(2) True info by (auto simp: Let_def)
  qed
qed

lemma poll_dial_cases:
  assumes "poll_dial s = (out, s')"
  obtains (dial) i req rest where "dial_queue s = (i, req) # rest" "dial_negotiated s < max_dial_negotiated s"
      "out = OutboundSubstreamRequest i req" "s' = s\<lparr>dial_negotiated := dial_negotiated s + 1, dial_queue := rest\<rparr>"
  | (close) "out = NotifyBehaviour (HandlerClose DisconnectedError)" "s' = s\<lparr>h_state := Deactivated\<rparr>"
  | (idle) "out = PollPending" "s' = s"
  using assms by (auto simp: poll_dial_def split: list.splits if_splits)

lemma poll_dial_ok:
  assumes "connection_ok (s, ds)" "poll_dial s = (out, s')"
  shows "connection_ok (s', dials_after out ds)"
  using assms(2) by (cases rule: poll_dial_cases) (use assms(1) in \<open>simp_all add: connection_ok_def dials_after_def\<close>)

lemma poll_streams_ok:
  fixes s :: "('id, 'root, 'pl) handler"
  assumes "connection_ok (s, ds)"
  shows "\<exists>out ws s'. poll_streams ctx io s = Some (out, ws, s') \<and> connection_ok (s', dials_after out ds)"
proof -
  note st = connection_ok_streams [OF assms]
  let ?d = "h_state s = Deactivated"
  obtain es :: "('id, 'root, 'pl) handler_event list" and ws xs q where
    1: "drive_inbounds io ?d (inbound_substreams s) (inbound_delay s) = Some (es, ws, xs, q)"
       "sweep_sound inbound_sound (inbound_substreams s) (inbound_delay s) xs q"
    using drive_inbounds_sound [of "inbound_substreams s" "inbound_delay s" io ?d] st(1) by (auto simp: streams_sound_def)
  obtain ret and es' :: "('id, 'root, 'pl) handler_event list" and ys q' where
    2: "drive_outbounds ctx io ?d (outbound_substreams s) (outbound_delay s) = Some (ret, es', ys, q')"
       "sweep_sound outbound_sound (outbound_substreams s) (outbound_delay s) ys q'"
    using drive_outbounds_sound [of "outbound_substreams s" "outbound_delay s" ctx io ?d] st(2)
    by (auto simp: streams_sound_def)
  let ?s1 = "s\<lparr>events_out := events_out s @ es, inbound_substreams := xs, inbound_delay := q\<rparr>"
  let ?s = "?s1\<lparr>events_out := events_out ?s1 @ es', outbound_substreams := ys, outbound_delay := q'\<rparr>"
  have ok: "connection_ok (?s, ds)"
    using assms inbound.sweep_streams [OF st(1) 1(2)] outbound.sweep_streams [OF st(2) 2(2)]
      keys_below_sweep [OF _ 1(2)] keys_below_sweep [OF _ 2(2)] 1(2)
    by (simp add: connection_ok_def sweep_sound_def)
  have "poll_streams ctx io s = Some (case ret of Some e \<Rightarrow> (NotifyBehaviour e, ws, ?s)
      | None \<Rightarrow> (case poll_dial ?s of (out, s3) \<Rightarrow> (out, ws, s3)))"
    by (cases ret) (simp_all add: poll_streams_def Let_def 1(1) 2(1))
  then show ?thesis
    using ok poll_dial_ok [OF ok] by (cases ret; cases "poll_dial ?s") (auto simp: dials_after_def)
qed

lemma handler_poll_ok:
  assumes "connection_ok (s, ds)"
  shows "\<exists>out ws s'. handler_poll ctx io s = Some (out, ws, s') \<and> connection_ok (s', dials_after out ds)"
proof (cases "events_out s = [] \<and> \<not> (h_state s = ShuttingDown \<and> shutdown_elapsed io)")
  case False
  then show ?thesis using assms by (cases "events_out s") (auto simp: handler_poll_def dials_after_def)
next
  case True
  obtain ret s1 where 1: "expire_outbound (expired_outbound io) (expire_inbound (expired_inbound io) s) = (ret, s1)"
    by force
  have "connection_ok (s1, ds)" by (rule expire_outbound_ok [OF expire_inbound_ok [OF assms] 1])
  then show ?thesis
    using True poll_streams_ok [of s1 ds ctx io] by (cases ret) (auto simp: handler_poll_def 1 dials_after_def)
qed

lemma outcome_ok:
  assumes "connection_ok (s, ds)" "outcome_of ev = Some r" "r \<in> set ds"
  shows "\<exists>s'. on_connection_event ctx ev s = Some s' \<and> connection_ok (s', remove1 r ds)"
proof (cases ev)
  case (FullyNegotiatedOutbound i req)
  then show ?thesis using negotiated_outbound_ok [OF assms(1), of i req ctx] assms(2,3) by simp
next
  case (DialUpgradeFailed i req err)
  then show ?thesis using dial_error_ok [OF assms(1), of i req err] assms(2,3) by simp
qed (use assms(2) in simp_all)

lemma connection_moves_ok:
  assumes "connection_moves ctx c m c'" "connection_ok c" "\<And>i req. m = Command (SendRequest i req) \<Longrightarrow> supported_request req"
  shows "connection_ok c'"
  using assms
proof (induction rule: connection_moves.induct)
  case (command s ds e)
  then show ?case by (cases e) (simp_all add: handler_send_request_ok handler_send_response_ok shutdown_ok)
next
  case (inbound ev s s' ds)
  then show ?case by (cases ev) (auto simp: negotiated_inbound_ok)
next
  case (outcome ev r ds s s')
  then show ?case using outcome_ok [of s ds ev r ctx] by simp
next
  case (polled io s out ws s' ds)
  then show ?case using handler_poll_ok [of s ds ctx io] by auto
qed

definition requests_supported :: "('id, 'root, 'pl) connection_step list \<Rightarrow> bool" where
  "requests_supported ms \<longleftrightarrow> (\<forall>i req. Command (SendRequest i req) \<in> set ms \<longrightarrow> supported_request req)"

lemma connection_runs_ok:
  assumes "connection_runs ctx c ms c'" "connection_ok c" "requests_supported ms"
  shows "connection_ok c'"
  using assms
proof (induction rule: connection_runs.induct)
  case (stop c)
  then show ?case by simp
next
  case (move c ms c1 m c2)
  then show ?case by (intro connection_moves_ok [OF move.hyps(2)]) (auto simp: requests_supported_def)
qed

section \<open>The parts of a poll\<close>

lemma expire_inbound_fields:
  "outbound_substreams (expire_inbound is s) = outbound_substreams s"
  "outbound_delay (expire_inbound is s) = outbound_delay s"
  "dial_queue (expire_inbound is s) = dial_queue s"
  "h_state (expire_inbound is s) = h_state s"
  "dial_negotiated (expire_inbound is s) = dial_negotiated s"
  "current_inbound_id (expire_inbound is s) = current_inbound_id s"
  by (induction "is" arbitrary: s; auto simp: Let_def split: option.splits)+

lemma expire_inbound_events:
  "\<exists>es. events_out (expire_inbound is s) = events_out s @ es \<and> (\<forall>e \<in> set es. \<exists>i p x. e = HandlerFailed (InboundErr i p x))"
proof (induction "is" arbitrary: s)
  case Nil
  then show ?case by simp
next
  case (Cons i "is")
  let ?s = "if i \<in> set (inbound_delay s) then
     (let s1 = s\<lparr>inbound_delay := remove1 i (inbound_delay s)\<rparr> in
      case map_of (inbound_substreams s1) i of
        None \<Rightarrow> s1
      | Some info \<Rightarrow>
          s1\<lparr>events_out := events_out s1 @ [inbound_failed i info StreamTimeout],
             inbound_substreams := AList.update i (time_out_inbound info) (inbound_substreams s1)\<rparr>)
     else s"
  have "\<exists>es. events_out ?s = events_out s @ es \<and> (\<forall>e \<in> set es. \<exists>i p x. e = HandlerFailed (InboundErr i p x))"
    by (cases "i \<in> set (inbound_delay s)"; cases "map_of (inbound_substreams s) i") (auto simp: Let_def)
  then obtain es where "events_out ?s = events_out s @ es" "\<forall>e \<in> set es. \<exists>i p x. e = HandlerFailed (InboundErr i p x)"
    by blast
  moreover obtain es' where "events_out (expire_inbound is ?s) = events_out ?s @ es'"
    "\<forall>e \<in> set es'. \<exists>i p x. e = HandlerFailed (InboundErr i p x)"
    using Cons.IH [of ?s] by blast
  ultimately have "events_out (expire_inbound (i # is) s) = events_out s @ (es @ es') \<and>
    (\<forall>e \<in> set (es @ es'). \<exists>i p x. e = HandlerFailed (InboundErr i p x))"
    by (auto simp only: expire_inbound.simps append_assoc set_append Un_iff)
  then show ?case by blast
qed

lemma expire_outbound_fields:
  assumes "expire_outbound ks s = (ret, s')"
  shows "inbound_substreams s' = inbound_substreams s" "inbound_delay s' = inbound_delay s" "dial_queue s' = dial_queue s"
    "events_out s' = events_out s" "h_state s' = h_state s" "current_inbound_id s' = current_inbound_id s"
  using assms by (induction ks arbitrary: s; force simp: Let_def split: option.splits if_splits)+

lemma handler_poll_cases:
  fixes s :: "('id, 'root, 'pl) handler"
  assumes "handler_poll ctx io s = Some (out, ws, s')"
  obtains (event) e es where "events_out s = e # es" "out = NotifyBehaviour e" "ws = []" "s' = s\<lparr>events_out := es\<rparr>"
  | (elapsed) "out = NotifyBehaviour (HandlerClose DisconnectedError)" "ws = []" "s' = s\<lparr>h_state := Deactivated\<rparr>"
  | (expired) e where "events_out s = []" "out = NotifyBehaviour e" "ws = []"
      "expire_outbound (expired_outbound io) (expire_inbound (expired_inbound io) s) = (Some e, s')"
  | (streams) s1 where "events_out s = []"
      "expire_outbound (expired_outbound io) (expire_inbound (expired_inbound io) s) = (None, s1)"
      "poll_streams ctx io s1 = Some (out, ws, s')"
proof (cases "events_out s")
  case (Cons e es)
  then show ?thesis using assms event by (simp add: handler_poll_def)
next
  case Nil
  obtain ret s1 where 1: "expire_outbound (expired_outbound io) (expire_inbound (expired_inbound io) s) = (ret, s1)"
    by force
  show ?thesis
  proof (cases "h_state s = ShuttingDown \<and> shutdown_elapsed io")
    case True
    then show ?thesis using assms elapsed by (simp add: handler_poll_def Nil)
  next
    case False
    then have "handler_poll ctx io s = (case ret of Some e \<Rightarrow> Some (NotifyBehaviour e, [], s1) | None \<Rightarrow> poll_streams ctx io s1)"
      by (auto simp: handler_poll_def Nil 1)
    then show ?thesis using assms 1 expired [OF Nil] streams [OF Nil] by (cases ret) simp_all
  qed
qed

lemma poll_streams_cases:
  fixes s :: "('id, 'root, 'pl) handler"
  assumes "poll_streams ctx io s = Some (out, ws, s')"
  obtains es xs q ret es' ys q' s2 where
    "drive_inbounds io (h_state s = Deactivated) (inbound_substreams s) (inbound_delay s) = Some (es, ws, xs, q)"
    "drive_outbounds ctx io (h_state s = Deactivated) (outbound_substreams s) (outbound_delay s) = Some (ret, es', ys, q')"
    "s2 = s\<lparr>inbound_substreams := xs, inbound_delay := q, events_out := events_out s @ es @ es',
            outbound_substreams := ys, outbound_delay := q'\<rparr>"
    "case ret of Some e \<Rightarrow> out = NotifyBehaviour e \<and> s' = s2 | None \<Rightarrow> poll_dial s2 = (out, s')"
proof -
  obtain es :: "('id, 'root, 'pl) handler_event list" and ws' xs q where 1:
    "drive_inbounds io (h_state s = Deactivated) (inbound_substreams s) (inbound_delay s) = Some (es, ws', xs, q)"
    using assms by (auto simp: poll_streams_def Let_def bind_eq_Some_conv)
  obtain ret and es' :: "('id, 'root, 'pl) handler_event list" and ys q' where 2:
    "drive_outbounds ctx io (h_state s = Deactivated) (outbound_substreams s) (outbound_delay s) = Some (ret, es', ys, q')"
    using assms by (auto simp: poll_streams_def Let_def bind_eq_Some_conv)
  show ?thesis
    using assms that [OF _ 2 refl] 1
    by (cases ret) (auto simp: poll_streams_def Let_def 2 split: prod.splits)
qed

end
