(* ===== verification/RpcBehaviourProperties.thy ===== *)
theory RpcBehaviourProperties
  imports RpcBehaviour "HOL-Library.Multiset"
begin

text \<open>
  What holds in every run of the behaviour of \<open>rpc/mod.rs\<close>: the limits on concurrent requests in
  both directions, and that no request of the application is lost or reported twice.
\<close>

section \<open>Invariants of runs\<close>

definition rpc_ok :: "('peer, 'id, 'root, 'pl) rpc \<Rightarrow> bool" where
  "rpc_ok s \<longleftrightarrow> self_limiter_ok (outbound_request_limiter s) \<and> distinct (map fst (active_inbound_requests s)) \<and>
     (\<forall>peer p. active_inbound s peer p \<le> MAX_CONCURRENT_REQUESTS)"

abbreviation counts :: "'peer \<Rightarrow> protocol \<Rightarrow> ('peer, 'root) active_inbound_request \<Rightarrow> bool" where
  "counts peer p a \<equiv> ai_peer a = peer \<and> request_protocol (ai_request a) = p \<and> \<not> ai_disconnected a"

lemma filter_length_update:
  assumes "distinct (map fst m)"
  shows "length (filter (\<lambda>(_, a). P a) (AList.update k x m)) \<le>
    length (filter (\<lambda>(_, a). P a) m) + (if P x then 1 else 0)"
  using assms by (induction m) auto

lemma filter_length_delete: "length (filter (\<lambda>(_, a). P a) (AList.delete k m)) \<le> length (filter (\<lambda>(_, a). P a) m)"
  by (induction m) auto

lemma filter_length_restore:
  assumes "distinct (map fst m)" "map_of m k = Some a"
  shows "length (filter (\<lambda>(_, a). P a) (AList.update k a (AList.delete k m))) = length (filter (\<lambda>(_, a). P a) m)"
proof -
  have upd: "AList.update k a xs = xs @ [(k, a)]" if "k \<notin> fst ` set xs" for xs using that by (induction xs) auto
  have "length (filter (\<lambda>(_, a). P a) m) = length (filter (\<lambda>(_, a). P a) (AList.delete k m)) + (if P a then 1 else 0)"
    using assms by (induction m) (auto simp: delete_id split: if_splits)
  moreover have "k \<notin> fst ` set (AList.delete k m)" by (induction m) auto
  ultimately show ?thesis by (simp add: upd)
qed

lemma send_response_inner_fields [simp]:
  "active_inbound_requests (send_response_inner env s peer p rid r) = active_inbound_requests s"
  "outbound_request_limiter (send_response_inner env s peer p rid r) = outbound_request_limiter s"
  by (auto simp: send_response_inner_def Let_def split: option.splits prod.splits)

lemma rpc_ok_cong:
  "rpc_ok s \<Longrightarrow> self_limiter_ok (outbound_request_limiter s') \<Longrightarrow> active_inbound_requests s' = active_inbound_requests s \<Longrightarrow> rpc_ok s'"
  by (simp add: rpc_ok_def active_inbound_def)

lemma send_response_ok:
  assumes "rpc_ok s" "send_response env s rid response = Some (r, s')"
  shows "rpc_ok s' \<and> outbound_request_limiter s' = outbound_request_limiter s"
proof (cases "map_of (active_inbound_requests s) rid")
  case None
  then show ?thesis using assms by (auto simp: send_response_def)
next
  case (Some a)
  let ?m = "active_inbound_requests s"
  from Some assms(2) have s': "outbound_request_limiter s' = outbound_request_limiter s"
    "active_inbound_requests s' \<in> {AList.delete rid ?m, AList.update rid a (AList.delete rid ?m)}"
    by (auto simp: send_response_def Let_def split: option.splits if_splits)
  have d: "distinct (map fst ?m)" and lim: "active_inbound s peer p \<le> MAX_CONCURRENT_REQUESTS" for peer p
    using assms(1) by (simp_all add: rpc_ok_def)
  have "active_inbound s' peer p \<le> MAX_CONCURRENT_REQUESTS" for peer p
    using s'(2) lim [of peer p] filter_length_delete [of "counts peer p" rid ?m] filter_length_restore [OF d Some, of "counts peer p"]
    by (auto simp: active_inbound_def)
  moreover have "distinct (map fst (active_inbound_requests s'))"
    using s'(2) d by (auto simp: distinct_update distinct_delete)
  ultimately show ?thesis using assms(1) s'(1) by (simp add: rpc_ok_def)
qed

lemma expect_ok:
  assumes "(case r of Some (Ok _, s) \<Rightarrow> Some s | _ \<Rightarrow> None) = Some s'"
  shows "\<exists>x. r = Some (x, s')"
proof (cases r)
  case (Some p)
  obtain x y where "p = (x, y)" by (rule prod.exhaust)
  then show ?thesis using assms Some by (cases x) simp_all
qed (use assms in simp)

lemma insert_inbound_ok:
  assumes "rpc_ok s" "active_inbound s (ai_peer a) (request_protocol (ai_request a)) < MAX_CONCURRENT_REQUESTS"
  shows "rpc_ok (s\<lparr>active_inbound_requests := AList.update rid a (active_inbound_requests s)\<rparr>)"
proof -
  have d: "distinct (map fst (active_inbound_requests s))" using assms(1) by (simp add: rpc_ok_def)
  have "length (filter (\<lambda>(_, a). counts x p a) (AList.update rid a (active_inbound_requests s))) \<le> MAX_CONCURRENT_REQUESTS" for x p
  proof (cases "counts x p a")
    case True
    then show ?thesis using filter_length_update [OF d, of "counts x p" rid a] assms(2) by (auto simp: active_inbound_def)
  next
    case False
    have "active_inbound s x p \<le> MAX_CONCURRENT_REQUESTS" using assms(1) by (simp add: rpc_ok_def)
    then show ?thesis using filter_length_update [OF d, of "counts x p" rid a] unfolding if_not_P [OF False] active_inbound_def
      by simp
  qed
  then show ?thesis using assms(1) d by (simp add: rpc_ok_def active_inbound_def distinct_update)
qed

lemma on_request_ok:
  assumes "rpc_ok s" "on_request env s peer conn rid req = Some s'"
  shows "rpc_ok s' \<and> outbound_request_limiter s' = outbound_request_limiter s"
proof (cases "MAX_CONCURRENT_REQUESTS \<le> active_inbound s peer (request_protocol req)")
  case True
  then have "s' = send_response_inner env s peer (request_protocol req) rid rate_limited_response"
    using assms(2) by (simp add: on_request_def)
  moreover have "self_limiter_ok (outbound_request_limiter s)" using assms(1) by (simp only: rpc_ok_def)
  ultimately show ?thesis using rpc_ok_cong [OF assms(1), of s'] by simp
next
  case False
  define s1 where "s1 = s\<lparr>active_inbound_requests :=
     AList.update rid \<lparr>ai_peer = peer, ai_request = req, ai_disconnected = False\<rparr> (active_inbound_requests s)\<rparr>"
  have s1: "rpc_ok s1" "outbound_request_limiter s1 = outbound_request_limiter s"
    using insert_inbound_ok [OF assms(1), of "\<lparr>ai_peer = peer, ai_request = req, ai_disconnected = False\<rparr>" rid] False
    by (simp_all add: s1_def)
  define o2 where "o2 = (case req of PingReq _ \<Rightarrow>
      (case send_response env s1 rid (Success (PongResp (rpc_seq_number s1))) of Some (Ok _, s2) \<Rightarrow> Some s2 | _ \<Rightarrow> None)
    | _ \<Rightarrow> Some s1)"
  have "on_request env s peer conn rid req = map_option (generate peer conn (Ok (ReceivedRequest rid req))) o2"
    by (simp only: on_request_def if_not_P [OF False] Let_def s1_def o2_def)
  then have "map_option (generate peer conn (Ok (ReceivedRequest rid req))) o2 = Some s'" using assms(2) by (rule trans [OF sym])
  then obtain s2 where o2: "o2 = Some s2" and s': "s' = generate peer conn (Ok (ReceivedRequest rid req)) s2"
    unfolding map_option_eq_Some by blast
  have s2: "s2 = s1 \<or> (\<exists>r x. send_response env s1 rid r = Some (x, s2))"
  proof (cases "\<exists>n. req = PingReq n")
    case True
    then have "(case send_response env s1 rid (Success (PongResp (rpc_seq_number s1))) of Some (Ok _, s2) \<Rightarrow> Some s2 | _ \<Rightarrow> None) = Some s2"
      using o2 by (auto simp: o2_def)
    then have "\<exists>x. send_response env s1 rid (Success (PongResp (rpc_seq_number s1))) = Some (x, s2)"
      by (rule expect_ok)
    then show ?thesis by blast
  next
    case False
    then show ?thesis using o2 by (cases req) (simp_all add: o2_def)
  qed
  from s2 s1 send_response_ok [OF s1(1)] have ok2: "rpc_ok s2" "outbound_request_limiter s2 = outbound_request_limiter s" by metis+
  have "self_limiter_ok (outbound_request_limiter s2)" using ok2(1) by (simp only: rpc_ok_def)
  then have "rpc_ok s'" unfolding s' by (intro rpc_ok_cong [OF ok2(1)]) simp_all
  then show ?thesis using ok2(2) s' by simp
qed

lemma self_prune_fields [simp]:
  "delayed_requests (self_prune now l) = delayed_requests l" "next_peer_request (self_prune now l) = next_peer_request l"
  "active_requests (self_prune now l) = active_requests l" "ready_requests (self_prune now l) = ready_requests l"
  by (simp_all add: self_prune_def)

lemma self_poll_ok:
  assumes "self_limiter_ok l" "self_poll_ready env expired tick l = (r, l')"
  shows "self_limiter_ok l'"
proof -
  define l1 where "l1 = (case expired of None \<Rightarrow> l | Some (peer, p) \<Rightarrow>
     next_peer_request_ready env (l\<lparr>next_peer_request := take_timer (peer, p) (next_peer_request l)\<rparr>) peer p)"
  have "self_limiter_ok l1"
  proof (cases expired)
    case (Some k)
    then show ?thesis using next_ready_cases [OF _ _ _ refl, of "l\<lparr>next_peer_request := take_timer k (next_peer_request l)\<rparr>"
          "next_peer_request l" "fst k" "snd k" env] assms(1)
      by (auto simp: l1_def self_limiter_ok_def split: prod.splits)
  qed (simp add: l1_def assms(1))
  then show ?thesis using assms(2)
    by (auto simp: self_poll_ready_def l1_def [symmetric] Let_def self_limiter_ok_def split: if_splits)
qed

lemma poll_responses_fields [simp]:
  "active_inbound_requests (poll_responses env inp s) = active_inbound_requests s"
  "outbound_request_limiter (poll_responses env inp s) = outbound_request_limiter s"
  by (auto simp: poll_responses_def Let_def split: option.splits prod.splits)

lemma poll_requests_ok: "rpc_ok s \<Longrightarrow> rpc_ok (poll_requests env inp s)"
proof -
  assume ok: "rpc_ok s"
  obtain r l where p: "self_poll_ready env (expired_request inp) (request_tick inp) (outbound_request_limiter s) = (r, l)"
    by (rule prod.exhaust)
  have "self_limiter_ok l" using self_poll_ok [OF _ p] ok by (simp add: rpc_ok_def)
  then show ?thesis using p by (intro rpc_ok_cong [OF ok]) (auto simp: poll_requests_def Let_def split: option.splits prod.splits)
qed

lemma rpc_poll_ok:
  assumes "rpc_ok s" "rpc_poll env inp s = (e, s')"
  shows "rpc_ok s'"
proof -
  have "rpc_ok (poll_responses env inp s)"
    by (rule rpc_ok_cong [OF assms(1)]) (use assms(1) in \<open>simp_all add: rpc_ok_def\<close>)
  from poll_requests_ok [OF this] have p: "rpc_ok (poll_requests env inp (poll_responses env inp s))" .
  with assms(2) show ?thesis
    by (intro rpc_ok_cong [OF p]) (auto simp: rpc_poll_def Let_def rpc_ok_def split: list.splits)
qed

lemma disconnected_limiter_ok:
  assumes "self_limiter_ok l" "self_peer_disconnected l peer = (failed, l')"
  shows "self_limiter_ok l'"
proof -
  have f: "l' = l\<lparr>active_requests := (active_requests l)(peer := None),
        delayed_requests := filter (\<lambda>((map_peer_id, _), _). map_peer_id \<noteq> peer) (delayed_requests l)\<rparr>"
    using assms(2) by (simp add: self_peer_disconnected_def)
  have "within_limit ((active_requests l)(peer := None))"
    using assms(1) by (simp add: self_limiter_ok_def within_limit_def in_flight_def)
  then show ?thesis using assms(1) by (auto simp: f self_limiter_ok_def queues_ok_def distinct_map_filter)
qed

lemma length_filter_map_le: "(\<And>y. P (f y) \<Longrightarrow> P y) \<Longrightarrow> length (filter P (map f m)) \<le> length (filter P m)"
  by (induction m) (auto simp: le_Suc_eq)

lemma mark_disconnected_count:
  "length (filter (\<lambda>(_, a). counts x p a) (map (\<lambda>(rid, a). (rid, if ai_peer a = peer then a\<lparr>ai_disconnected := True\<rparr> else a)) m))
     \<le> length (filter (\<lambda>(_, a). counts x p a) m)"
  by (rule length_filter_map_le) (auto split: if_splits)

lemma on_connection_closed_ok:
  assumes "rpc_ok s"
  shows "rpc_ok (on_connection_closed s peer remaining conn)"
proof (cases "0 < remaining")
  case False
  let ?s = "on_connection_closed s peer remaining conn"
  let ?f = "\<lambda>a. if ai_peer a = peer then a\<lparr>ai_disconnected := True\<rparr> else a"
  obtain failed l where p: "self_peer_disconnected (outbound_request_limiter s) peer = (failed, l)" by (rule prod.exhaust)
  then have f: "outbound_request_limiter ?s = l" "active_inbound_requests ?s = map (\<lambda>(rid, a). (rid, ?f a)) (active_inbound_requests s)"
    using False by (simp_all add: on_connection_closed_def)
  have "active_inbound ?s x p \<le> active_inbound s x p" for x p
    unfolding active_inbound_def f(2) by (rule mark_disconnected_count)
  then have "active_inbound ?s x p \<le> MAX_CONCURRENT_REQUESTS" for x p
    by (rule le_trans) (use assms in \<open>simp add: rpc_ok_def\<close>)
  moreover have "map fst (active_inbound_requests ?s) = map fst (active_inbound_requests s)"
    by (simp add: f(2) comp_def case_prod_beta)
  ultimately show ?thesis using assms disconnected_limiter_ok [OF _ p] by (simp add: rpc_ok_def f(1))
qed (simp add: on_connection_closed_def assms)

lemma handler_event_ok:
  assumes "rpc_ok s" "on_connection_handler_event env s peer conn e = Some s'"
  shows "rpc_ok s'"
proof -
  have c: "self_limiter_ok (request_completed (outbound_request_limiter s) peer p)" for p
    using request_other_ok [of "outbound_request_limiter s" "Completed peer p"] assms(1) by (simp add: rpc_ok_def)
  have "\<lbrakk>self_limiter_ok (outbound_request_limiter s'); active_inbound_requests s' = active_inbound_requests s\<rbrakk> \<Longrightarrow> ?thesis"
    by (rule rpc_ok_cong [OF assms(1)])
  moreover have "self_limiter_ok (outbound_request_limiter s)" using assms(1) by (simp add: rpc_ok_def)
  ultimately show ?thesis using assms(2) c
  proof (cases "(env, s, peer, conn, e)" rule: on_connection_handler_event.cases)
    case (1 env' s1 peer' conn' rid req)
    then have "on_request env s peer conn rid req = Some s'" using assms(2) by simp
    from on_request_ok [OF assms(1) this] show ?thesis ..
  qed (auto simp: Let_def)
qed

lemma send_request_ok: "rpc_ok s \<Longrightarrow> rpc_ok (send_request env s peer i req)"
proof -
  assume ok: "rpc_ok s"
  obtain r l where a: "self_allows env (outbound_request_limiter s) peer i req = (r, l)" by (rule prod.exhaust)
  have "self_limiter_ok l" using self_allows_cases [OF _ a] ok by (simp add: rpc_ok_def)
  then show ?thesis using a by (intro rpc_ok_cong [OF ok]) (auto simp: send_request_def Let_def split: sum.splits)
qed

lemma rpc_step_ok:
  assumes "rpc_ok s" "rpc_step s c = Some (es, s')"
  shows "rpc_ok s'"
proof (cases c)
  case (CallResponse env rid response)
  then show ?thesis using assms send_response_ok [OF assms(1)] by auto
next
  case (CallShutdown peer i reason)
  then show ?thesis using assms rpc_ok_cong [OF assms(1), of s'] by (auto simp: shutdown_def rpc_ok_def)
next
  case (CallSeqNumber n)
  then show ?thesis using assms rpc_ok_cong [OF assms(1), of s'] by (auto simp: update_seq_number_def rpc_ok_def)
next
  case (CallHandler env peer conn e)
  then show ?thesis using assms handler_event_ok [OF assms(1)] by auto
next
  case (CallPoll env inp)
  then show ?thesis using assms rpc_poll_ok [OF assms(1)] by (auto split: prod.splits)
qed (use assms in \<open>auto simp: rpc_ping_def send_request_ok on_connection_closed_ok\<close>)

lemma rpc_execute_ok: "rpc_ok s \<Longrightarrow> rpc_execute s cs = Some (es, s') \<Longrightarrow> rpc_ok s'"
proof (induction cs arbitrary: s es)
  case (Cons c cs)
  then show ?case by (auto simp: bind_eq_Some_conv dest: rpc_step_ok)
qed simp

lemma rpc_new_ok: "rpc_new a b n = Some s \<Longrightarrow> rpc_ok s \<and> events s = [] \<and> delayed_requests (outbound_request_limiter s) = []
    \<and> ready_requests (outbound_request_limiter s) = []"
  by (auto simp: rpc_new_def self_limiter_new_def result_bind_eq_Ok rpc_ok_def self_limiter_ok_def queues_ok_def within_limit_def
      in_flight_def active_inbound_def split: sum.splits option.splits)

section \<open>Where every request is\<close>

fun send_ids :: "('id, 'root, 'pl) rpc_send \<Rightarrow> 'id multiset" where
  "send_ids (SendRequest i _) = {#i#}"
| "send_ids _ = {#}"

text \<open>Events that pass a request on or report its failure.\<close>

fun event_ids :: "('peer, 'id, 'root, 'pl) to_swarm \<Rightarrow> 'id multiset" where
  "event_ids (NotifyHandler _ _ e) = send_ids e"
| "event_ids (GenerateEvent m) = (case message m of Err (OutboundErr i _ _) \<Rightarrow> {#i#} | _ \<Rightarrow> {#})"
| "event_ids (CloseConnection _) = {#}"

definition queue_ids :: "('id, 'root) queued_request list \<Rightarrow> 'id multiset" where
  "queue_ids q = mset (map q_id q)"

definition waiting_ids :: "('peer, 'id, 'root, 'pl) self_limiter \<Rightarrow> 'id multiset" where
  "waiting_ids l = (\<Sum>(k, q)\<leftarrow>delayed_requests l. queue_ids q) + (\<Sum>(_, e, _)\<leftarrow>ready_requests l. send_ids e)"

definition pending_ids :: "('peer, 'id, 'root, 'pl) rpc \<Rightarrow> 'id multiset" where
  "pending_ids s = (\<Sum>e\<leftarrow>events s. event_ids e) + waiting_ids (outbound_request_limiter s)"

text \<open>What enters: requests of the application, and failures the handlers report.\<close>

fun call_ids :: "('peer, 'id, 'root, 'pl) rpc_call \<Rightarrow> 'id multiset" where
  "call_ids (CallRequest _ _ i _) = {#i#}"
| "call_ids (CallPing _ _ i) = {#i#}"
| "call_ids (CallHandler _ _ _ (HandlerFailed (OutboundErr i _ _))) = {#i#}"
| "call_ids _ = {#}"

lemma sum_queues:
  assumes "distinct (map fst m)" "finite S" "fst ` set m \<subseteq> S"
  shows "(\<Sum>(k, q)\<leftarrow>m. queue_ids q) = (\<Sum>k\<in>S. queue_ids (queue_of m k))"
proof -
  have d: "distinct m" using assms(1) by (simp add: distinct_map)
  have "(\<Sum>(k, q)\<leftarrow>m. queue_ids q) = (\<Sum>x\<in>set m. queue_ids (queue_of m (fst x)))"
    unfolding sum_list_distinct_conv_sum_set [OF d]
    by (rule sum.cong) (use assms(1) in \<open>auto simp: queue_of_def\<close>)
  also have "\<dots> = (\<Sum>k\<in>fst ` set m. queue_ids (queue_of m k))"
    using assms(1) by (simp add: sum.reindex distinct_map)
  also have "\<dots> = (\<Sum>k\<in>S. queue_ids (queue_of m k))"
    by (rule sum.mono_neutral_left) (use assms in \<open>auto simp: queue_of_def queue_ids_def map_of_eq_None_iff [symmetric] split: option.splits\<close>)
  finally show ?thesis .
qed

text \<open>Changing one queue moves exactly its difference.\<close>

lemma sum_queues_update:
  assumes "distinct (map fst m)" "distinct (map fst m')" "queue_of m' = (queue_of m)(k := xs)"
  shows "(\<Sum>(k, q)\<leftarrow>m'. queue_ids q) + queue_ids (queue_of m k) = (\<Sum>(k, q)\<leftarrow>m. queue_ids q) + queue_ids xs"
proof -
  let ?S = "insert k (fst ` set m \<union> fst ` set m')"
  have S: "?S = insert k (?S - {k})" "finite (?S - {k})" by auto
  have "(\<Sum>j\<in>?S - {k}. queue_ids (queue_of m' j)) = (\<Sum>j\<in>?S - {k}. queue_ids (queue_of m j))"
    by (rule sum.cong) (auto simp: assms(3))
  moreover have "(\<Sum>j\<in>?S. queue_ids (queue_of m j)) = queue_ids (queue_of m k) + (\<Sum>j\<in>?S - {k}. queue_ids (queue_of m j))"
    "(\<Sum>j\<in>?S. queue_ids (queue_of m' j)) = queue_ids (queue_of m' k) + (\<Sum>j\<in>?S - {k}. queue_ids (queue_of m' j))"
    by (rule sum.remove; simp)+
  moreover have "(\<Sum>(k, q)\<leftarrow>m. queue_ids q) = (\<Sum>j\<in>?S. queue_ids (queue_of m j))"
    "(\<Sum>(k, q)\<leftarrow>m'. queue_ids q) = (\<Sum>j\<in>?S. queue_ids (queue_of m' j))"
    by (rule sum_queues [OF assms(1)]; force) (rule sum_queues [OF assms(2)]; force)
  moreover have "queue_of m' k = xs" by (simp add: assms(3))
  ultimately show ?thesis by (simp only: ac_simps)
qed

lemma self_allows_ids:
  assumes "self_limiter_ok l" "self_allows env l peer i r = (x, l')"
  shows "waiting_ids l' + (case x of Ok ev \<Rightarrow> send_ids ev | Err _ \<Rightarrow> {#}) = waiting_ids l + {#i#}"
proof -
  have d: "distinct (map fst (delayed_requests l))" using assms(1) by (simp add: self_limiter_ok_def queues_ok_def)
  note c = self_allows_cases [OF assms]
  have d': "distinct (map fst (delayed_requests l'))" using c by (simp add: self_limiter_ok_def queues_ok_def)
  show ?thesis
  proof (cases x)
    case (Inr ev)
    then show ?thesis using c by (simp add: waiting_ids_def)
  next
    case (Inl e)
    with c obtain q where q: "q_id q = i" "queue_of (delayed_requests l') = (queue_of (delayed_requests l))
        ((peer, request_protocol r) := queue_of (delayed_requests l) (peer, request_protocol r) @ [q])" by auto
    from sum_queues_update [OF d d' q(2)] show ?thesis using c Inl q(1)
      by (simp add: waiting_ids_def queue_ids_def)
  qed
qed

lemma next_ready_ids:
  assumes "queues_ok (delayed_requests l) ts" "within_limit (active_requests l)" "next_peer_request l = take_timer (peer, p) ts"
  shows "waiting_ids (next_peer_request_ready env l peer p) = waiting_ids l"
proof -
  let ?l = "next_peer_request_ready env l peer p"
  from next_ready_cases [OF assms refl, of env] obtain released where ok: "self_limiter_ok ?l" and
    q: "queue_of (delayed_requests l) = (queue_of (delayed_requests ?l))((peer, p) := released @ queue_of (delayed_requests ?l) (peer, p))" and
    r: "ready_requests ?l = ready_requests l @ map (\<lambda>q. (peer, SendRequest (q_id q) (q_req q), q_queued_at q)) released" by blast
  have d: "distinct (map fst (delayed_requests l))" "distinct (map fst (delayed_requests ?l))"
    using assms(1) ok by (simp_all add: self_limiter_ok_def queues_ok_def)
  have "(\<Sum>(_, e, _)\<leftarrow>map (\<lambda>q. (peer, SendRequest (q_id q) (q_req q), q_queued_at q)) qs. send_ids e) = queue_ids qs" for qs
    by (induction qs) (simp_all add: queue_ids_def)
  then show ?thesis using sum_queues_update [OF d(2,1) q] by (simp add: waiting_ids_def r queue_ids_def ac_simps)
qed

lemma waiting_ids_timer [simp]: "waiting_ids (l\<lparr>next_peer_request := ts\<rparr>) = waiting_ids l"
  by (simp add: waiting_ids_def)

lemma waiting_ids_completed [simp]: "waiting_ids (request_completed l peer p) = waiting_ids l"
  by (simp add: waiting_ids_def)

lemma self_poll_ids:
  assumes "self_limiter_ok l" "self_poll_ready env expired tick l = (r, l')"
  shows "waiting_ids l' + (case r of None \<Rightarrow> {#} | Some (_, e) \<Rightarrow> send_ids e) = waiting_ids l"
proof -
  define l1 where "l1 = (case expired of None \<Rightarrow> l | Some (peer, p) \<Rightarrow>
     next_peer_request_ready env (l\<lparr>next_peer_request := take_timer (peer, p) (next_peer_request l)\<rparr>) peer p)"
  have "waiting_ids l1 = waiting_ids l"
  proof (cases expired)
    case (Some k)
    then show ?thesis using next_ready_ids [of "l\<lparr>next_peer_request := take_timer k (next_peer_request l)\<rparr>"
          "next_peer_request l" "fst k" "snd k" env] assms(1)
      by (auto simp: l1_def self_limiter_ok_def split: prod.splits)
  qed (simp add: l1_def)
  moreover define l2 where "l2 = (if tick then self_prune (env_now env) l1 else l1)"
  ultimately have l2: "waiting_ids l2 = waiting_ids l" by (simp add: waiting_ids_def)
  have s: "self_poll_ready env expired tick l =
    (if ready_requests l2 = [] then (None, l2)
     else (Some (fst (last (ready_requests l2)), fst (snd (last (ready_requests l2)))), l2\<lparr>ready_requests := butlast (ready_requests l2)\<rparr>))"
    unfolding self_poll_ready_def l1_def l2_def Let_def by (rule refl)
  show ?thesis
  proof (cases "ready_requests l2" rule: rev_cases)
    case Nil
    then show ?thesis using s assms(2) l2 by simp
  next
    case (snoc xs x)
    then have "r = Some (fst x, fst (snd x))" "l' = l2\<lparr>ready_requests := xs\<rparr>" using s assms(2) by auto
    then show ?thesis using l2 snoc by (cases x) (simp add: waiting_ids_def ac_simps)
  qed
qed

lemma disconnected_ids:
  fixes l :: "('peer, 'id, 'root, 'pl) self_limiter"
  assumes "self_peer_disconnected l peer = (failed, l')"
  shows "waiting_ids l' + mset (map fst failed) = waiting_ids l"
proof -
  have "(\<Sum>(k, q)\<leftarrow>filter (\<lambda>((x, _), _). x \<noteq> peer) m. queue_ids q) +
      mset (map fst (concat (map (\<lambda>((x, p), q). if x = peer then map (\<lambda>q. (q_id q, p)) q else []) m)))
    = (\<Sum>(k, q)\<leftarrow>m. queue_ids q)" for m :: "('peer limiter_key \<times> ('id, 'root) queued_request list) list"
    by (induction m) (auto simp: queue_ids_def image_mset.compositionality comp_def ac_simps)
  moreover have "l' = l\<lparr>active_requests := (active_requests l)(peer := None),
        delayed_requests := filter (\<lambda>((map_peer_id, _), _). map_peer_id \<noteq> peer) (delayed_requests l)\<rparr>"
    "failed = concat (map (\<lambda>((map_peer_id, p), queue). if map_peer_id = peer then map (\<lambda>q. (q_id q, p)) queue else []) (delayed_requests l))"
    using assms by (auto simp: self_peer_disconnected_def)
  ultimately show ?thesis by (simp add: waiting_ids_def ac_simps)
qed

lemma fail_pending_ids [simp]: "event_ids (fail_pending peer conn e) = event_ids e"
  by (induction peer conn e rule: fail_pending.induct) (simp_all add: disconnected_report_def)

lemma send_response_inner_ids [simp]: "pending_ids (send_response_inner env s peer p rid r) = pending_ids s"
  by (auto simp: send_response_inner_def pending_ids_def Let_def split: option.splits prod.splits)

lemma send_response_ids: "send_response env s rid r = Some (x, s') \<Longrightarrow> pending_ids s' = pending_ids s"
  by (auto simp: send_response_def Let_def pending_ids_def [of "active_inbound_requests_update _ _"] split: option.splits if_splits)
    (simp_all add: pending_ids_def)

lemma on_request_ids:
  assumes "on_request env s peer conn rid req = Some s'"
  shows "pending_ids s' = pending_ids s"
proof (cases "MAX_CONCURRENT_REQUESTS \<le> active_inbound s peer (request_protocol req)")
  case False
  define s1 where "s1 = s\<lparr>active_inbound_requests :=
     AList.update rid \<lparr>ai_peer = peer, ai_request = req, ai_disconnected = False\<rparr> (active_inbound_requests s)\<rparr>"
  have s1: "pending_ids s1 = pending_ids s" by (simp add: s1_def pending_ids_def)
  define o2 where "o2 = (case req of PingReq _ \<Rightarrow>
      (case send_response env s1 rid (Success (PongResp (rpc_seq_number s1))) of Some (Ok _, s2) \<Rightarrow> Some s2 | _ \<Rightarrow> None)
    | _ \<Rightarrow> Some s1)"
  have "on_request env s peer conn rid req = map_option (generate peer conn (Ok (ReceivedRequest rid req))) o2"
    by (simp only: on_request_def if_not_P [OF False] Let_def s1_def o2_def)
  with assms obtain s2 where o2: "o2 = Some s2" and s': "s' = generate peer conn (Ok (ReceivedRequest rid req)) s2" by auto
  have "pending_ids s2 = pending_ids s1"
  proof (cases "\<exists>n. req = PingReq n")
    case True
    then have "(case send_response env s1 rid (Success (PongResp (rpc_seq_number s1))) of Some (Ok _, s2) \<Rightarrow> Some s2 | _ \<Rightarrow> None) = Some s2"
      using o2 by (auto simp: o2_def)
    from expect_ok [OF this] show ?thesis using send_response_ids by blast
  next
    case False
    then show ?thesis using o2 by (cases req) (simp_all add: o2_def)
  qed
  then show ?thesis using s1 s' by (simp add: pending_ids_def)
qed (use assms in \<open>auto simp: on_request_def\<close>)

lemma poll_responses_ids [simp]: "pending_ids (poll_responses env inp s) = pending_ids s"
proof (cases "rpc_response_limiter s")
  case (Some l)
  have "(\<Sum>e\<leftarrow>map (\<lambda>r. NotifyHandler (qr_peer r) (OneHandler (qr_connection r)) (SendResponse (qr_substream r) (qr_response r))) rs. event_ids e) = {#}"
    for rs by (induction rs) simp_all
  then show ?thesis using Some by (auto simp: poll_responses_def pending_ids_def split: prod.splits)
qed (simp add: poll_responses_def)

lemma poll_requests_ids: "rpc_ok s \<Longrightarrow> pending_ids (poll_requests env inp s) = pending_ids s"
proof -
  assume ok: "rpc_ok s"
  obtain r l where p: "self_poll_ready env (expired_request inp) (request_tick inp) (outbound_request_limiter s) = (r, l)"
    by (rule prod.exhaust)
  have "waiting_ids l + (case r of None \<Rightarrow> {#} | Some (_, e) \<Rightarrow> send_ids e) = waiting_ids (outbound_request_limiter s)"
    using self_poll_ids [OF _ p] ok by (simp add: rpc_ok_def)
  then show ?thesis by (cases r) (auto simp: poll_requests_def p pending_ids_def Let_def ac_simps split: prod.splits)
qed

lemma rpc_poll_ids:
  assumes "rpc_ok s" "rpc_poll env inp s = (e, s')"
  shows "pending_ids s = (case e of None \<Rightarrow> {#} | Some x \<Rightarrow> event_ids x) + pending_ids s'"
proof -
  let ?s = "poll_requests env inp (poll_responses env inp s)"
  have "rpc_ok (poll_responses env inp s)"
    by (rule rpc_ok_cong [OF assms(1)]) (use assms(1) in \<open>simp_all add: rpc_ok_def\<close>)
  from poll_requests_ids [OF this, of env inp] have "pending_ids s = pending_ids ?s" by simp
  then show ?thesis using assms(2) by (cases "events ?s") (auto simp: rpc_poll_def Let_def pending_ids_def ac_simps)
qed

lemma handler_event_ids:
  assumes "on_connection_handler_event env s peer conn e = Some s'"
  shows "pending_ids s' = pending_ids s + call_ids (CallHandler env peer conn e)"
proof (cases e)
  case (HandlerOk r)
  then show ?thesis using assms on_request_ids
    by (cases r) (auto simp: pending_ids_def Let_def)
next
  case (HandlerFailed err)
  then show ?thesis using assms by (cases err) (auto simp: pending_ids_def)
next
  case (HandlerClose x)
  then show ?thesis using assms by (auto simp: pending_ids_def)
qed

lemma send_request_ids: "rpc_ok s \<Longrightarrow> pending_ids (send_request env s peer i req) = pending_ids s + {#i#}"
proof -
  assume ok: "rpc_ok s"
  obtain r l where a: "self_allows env (outbound_request_limiter s) peer i req = (r, l)" by (rule prod.exhaust)
  have "waiting_ids l + (case r of Ok ev \<Rightarrow> send_ids ev | Err _ \<Rightarrow> {#}) = waiting_ids (outbound_request_limiter s) + {#i#}"
    using self_allows_ids [OF _ a] ok by (simp add: rpc_ok_def)
  then show ?thesis by (cases r) (simp_all add: send_request_def a pending_ids_def Let_def ac_simps)
qed

lemma closed_ids:
  fixes s :: "('peer, 'id, 'root, 'pl) rpc"
  shows "pending_ids (on_connection_closed s peer remaining conn) = pending_ids s"
proof (cases "0 < remaining")
  case False
  obtain failed l where p: "self_peer_disconnected (outbound_request_limiter s) peer = (failed, l)" by (rule prod.exhaust)
  have "(\<Sum>x\<leftarrow>xs. event_ids (case x of (i, p) \<Rightarrow> (disconnected_report peer conn i p :: ('peer, 'id, 'root, 'pl) to_swarm)))
      = image_mset fst (mset xs)" for xs
    by (induction xs) (auto simp: disconnected_report_def)
  then show ?thesis using disconnected_ids [OF p] False
    by (simp add: on_connection_closed_def p pending_ids_def comp_def ac_simps)
qed (simp add: on_connection_closed_def)

lemma rpc_step_ids:
  assumes "rpc_ok s" "rpc_step s c = Some (es, s')"
  shows "pending_ids s + call_ids c = (\<Sum>e\<leftarrow>es. event_ids e) + pending_ids s'"
proof (cases c)
  case (CallResponse env rid response)
  then show ?thesis using assms(2) by (auto dest: send_response_ids)
next
  case (CallHandler env peer conn e)
  then have "on_connection_handler_event env s peer conn e = Some s'" "es = []" using assms(2) by auto
  from handler_event_ids [OF this(1)] show ?thesis using CallHandler \<open>es = []\<close> by simp
next
  case (CallPoll env inp)
  then show ?thesis using assms(2) rpc_poll_ids [OF assms(1)] by (auto split: prod.splits option.splits)
next
  case (CallShutdown peer i reason)
  then show ?thesis using assms(2) by (auto simp: shutdown_def pending_ids_def)
next
  case (CallSeqNumber n)
  then show ?thesis using assms(2) by (auto simp: update_seq_number_def pending_ids_def)
qed (use assms in \<open>auto simp: rpc_ping_def send_request_ids closed_ids\<close>)

lemma rpc_execute_ids:
  "rpc_ok s \<Longrightarrow> rpc_execute s cs = Some (es, s') \<Longrightarrow>
   pending_ids s + (\<Sum>c\<leftarrow>cs. call_ids c) = (\<Sum>e\<leftarrow>es. event_ids e) + pending_ids s'"
proof (induction cs arbitrary: s es)
  case (Cons c cs)
  then obtain es1 s1 es2 where s1: "rpc_step s c = Some (es1, s1)" "rpc_execute s1 cs = Some (es2, s')" "es = es1 @ es2"
    by (auto simp: bind_eq_Some_conv)
  from Cons.IH [OF rpc_step_ok [OF Cons.prems(1) s1(1)] s1(2)] rpc_step_ids [OF Cons.prems(1) s1(1)] s1(3)
  show ?case by (simp add: add.assoc [symmetric])
qed simp

section \<open>Properties\<close>

text \<open>
  C6. In every run of the behaviour no peer ever has more than \<open>MAX_CONCURRENT_REQUESTS\<close> requests of one
  protocol that we are still answering, and we count at most as many requests of ours in flight to it.
\<close>

theorem concurrency_limited:
  assumes "rpc_new inbound outbound seq = Some s0" "rpc_execute s0 cs = Some (es, s)"
  shows "active_inbound s peer p \<le> MAX_CONCURRENT_REQUESTS \<and>
         in_flight (active_requests (outbound_request_limiter s)) peer p \<le> MAX_CONCURRENT_REQUESTS"
  using rpc_execute_ok [OF conjunct1 [OF rpc_new_ok [OF assms(1)]] assms(2)]
  by (simp add: rpc_ok_def self_limiter_ok_def within_limit_def)

text \<open>
  C5. No request of the application is lost or duplicated. In every run, the requests the application made and
  the failures the handlers reported are exactly those passed on to a handler or reported as
  failed to the application, together with those still queued, ready or among the events.
\<close>

theorem requests_conserved:
  assumes "rpc_new inbound outbound seq = Some s0" "rpc_execute s0 cs = Some (es, s)"
  shows "(\<Sum>c\<leftarrow>cs. call_ids c) = (\<Sum>e\<leftarrow>es. event_ids e) + pending_ids s"
proof -
  note n = rpc_new_ok [OF assms(1)]
  have "pending_ids s0 = {#}" using n by (simp add: pending_ids_def waiting_ids_def)
  then show ?thesis using rpc_execute_ids [OF conjunct1 [OF n] assms(2)] by simp
qed

section \<open>Runs of a small node\<close>

text \<open>A node without rate limits that talks to peer 5; the poll inputs say which delayed key expires.\<close>

definition demo_rpc :: "(nat, nat, nat, nat) rpc" where
  "demo_rpc = the (rpc_new None None 7)"

definition demo_ping :: "nat \<Rightarrow> (nat, nat, nat, nat) rpc_call" where
  "demo_ping i = CallPing (demo_env i) 5 i"

definition demo_poll :: "nat limiter_key option \<Rightarrow> (nat, nat, nat, nat) rpc_call" where
  "demo_poll k = CallPoll (demo_env 200000000)
     \<lparr>expired_responses = [], response_tick = False, expired_request = k, request_tick = False\<rparr>"

definition demo_pong :: "nat \<Rightarrow> (nat, nat, nat, nat) rpc_call" where
  "demo_pong i = CallHandler (demo_env 100) 5 1 (HandlerOk (ReceivedResponse i (PongResp 3)))"

abbreviation demo_sent :: "nat \<Rightarrow> (nat, nat, nat, nat) to_swarm" where
  "demo_sent i \<equiv> NotifyHandler 5 AnyHandler (SendRequest i (PingReq 7))"

abbreviation demo_report :: "((nat, nat, nat) rpc_received, nat handler_err) result \<Rightarrow> (nat, nat, nat, nat) to_swarm" where
  "demo_report m \<equiv> GenerateEvent \<lparr>msg_peer = 5, msg_connection = 1, message = m\<rparr>"

lemma demo_rpc_new: "rpc_new None None 7 = Some demo_rpc"
  "demo_rpc = \<lparr>rpc_response_limiter = None, outbound_request_limiter = \<lparr>active_requests = Map.empty, delayed_requests = [],
      next_peer_request = [], sl_rate_limiter = None, ready_requests = []\<rparr>, active_inbound_requests = [], events = [],
      rpc_seq_number = 7\<rparr>"
  by (simp_all add: demo_rpc_def rpc_new_def self_limiter_new_def)

lemmas demo_run_simps = demo_rpc_new(2) demo_ping_def demo_poll_def demo_pong_def rpc_ping_def send_request_def self_allows_def
  try_send_request_def request_protocol_def in_flight_def add_active_def MAX_CONCURRENT_REQUESTS_def rpc_poll_def poll_responses_def
  poll_requests_def self_poll_ready_def next_peer_request_ready_def put_queue_def request_completed_def Let_def
  on_connection_closed_def self_peer_disconnected_def

lemma in_flight_completed:
  "in_flight (active_requests (request_completed l peer p)) peer p = in_flight (active_requests l) peer p - 1"
  by (auto simp: request_completed_def in_flight_def split: option.splits)

lemma in_flight_failed:
  "on_connection_handler_event env s peer conn (HandlerFailed err) = Some s' \<Longrightarrow>
   p = (case err of InboundErr _ p _ \<Rightarrow> p | OutboundErr _ p _ \<Rightarrow> p) \<Longrightarrow>
   in_flight (active_requests (outbound_request_limiter s')) peer p
     = in_flight (active_requests (outbound_request_limiter s)) peer p - 1"
  by (auto simp: Let_def in_flight_completed)

text \<open>
  C34. The failure of an inbound stream frees a slot of the limiter of our own requests. In any state in
  which a peer has as many requests of ours of a protocol in flight as allowed (none waits and no rate
  limit applies), a further request is held back; after the failure of any stream of that protocol which
  the peer had opened to us, the same request is passed on to its handler at once, although none of ours
  was answered.
\<close>

theorem inbound_failure_frees_slot:
  assumes "in_flight (active_requests (outbound_request_limiter s)) peer (request_protocol req) = MAX_CONCURRENT_REQUESTS"
    "map_of (delayed_requests (outbound_request_limiter s)) (peer, request_protocol req) = None"
    "sl_rate_limiter (outbound_request_limiter s) = None"
  shows "events (send_request env s peer i req) = events s \<and>
    (\<exists>s'. on_connection_handler_event env s peer conn (HandlerFailed (InboundErr n (request_protocol req) err)) = Some s' \<and>
       events (send_request env s' peer i req)
         = events s' @ [NotifyHandler peer AnyHandler (SendRequest i req)] \<and>
       in_flight (active_requests (outbound_request_limiter (send_request env s' peer i req))) peer (request_protocol req)
         = MAX_CONCURRENT_REQUESTS)"
proof -
  let ?e = "HandlerFailed (InboundErr n (request_protocol req) err)"
  obtain s' where s': "on_connection_handler_event env s peer conn ?e = Some s'" by simp
  have "in_flight (active_requests (outbound_request_limiter s')) peer (request_protocol req) = MAX_CONCURRENT_REQUESTS - 1"
    using in_flight_failed [OF s', of "request_protocol req"] assms(1) by simp
  moreover have "delayed_requests (outbound_request_limiter s') = delayed_requests (outbound_request_limiter s)"
    "sl_rate_limiter (outbound_request_limiter s') = None"
    using s' assms(3) by (auto simp: Let_def request_completed_def split: option.splits)
  ultimately show ?thesis
    using assms(1,2) s'
    by (simp add: send_request_def self_allows_def try_send_request_def Let_def assms(3) MAX_CONCURRENT_REQUESTS_def
        in_flight_def add_active_def del: on_connection_handler_event.simps)
qed

definition demo_two_pings :: "(nat, nat, nat, nat) rpc" where
  "demo_two_pings = rpc_ping (demo_env 2) (rpc_ping (demo_env 1) demo_rpc 5 1) 5 2"

theorem inbound_failure_frees_slot_witness:
  "events (rpc_ping (demo_env 3) demo_two_pings 5 3) = [demo_sent 1, demo_sent 2] \<and>
   (\<exists>s'. on_connection_handler_event (demo_env 3) demo_two_pings 5 1 (HandlerFailed (InboundErr 9 Ping StreamTimeout)) = Some s' \<and>
      events (send_request (demo_env 3) s' 5 3 (PingReq 7)) = events s' @ [demo_sent 3])"
proof -
  have s: "rpc_seq_number demo_two_pings = 7" "events demo_two_pings = [demo_sent 1, demo_sent 2]"
    "outbound_request_limiter demo_two_pings = \<lparr>active_requests = [5 \<mapsto> [Ping \<mapsto> 2]], delayed_requests = [],
      next_peer_request = [], sl_rate_limiter = None, ready_requests = []\<rparr>"
    by (simp_all add: demo_two_pings_def demo_run_simps numeral_2_eq_2)
  have p: "request_protocol (PingReq 7 :: nat request_type) = Ping" by (simp add: request_protocol_def)
  show ?thesis
    using inbound_failure_frees_slot [of demo_two_pings 5 "PingReq 7" "demo_env 3" 3 1 9 StreamTimeout]
    by (simp add: p s rpc_ping_def in_flight_def MAX_CONCURRENT_REQUESTS_def del: on_connection_handler_event.simps) blast
qed




lemma demo_run: "\<exists>s. rpc_execute demo_rpc [demo_ping 1, demo_ping 2, demo_ping 3, demo_poll None] = Some ([demo_sent 1], s)"
  by (simp add: demo_run_simps)

theorem concurrency_limited_witness:
  "\<exists>s. rpc_execute demo_rpc [demo_ping 1, demo_ping 2, demo_ping 3, demo_poll None] = Some ([demo_sent 1], s) \<and>
     in_flight (active_requests (outbound_request_limiter s)) 5 Ping \<le> MAX_CONCURRENT_REQUESTS"
  using demo_run concurrency_limited [OF demo_rpc_new(1)] by blast

theorem requests_conserved_witness:
  "\<exists>s. rpc_execute demo_rpc [demo_ping 1, demo_ping 2, demo_ping 3, demo_poll None] = Some ([demo_sent 1], s) \<and>
     {#1, 2, 3#} = {#1#} + pending_ids s"
proof -
  obtain s where s: "rpc_execute demo_rpc [demo_ping 1, demo_ping 2, demo_ping 3, demo_poll None] = Some ([demo_sent 1], s)"
    using demo_run by blast
  from requests_conserved [OF demo_rpc_new(1) s] have "{#1, 2, 3#} = {#1#} + pending_ids s"
    by (simp add: demo_ping_def demo_poll_def add_mset_commute)
  with s show ?thesis by blast
qed

end
