(* ===== verification/HandlerProperties.thy ===== *)
theory HandlerProperties
  imports HandlerInvariant RpcBehaviourProperties
begin

text \<open>
  Correctness of the connection handler over all its runs with a well-behaved swarm: it never
  panics and keeps its bounds, no request of ours is lost, a peer cannot deliver more chunks than
  were asked for, and answers are written in order and within the number asked for.
\<close>

section \<open>Requests of ours are accounted for\<close>

fun reports :: "('id, 'root, 'pl) handler_event \<Rightarrow> 'id option" where
  "reports (HandlerOk (ReceivedResponse i r)) = Some i"
| "reports (HandlerOk (EndOfStream i t)) = Some i"
| "reports (HandlerFailed (OutboundErr i p e)) = Some i"
| "reports _ = None"

lemma reports_unsent [simp]: "reports (unsent r) = Some (fst r)"
  by (simp add: unsent_def)

lemma reports_received [simp]: "reports (received_event ctx i p r) = Some i"
  by (cases r) simp_all

definition awaiting :: "('id, 'root) outbound_info \<Rightarrow> 'id \<Rightarrow> bool" where
  "awaiting info i \<longleftrightarrow> out_req_id info = i \<and> out_state info \<noteq> OutClosing"

text \<open>The request waits to be sent, waits for an answer, or an event on it is to be reported.\<close>

definition in_hand :: "('id, 'root, 'pl) connection \<Rightarrow> 'id \<Rightarrow> 'root request_type \<Rightarrow> bool" where
  "in_hand = (\<lambda>(s, ds) i req. (i, req) \<in> set (dial_queue s) \<or> (i, req) \<in> set ds \<or>
     (\<exists>x \<in> set (outbound_substreams s). awaiting (snd x) i) \<or> (\<exists>e \<in> set (events_out s). reports e = Some i))"

lemma drive_outbound_in_hand:
  assumes "drive_outbound ctx io d k info q = Some (ret, es, kept, q')" "awaiting info i"
  shows "(\<exists>x. kept = Some x \<and> awaiting x i) \<or> (\<exists>e \<in> set es \<union> set_option ret. reports e = Some i)"
  using assms
  by (auto simp: drive_outbound_def awaiting_def on_response_def on_stream_closed_def Let_def
      bind_eq_Some_conv split: outbound_state.splits poll.splits if_splits)

lemma drive_outbounds_in_hand:
  assumes "drive_outbounds ctx io d xs q = Some (ret, es, xs', q')" "\<exists>x \<in> set xs. awaiting (snd x) i"
  shows "(\<exists>x \<in> set xs'. awaiting (snd x) i) \<or> (\<exists>e \<in> set es \<union> set_option ret. reports e = Some i)"
  using assms
proof (induction xs arbitrary: q ret es xs' q')
  case Nil
  then show ?case by simp
next
  case (Cons x xs)
  obtain k info where x: "x = (k, info)" by force
  obtain ret1 es1 kept q1 where 1: "drive_outbound ctx io d k info q = Some (ret1, es1, kept, q1)"
    using Cons.prems(1) by (auto simp: x bind_eq_Some_conv)
  note head = drive_outbound_in_hand [OF 1, of i]
  show ?case
  proof (cases ret1)
    case (Some e)
    then show ?thesis using Cons.prems head by (cases kept) (auto simp: x 1 Let_def)
  next
    case None
    then obtain ret2 es2 xs2 where 2: "drive_outbounds ctx io d xs q1 = Some (ret2, es2, xs2, q')"
      and eq: "ret = ret2" "es = es1 @ es2" "xs' = (case kept of None \<Rightarrow> [] | Some info' \<Rightarrow> [(k, info')]) @ xs2"
      using Cons.prems(1) by (auto simp: x 1 Let_def)
    show ?thesis
    proof (cases "awaiting info i")
      case True
      then show ?thesis using head None by (cases kept) (auto simp: eq)
    next
      case False
      then have "\<exists>x \<in> set xs. awaiting (snd x) i" using Cons.prems(2) by (simp add: x)
      from Cons.IH [OF 2 this] show ?thesis by (auto simp: eq)
    qed
  qed
qed

lemma shutdown_in_hand: "in_hand (s, ds) i req \<Longrightarrow> in_hand (handler_shutdown g s, ds) i req"
  by (auto simp: in_hand_def handler_shutdown_def bex_Un) (metis fst_conv reports_unsent)

lemma send_request_in_hand: "in_hand (s, ds) i req \<Longrightarrow> in_hand (handler_send_request j r s, ds) i req"
  by (cases "h_state s") (auto simp: in_hand_def handler_send_request_def)

lemma send_response_in_hand: "in_hand (s, ds) i req \<Longrightarrow> in_hand (handler_send_response ctx j r s, ds) i req"
  by (cases "map_of (inbound_substreams s) j"; cases r) (auto simp: in_hand_def handler_send_response_def Let_def)

lemma push_in_hand: "in_hand (s, ds) i req \<Longrightarrow> in_hand (push_out e s, ds) i req"
  by (auto simp: in_hand_def)

lemma accept_in_hand: "in_hand (accept_inbound ctx r s, ds) i req = in_hand (s, ds) i req"
  by (simp add: in_hand_def accept_inbound_def Let_def)

lemma in_hand_counters [simp]:
  "in_hand (s\<lparr>dial_negotiated := n\<rparr>, ds) i req = in_hand (s, ds) i req"
  "in_hand (s\<lparr>io_error_retries := n\<rparr>, ds) i req = in_hand (s, ds) i req"
  by (simp_all add: in_hand_def)

lemma outbound_id_fresh: "connection_ok (s, ds) \<Longrightarrow> current_outbound_id s \<notin> fst ` set (outbound_substreams s)"
  using keys_below_mem [of "outbound_substreams s" "current_outbound_id s" "current_outbound_id s"]
  by (auto simp: connection_ok_def)

lemma open_in_hand:
  assumes "in_hand (s, ds) i req" "0 < ctx_max_responses ctx req"
    "current_outbound_id s \<notin> fst ` set (outbound_substreams s)"
  shows "in_hand (open_outbound ctx j r s, remove1 (j, r) ds) i req"
proof (cases "(j, r) = (i, req)")
  case True
  then show ?thesis
    using assms(2) by (auto simp: in_hand_def open_outbound_def Let_def alist_update_new [OF assms(3)] awaiting_def)
next
  case False
  then show ?thesis using assms(1)
    by (auto simp: in_hand_def open_outbound_def Let_def alist_update_new [OF assms(3)] bex_Un in_set_remove1)
qed

lemma events_in_hand: "in_hand (s, ds) i req \<Longrightarrow> in_hand (s\<lparr>events_out := events_out s @ es\<rparr>, ds) i req"
  by (auto simp: in_hand_def)

lemma negotiated_in_hand:
  assumes "in_hand (s, ds) i req" "0 < ctx_max_responses ctx req" "connection_ok (s, ds)"
    "on_fully_negotiated_outbound ctx j r s = Some s'"
  shows "in_hand (s', remove1 (j, r) ds) i req"
proof -
  let ?es = "if h_state s = Deactivated then [unsent (j, r)] else []"
  let ?s = "s\<lparr>dial_negotiated := dial_negotiated s - 1, io_error_retries := 0, events_out := events_out s @ ?es\<rparr>"
  have s': "s' = open_outbound ctx j r ?s" using assms(4) by (simp add: negotiated_outbound_eq split: if_splits)
  have "in_hand (?s, ds) i req"
    using events_in_hand [of "s\<lparr>dial_negotiated := dial_negotiated s - 1, io_error_retries := 0\<rparr>" ds i req ?es] assms(1) by simp
  then show ?thesis unfolding s' by (rule open_in_hand [OF _ assms(2)]) (use outbound_id_fresh [OF assms(3)] in simp)
qed

text \<open>A failed dial is retried or reported.\<close>

lemma dial_error_cases:
  assumes "on_dial_upgrade_error j r err s = Some s'"
  obtains (retried) n where "s' = handler_send_request j r (s\<lparr>dial_negotiated := dial_negotiated s - 1, io_error_retries := n\<rparr>)"
  | (failed) e where "s' = push_out (HandlerFailed (OutboundErr j (request_protocol r) e))
      (s\<lparr>dial_negotiated := dial_negotiated s - 1, io_error_retries := 0\<rparr>)"
  using assms
  by (cases "upgrade_failure err") (auto simp: on_dial_upgrade_error_def Let_def split: if_splits)

lemma in_hand_settled:
  assumes "in_hand (s, ds) i req" "in_hand (s', []) j r" "\<And>x y. in_hand (s, []) x y \<Longrightarrow> in_hand (s', []) x y"
  shows "in_hand (s', remove1 (j, r) ds) i req"
proof (cases "(i, req) \<in> set (remove1 (j, r) ds)")
  case True
  then show ?thesis by (simp add: in_hand_def)
next
  case False
  then have "in_hand (s, []) i req \<or> (i, req) = (j, r)"
    using assms(1) by (auto simp: in_hand_def in_set_remove1)
  then have "in_hand (s', []) i req" using assms(2,3) by blast
  then show ?thesis by (auto simp: in_hand_def)
qed

lemma dial_error_in_hand:
  assumes "in_hand (s, ds) i req" "on_dial_upgrade_error j r err s = Some s'"
  shows "in_hand (s', remove1 (j, r) ds) i req"
  using assms(2)
proof (cases rule: dial_error_cases)
  case (retried n)
  show ?thesis
  proof (rule in_hand_settled [OF assms(1)])
    show "in_hand (s', []) j r" by (cases "h_state s") (simp_all add: retried handler_send_request_def in_hand_def)
  qed (simp add: retried send_request_in_hand)
next
  case (failed e)
  show ?thesis
    by (rule in_hand_settled [OF assms(1)]) (simp_all add: failed in_hand_def, blast)
qed

lemma expire_outbound_in_hand:
  assumes "expire_outbound ks s = (ret, s')" "connection_ok (s, ds)" "\<exists>x \<in> set (outbound_substreams s). awaiting (snd x) i"
  shows "(\<exists>x \<in> set (outbound_substreams s'). awaiting (snd x) i) \<or> (\<exists>e. ret = Some e \<and> reports e = Some i)"
  using assms
proof (induction ks arbitrary: s)
  case Nil
  then show ?case by simp
next
  case (Cons k ks)
  note st = connection_ok_streams(2) [OF Cons.prems(2)]
  show ?case
  proof (cases "k \<in> set (outbound_delay s)")
    case False
    then show ?thesis using Cons by simp
  next
    case True
    obtain info where info: "map_of (outbound_substreams s) k = Some info" using timer_known [OF st True] by blast
    have s': "outbound_substreams s' = AList.delete k (outbound_substreams s)"
      and ret: "ret = Some (HandlerFailed (OutboundErr (out_req_id info) (out_proto info) StreamTimeout))"
      using Cons.prems(1) True info by (auto simp: Let_def)
    obtain j x where x: "(j, x) \<in> set (outbound_substreams s)" "awaiting x i" using Cons.prems(3) by force
    have "x = info" if "j = k"
      using st x(1) info that by (auto simp: streams_sound_def)
    then show ?thesis using x by (cases "j = k") (auto simp: s' ret awaiting_def AList.delete_eq)
  qed
qed

lemma expire_in_hand:
  assumes "expire_outbound ks (expire_inbound is s) = (ret, s')" "connection_ok (s, ds)" "in_hand (s, ds) i req"
  shows "in_hand (s', ds) i req \<or> (\<exists>e. ret = Some e \<and> reports e = Some i)"
proof -
  obtain es where es: "events_out (expire_inbound is s) = events_out s @ es" using expire_inbound_events [of "is" s] by blast
  then show ?thesis
    using assms(3) expire_outbound_in_hand [OF assms(1) expire_inbound_ok [OF assms(2)], of i]
      expire_outbound_fields(3,4) [OF assms(1)]
    by (auto simp: in_hand_def expire_inbound_fields bex_Un)
qed

lemma poll_dial_in_hand:
  assumes "poll_dial s = (out, s')" "in_hand (s, ds) i req"
  shows "in_hand (s', dials_after out ds) i req"
  using assms(1) by (cases rule: poll_dial_cases) (use assms(2) in \<open>auto simp: dials_after_def in_hand_def\<close>)

lemma handler_poll_in_hand:
  fixes s :: "('id, 'root, 'pl) handler"
  assumes "handler_poll ctx io s = Some (out, ws, s')" "connection_ok (s, ds)" "in_hand (s, ds) i req"
  shows "in_hand (s', dials_after out ds) i req \<or> (\<exists>e. out = NotifyBehaviour e \<and> reports e = Some i)"
  using assms(1)
proof (cases rule: handler_poll_cases)
  case (event e es)
  then show ?thesis using assms(3) by (auto simp: in_hand_def dials_after_def)
next
  case elapsed
  then show ?thesis using assms(3) by (auto simp: in_hand_def dials_after_def)
next
  case (expired e)
  then show ?thesis using expire_in_hand [OF expired(4) assms(2,3)] by (auto simp: dials_after_def)
next
  case (streams s1)
  have hand: "in_hand (s1, ds) i req" using expire_in_hand [OF streams(2) assms(2,3)] by simp
  from streams(3) show ?thesis
  proof (cases rule: poll_streams_cases)
    case (1 es xs q ret es' ys q' s2)
    have "in_hand (s2, ds) i req \<or> (\<exists>e. ret = Some e \<and> reports e = Some i)"
      using hand drive_outbounds_in_hand [OF 1(2), of i] by (auto simp: in_hand_def 1(3) bex_Un)
    then show ?thesis
      using 1(4) poll_dial_in_hand [of s2 out s' ds i req] by (cases ret) (auto simp: dials_after_def)
  qed
qed

lemma moves_in_hand:
  assumes "connection_moves ctx c m c'" "connection_ok c" "in_hand c i req" "0 < ctx_max_responses ctx req"
  shows "in_hand c' i req \<or> (\<exists>e ws. m = Polled (NotifyBehaviour e) ws \<and> reports e = Some i)"
  using assms
proof (induction rule: connection_moves.induct)
  case (command s ds e)
  then show ?case by (cases e) (simp_all add: send_request_in_hand send_response_in_hand shutdown_in_hand)
next
  case (inbound ev s s' ds)
  show ?case
  proof (cases ev)
    case (FullyNegotiatedInbound r)
    then have s': "s' = on_fully_negotiated_inbound ctx r s" using inbound.hyps(2) by simp
    show ?thesis
      using inbound.prems(2)
      by (cases rule: negotiated_inbound_cases [of ctx r s])
        (simp_all only: s', auto intro!: shutdown_in_hand push_in_hand simp: accept_in_hand)
  qed (use inbound in auto)
next
  case (outcome ev r ds s s')
  then show ?case by (cases ev) (auto intro: negotiated_in_hand dial_error_in_hand)
next
  case (polled io s out ws s' ds)
  then show ?case using handler_poll_in_hand [of ctx io s out ws s' ds i req] by auto
qed

section \<open>Chunks a peer may deliver\<close>

fun is_chunk :: "('id, 'root, 'pl) handler_event \<Rightarrow> bool" where
  "is_chunk (HandlerOk (ReceivedResponse i r)) = True"
| "is_chunk _ = False"

lemma is_chunk_unsent [simp]: "\<not> is_chunk (unsent r)"
  by (simp add: unsent_def)

definition response_to :: "'id \<Rightarrow> ('id, 'root, 'pl) handler_event \<Rightarrow> bool" where
  "response_to i e \<longleftrightarrow> is_chunk e \<and> reports e = Some i"

definition dial_budget :: "handler_ctx \<Rightarrow> 'id \<Rightarrow> 'id \<times> 'root request_type \<Rightarrow> nat" where
  "dial_budget ctx i r = (if fst r = i then ctx_max_responses ctx (snd r) else 0)"

definition stream_budget :: "'id \<Rightarrow> nat \<times> ('id, 'root) outbound_info \<Rightarrow> nat" where
  "stream_budget i x = (if awaiting (snd x) i then (case out_remaining (snd x) of None \<Rightarrow> 1 | Some c \<Rightarrow> c) else 0)"

text \<open>The number of responses that requests with the identifier may still get.\<close>

definition owed :: "handler_ctx \<Rightarrow> 'id \<Rightarrow> ('id, 'root, 'pl) connection \<Rightarrow> nat" where
  "owed ctx i = (\<lambda>(s, ds). sum_list (map (dial_budget ctx i) (dial_queue s)) + sum_list (map (dial_budget ctx i) ds) +
     sum_list (map (stream_budget i) (outbound_substreams s)))"

definition quiet :: "('id, 'root, 'pl) handler \<Rightarrow> bool" where
  "quiet s \<longleftrightarrow> (\<forall>e \<in> set (events_out s). \<not> is_chunk e) \<and> (\<forall>x \<in> set (outbound_substreams s). out_remaining (snd x) \<noteq> Some 0)"

lemma sum_update_le:
  fixes f :: "'k \<times> 'v \<Rightarrow> nat"
  shows "sum_list (map f (AList.update k v xs)) \<le> sum_list (map f xs) + f (k, v)"
  by (induction xs) auto

lemma sum_delete_le:
  fixes f :: "'k \<times> 'v \<Rightarrow> nat"
  shows "sum_list (map f (AList.delete k xs)) \<le> sum_list (map f xs)"
  by (induction xs) auto

definition one_if :: "bool \<Rightarrow> nat" where
  "one_if b = (if b then 1 else 0)"

lemma one_if_simps [simp]: "one_if True = 1" "one_if False = 0"
  by (simp_all add: one_if_def)

definition answered :: "'id \<Rightarrow> ('id, 'root, 'pl) handler_event option \<Rightarrow> nat" where
  "answered i ret = (case ret of None \<Rightarrow> 0 | Some e \<Rightarrow> one_if (response_to i e))"

lemma received_response [simp]: "response_to i (received_event ctx j p r) \<longleftrightarrow> i = j \<and> is_success r"
  by (cases r) (auto simp: response_to_def is_success_def)

lemma on_response_chunks:
  assumes "on_response ctx req r info q = Some (ret, es, kept, q')" "out_remaining info \<noteq> Some 0"
    "out_state info = RequestPendingResponse req"
  shows "answered i ret + (case kept of None \<Rightarrow> 0 | Some x \<Rightarrow> stream_budget i (k, x)) \<le> stream_budget i (k, info) \<and>
    es = [] \<and> (\<forall>x. kept = Some x \<longrightarrow> out_remaining x \<noteq> Some 0)"
proof -
  let ?e = "received_event ctx (out_req_id info) (out_proto info) r"
  have ret: "ret = Some ?e" "es = []"
    using assms(1) by (auto simp: on_response_def Let_def split: if_splits)
  have one: "answered i ret \<le> one_if (i = out_req_id info)" by (simp add: ret answered_def one_if_def)
  consider (closing) "kept = Some (info\<lparr>out_state := OutClosing\<rparr>)"
    | (chunk) c where "out_remaining info = Some c" "c - 1 \<noteq> 0" "kept = Some (info\<lparr>out_remaining := Some (c - 1)\<rparr>)"
    using assms(1) by (cases "out_remaining info") (auto simp: on_response_def Let_def split: if_splits)
  then show ?thesis
  proof cases
    case closing
    have "one_if (i = out_req_id info) \<le> stream_budget i (k, info)"
      using assms(2,3) by (cases "out_remaining info") (simp_all add: stream_budget_def awaiting_def one_if_def)
    then show ?thesis using one closing ret(2) assms(2) by (simp add: stream_budget_def awaiting_def)
  next
    case (chunk c)
    then show ?thesis using one ret(2) assms(3) by (auto simp: stream_budget_def awaiting_def one_if_def)
  qed
qed

lemma drive_outbound_chunks:
  assumes "drive_outbound ctx io d k info q = Some (ret, es, kept, q')" "out_remaining info \<noteq> Some 0"
  shows "answered i ret + (case kept of None \<Rightarrow> 0 | Some x \<Rightarrow> stream_budget i (k, x)) \<le> stream_budget i (k, info) \<and>
    (\<forall>e \<in> set es. \<not> is_chunk e) \<and> (\<forall>x. kept = Some x \<longrightarrow> out_remaining x \<noteq> Some 0)"
proof (cases "out_state info")
  case (RequestPendingResponse req)
  show ?thesis
  proof (cases d)
    case True
    then show ?thesis using assms
      by (auto simp: drive_outbound_def RequestPendingResponse answered_def stream_budget_def awaiting_def)
  next
    case False
    show ?thesis
    proof (cases "io_next io k")
      case (Got r)
      then show ?thesis
        using assms False on_response_chunks [OF _ assms(2) RequestPendingResponse]
        by (fastforce simp: drive_outbound_def RequestPendingResponse)
    next
      case Closed
      then show ?thesis using assms(1) False
        by (auto simp: drive_outbound_def RequestPendingResponse on_stream_closed_def bind_eq_Some_conv answered_def
            response_to_def split: if_splits)
    qed (use assms False in \<open>auto simp: drive_outbound_def RequestPendingResponse answered_def response_to_def\<close>)
  qed
next
  case OutClosing
  show ?thesis
  proof (cases "io_close_outbound io k")
    case True
    then show ?thesis using assms(1) OutClosing
      by (auto simp: drive_outbound_def bind_eq_Some_conv answered_def response_to_def split: option.splits)
  next
    case False
    then show ?thesis using assms OutClosing by (auto simp: drive_outbound_def answered_def)
  qed
next
  case OutPoisoned
  then show ?thesis using assms by (simp add: drive_outbound_def)
qed

lemma drive_outbounds_chunks:
  assumes "drive_outbounds ctx io d xs q = Some (ret, es, xs', q')" "\<forall>x \<in> set xs. out_remaining (snd x) \<noteq> Some 0"
  shows "answered i ret + sum_list (map (stream_budget i) xs') \<le> sum_list (map (stream_budget i) xs) \<and>
    (\<forall>e \<in> set es. \<not> is_chunk e) \<and> (\<forall>x \<in> set xs'. out_remaining (snd x) \<noteq> Some 0)"
  using assms
proof (induction xs arbitrary: q ret es xs' q')
  case Nil
  then show ?case by (simp add: answered_def)
next
  case (Cons x xs)
  obtain k info where x: "x = (k, info)" by force
  obtain ret1 es1 kept q1 where 1: "drive_outbound ctx io d k info q = Some (ret1, es1, kept, q1)"
    using Cons.prems(1) by (auto simp: x bind_eq_Some_conv)
  have head: "answered i ret1 + (case kept of None \<Rightarrow> 0 | Some x \<Rightarrow> stream_budget i (k, x)) \<le> stream_budget i (k, info)"
    "\<forall>e \<in> set es1. \<not> is_chunk e" "\<forall>x. kept = Some x \<longrightarrow> out_remaining x \<noteq> Some 0"
    using drive_outbound_chunks [OF 1, of i] Cons.prems(2) by (simp_all add: x)
  show ?case
  proof (cases ret1)
    case (Some e)
    then show ?thesis using Cons.prems head by (cases kept) (auto simp: x 1 Let_def)
  next
    case None
    then obtain ret2 es2 xs2 where 2: "drive_outbounds ctx io d xs q1 = Some (ret2, es2, xs2, q')"
      and eq: "ret = ret2" "es = es1 @ es2" "xs' = (case kept of None \<Rightarrow> [] | Some info' \<Rightarrow> [(k, info')]) @ xs2"
      using Cons.prems(1) by (auto simp: x 1 Let_def)
    have "answered i ret2 + sum_list (map (stream_budget i) xs2) \<le> sum_list (map (stream_budget i) xs) \<and>
        (\<forall>e \<in> set es2. \<not> is_chunk e) \<and> (\<forall>x \<in> set xs2. out_remaining (snd x) \<noteq> Some 0)"
      using Cons.prems(2) by (intro Cons.IH [OF 2]) simp
    then show ?thesis using head by (cases kept) (auto simp: eq x)
  qed
qed

definition delivered_by :: "'id \<Rightarrow> ('id, 'root, 'pl) handler_output \<Rightarrow> nat" where
  "delivered_by i out = (case out of NotifyBehaviour e \<Rightarrow> one_if (response_to i e) | _ \<Rightarrow> 0)"

lemma shutdown_chunks:
  "owed ctx i (handler_shutdown g s, ds) \<le> owed ctx i (s, ds)"
  "quiet s \<Longrightarrow> quiet (handler_shutdown g s)"
  by (auto simp: handler_shutdown_def owed_def quiet_def dial_budget_def ball_Un split: option.splits)

lemma send_request_chunks:
  "owed ctx i (handler_send_request j req s, ds) \<le> owed ctx i (s, ds) + dial_budget ctx i (j, req)"
  "quiet s \<Longrightarrow> quiet (handler_send_request j req s)"
  by (cases "h_state s"; simp add: handler_send_request_def owed_def quiet_def ball_Un)+

lemma send_response_chunks:
  "owed ctx i (handler_send_response ctx' j r s, ds) = owed ctx i (s, ds)"
  "quiet s \<Longrightarrow> quiet (handler_send_response ctx' j r s)"
  by (cases "map_of (inbound_substreams s) j"; cases r;
      simp add: handler_send_response_def Let_def owed_def quiet_def ball_Un)+

lemma push_chunks [simp]:
  "owed ctx i (s\<lparr>events_out := es\<rparr>, ds) = owed ctx i (s, ds)"
  "quiet (push_out e s) \<longleftrightarrow> quiet s \<and> \<not> is_chunk e"
  by (auto simp: owed_def quiet_def ball_Un)

lemma accept_chunks [simp]:
  "owed ctx i (accept_inbound ctx' r s, ds) = owed ctx i (s, ds)" "quiet (accept_inbound ctx' r s) = quiet s"
  by (simp_all add: accept_inbound_def owed_def quiet_def Let_def)

lemma negotiated_inbound_chunks:
  assumes "quiet s"
  shows "owed ctx i (on_fully_negotiated_inbound ctx' r s, ds) \<le> owed ctx i (s, ds) \<and> quiet (on_fully_negotiated_inbound ctx' r s)"
proof (cases rule: negotiated_inbound_cases [of ctx' r s])
  case (refused p e)
  then show ?thesis
    using assms shutdown_chunks [where g = None and s = "push_out (HandlerFailed (InboundErr (current_inbound_id s) p e)) s"] by simp
next
  case (goodbye e)
  then show ?thesis using assms shutdown_chunks [where g = None and s = "accept_inbound ctx' r s"] by simp
qed (use assms in simp_all)

lemma open_chunks:
  assumes "quiet s" "(j, r) \<in> set ds"
  shows "owed ctx i (open_outbound ctx j r s, remove1 (j, r) ds) \<le> owed ctx i (s, ds) \<and> quiet (open_outbound ctx j r s)"
proof -
  let ?info = "\<lparr>out_state = RequestPendingResponse r, out_delay_key = current_outbound_id s, out_proto = request_protocol r,
    out_remaining = (if expect_exactly_one_response r then None else Some (ctx_max_responses ctx r)), out_req_id = j\<rparr>"
  have sum: "sum_list (map (dial_budget ctx i) ds) =
      dial_budget ctx i (j, r) + sum_list (map (dial_budget ctx i) (remove1 (j, r) ds))"
    using assms(2) by (rule sum_list_map_remove1)
  have new: "stream_budget i (current_outbound_id s, ?info) \<le> dial_budget ctx i (j, r)" if "ctx_max_responses ctx r \<noteq> 0"
    using that by (simp add: stream_budget_def dial_budget_def awaiting_def)
  have q: "\<forall>x \<in> set (AList.update (current_outbound_id s) ?info (outbound_substreams s)). out_remaining (snd x) \<noteq> Some 0"
    if "ctx_max_responses ctx r \<noteq> 0"
  proof
    fix x assume "x \<in> set (AList.update (current_outbound_id s) ?info (outbound_substreams s))"
    then have "x = (current_outbound_id s, ?info) \<or> x \<in> set (outbound_substreams s)"
      using set_alist_update [of "current_outbound_id s" ?info "outbound_substreams s"] by blast
    then show "out_remaining (snd x) \<noteq> Some 0"
    proof
      assume "x = (current_outbound_id s, ?info)"
      then show ?thesis using that by simp
    next
      assume "x \<in> set (outbound_substreams s)"
      then show ?thesis using assms(1) by (simp add: quiet_def)
    qed
  qed
  show ?thesis
    using assms(1) sum new q sum_update_le [of "stream_budget i" "current_outbound_id s" ?info "outbound_substreams s"]
    by (cases "ctx_max_responses ctx r = 0") (simp_all add: open_outbound_def owed_def quiet_def Let_def)
qed

lemma counters_chunks [simp]:
  "owed ctx i (s\<lparr>dial_negotiated := n\<rparr>, ds) = owed ctx i (s, ds)" "quiet (s\<lparr>dial_negotiated := n\<rparr>) = quiet s"
  "owed ctx i (s\<lparr>io_error_retries := n\<rparr>, ds) = owed ctx i (s, ds)" "quiet (s\<lparr>io_error_retries := n\<rparr>) = quiet s"
  by (simp_all add: owed_def quiet_def)

lemma negotiated_outbound_chunks:
  assumes "quiet s" "(j, r) \<in> set ds" "on_fully_negotiated_outbound ctx j r s = Some s'"
  shows "owed ctx i (s', remove1 (j, r) ds) \<le> owed ctx i (s, ds) \<and> quiet s'"
proof -
  let ?es = "if h_state s = Deactivated then [unsent (j, r)] else []"
  let ?s = "s\<lparr>dial_negotiated := dial_negotiated s - 1, io_error_retries := 0, events_out := events_out s @ ?es\<rparr>"
  have s': "s' = open_outbound ctx j r ?s" using assms(3) by (simp add: negotiated_outbound_eq split: if_splits)
  have "quiet ?s" using assms(1) by (simp add: quiet_def ball_Un)
  from open_chunks [OF this assms(2), of ctx i] show ?thesis by (simp add: s')
qed

lemma dial_error_chunks:
  assumes "quiet s" "(j, r) \<in> set ds" "on_dial_upgrade_error j r err s = Some s'"
  shows "owed ctx i (s', remove1 (j, r) ds) \<le> owed ctx i (s, ds) \<and> quiet s'"
proof -
  have sum: "owed ctx i (s, remove1 (j, r) ds) + dial_budget ctx i (j, r) = owed ctx i (s, ds)"
    using sum_list_map_remove1 [OF assms(2), of "dial_budget ctx i"] by (simp add: owed_def)
  from assms(3) show ?thesis
  proof (cases rule: dial_error_cases)
    case (retried n)
    then show ?thesis
      using sum assms(1) send_request_chunks(1) [of ctx i j r "s\<lparr>dial_negotiated := dial_negotiated s - 1, io_error_retries := n\<rparr>"
          "remove1 (j, r) ds"] by (simp add: send_request_chunks(2))
  next
    case (failed e)
    then show ?thesis using sum assms(1) by (simp add: quiet_def ball_Un)
  qed
qed

lemma expire_chunks:
  assumes "expire_outbound ks s = (ret, s')" "quiet s"
  shows "owed ctx i (s', ds) \<le> owed ctx i (s, ds) \<and> quiet s' \<and> answered i ret = 0"
  using assms
proof (induction ks arbitrary: s)
  case Nil
  then show ?case by (simp add: answered_def)
next
  case (Cons k ks)
  let ?s = "s\<lparr>outbound_delay := remove1 k (outbound_delay s)\<rparr>"
  have same: "owed ctx i (?s, ds) = owed ctx i (s, ds)" "quiet ?s" using Cons.prems(2) by (simp_all add: owed_def quiet_def)
  show ?case
  proof (cases "k \<in> set (outbound_delay s) \<and> map_of (outbound_substreams s) k \<noteq> None")
    case True
    then have s': "s' = ?s\<lparr>outbound_substreams := AList.delete k (outbound_substreams s)\<rparr>" "answered i ret = 0"
      using Cons.prems(1) by (auto simp: Let_def answered_def response_to_def)
    have "quiet s'" using Cons.prems(2) set_alist_delete [of _ k "outbound_substreams s"] by (auto simp: s' quiet_def)
    then show ?thesis using sum_delete_le [of "stream_budget i" k "outbound_substreams s"] by (simp add: s' owed_def)
  next
    case False
    then show ?thesis
      using Cons.prems Cons.IH [of s] Cons.IH [of ?s] same
      by (cases "k \<in> set (outbound_delay s)") (simp_all add: Let_def)
  qed
qed

lemma expire_inbound_chunks:
  assumes "quiet s"
  shows "owed ctx i (expire_inbound is s, ds) = owed ctx i (s, ds) \<and> quiet (expire_inbound is s)"
proof -
  obtain es where "events_out (expire_inbound is s) = events_out s @ es"
    "\<forall>e \<in> set es. \<exists>i p x. e = HandlerFailed (InboundErr i p x)"
    using expire_inbound_events [of "is" s] by blast
  then show ?thesis using assms by (auto simp: owed_def quiet_def expire_inbound_fields)
qed

lemma poll_dial_chunks:
  assumes "poll_dial s = (out, s')"
  shows "owed ctx i (s', dials_after out ds) = owed ctx i (s, ds) \<and> quiet s' = quiet s \<and> delivered_by i out = 0"
  using assms
  by (cases rule: poll_dial_cases) (simp_all add: owed_def quiet_def dials_after_def delivered_by_def response_to_def)

lemma drive_busy_cases:
  fixes info :: "'pl inbound_info" and es :: "('id, 'root, 'pl) handler_event list"
  assumes "drive_busy d i ((sr, cr) # sends) msg lc info q = Some (es, ws, kept, q')"
    and "send_message_to_inbound_substream msg lc sr cr = (w, r)"
  defines "written \<equiv> if w then [(i, msg)] else []" and "info1 \<equiv> info\<lparr>in_remaining := in_remaining info - 1\<rparr>"
  obtains (failed) e where "r = Err e" "es = [inbound_failed i info e]" "ws = written" "kept = None"
  | (closed) "r = Ok True" "es = []" "ws = written" "kept = None"
  | (idle) "r = Ok False" "es = []" "ws = written" "kept = Some (info1\<lparr>in_state := InIdle\<rparr>)" "pending_items info = [] \<or> d"
  | (continue) msg' items q1 ws' where "r = Ok False" "pending_items info = msg' # items" "\<not> d" "ws = written @ ws'"
      "drive_busy d i sends msg' (in_remaining info1 \<le> 1) (info1\<lparr>pending_items := items\<rparr>) q1 = Some (es, ws', kept, q')"
proof (cases r)
  case (Inl e)
  then show ?thesis using assms(1) failed by (auto simp: assms(2) written_def)
next
  case (Inr c)
  show ?thesis
  proof (cases c)
    case True
    then show ?thesis using assms(1) closed Inr by (auto simp: assms(2) written_def)
  next
    case False
    show ?thesis
    proof (cases "pending_items info = [] \<or> d")
      case True
      then show ?thesis
        using assms(1) idle Inr False
        by (cases "pending_items info") (auto simp: assms(2) written_def info1_def Let_def bind_eq_Some_conv)
    next
      case no: False
      then obtain msg' items where p: "pending_items info = msg' # items" by (cases "pending_items info") auto
      then show ?thesis
        using assms(1) continue Inr False no
        by (auto simp: assms(2) written_def info1_def Let_def bind_eq_Some_conv)
    qed
  qed
qed

lemma drive_busy_events:
  "drive_busy d i sends msg lc info q = Some (es, ws, kept, q') \<Longrightarrow> e \<in> set es \<Longrightarrow> \<not> is_chunk e"
proof (induction sends arbitrary: msg lc info q ws)
  case Nil
  then show ?case by simp
next
  case (Cons sc sends)
  obtain sr cr where sc: "sc = (sr, cr)" by force
  obtain w r where wr: "send_message_to_inbound_substream msg lc sr cr = (w, r)" by force
  from Cons.prems(1) [unfolded sc] wr show ?case
    by (cases rule: drive_busy_cases) (use Cons in auto)
qed

lemma drive_inbound_events:
  "drive_inbound io d i info q = Some (es, ws, kept, q') \<Longrightarrow> e \<in> set es \<Longrightarrow> \<not> is_chunk e"
  by (auto simp: drive_inbound_def dest: drive_busy_events
      split: inbound_state.splits if_splits list.splits option.splits sum.splits)

lemma drive_inbounds_events:
  "drive_inbounds io d xs q = Some (es, ws, xs', q') \<Longrightarrow> e \<in> set es \<Longrightarrow> \<not> is_chunk e"
proof (induction xs arbitrary: q es ws xs' q')
  case Nil
  then show ?case by simp
next
  case (Cons x xs)
  obtain es1 ws1 kept q1 es2 ws2 ys where "drive_inbound io d (fst x) (snd x) q = Some (es1, ws1, kept, q1)"
    "drive_inbounds io d xs q1 = Some (es2, ws2, ys, q')" "es = es1 @ es2"
    using Cons.prems(1) by (cases x) (auto simp: bind_eq_Some_conv)
  then show ?case using Cons.IH Cons.prems(2) drive_inbound_events by fastforce
qed

lemma handler_poll_chunks:
  fixes s :: "('id, 'root, 'pl) handler"
  assumes "handler_poll ctx io s = Some (out, ws, s')" "quiet s"
  shows "delivered_by i out + owed ctx i (s', dials_after out ds) \<le> owed ctx i (s, ds) \<and> quiet s'"
  using assms(1)
proof (cases rule: handler_poll_cases)
  case (event e es)
  then show ?thesis using assms(2) by (simp add: quiet_def delivered_by_def dials_after_def response_to_def)
next
  case elapsed
  then show ?thesis using assms(2) by (simp add: quiet_def owed_def delivered_by_def dials_after_def response_to_def)
next
  case (expired e)
  note q = expire_inbound_chunks [OF assms(2), of ctx i "expired_inbound io" ds]
  then show ?thesis using expire_chunks [OF expired(4), of ctx i ds] expired(2)
    by (simp add: delivered_by_def dials_after_def answered_def)
next
  case (streams s1)
  note q = expire_inbound_chunks [OF assms(2), of ctx i "expired_inbound io" ds]
  have s1: "owed ctx i (s1, ds) \<le> owed ctx i (s, ds)" "quiet s1"
    using expire_chunks [OF streams(2), of ctx i ds] q by simp_all
  from streams(3) show ?thesis
  proof (cases rule: poll_streams_cases)
    case (1 es xs q ret es' ys q' s2)
    have rem: "\<forall>x \<in> set (outbound_substreams s1). out_remaining (snd x) \<noteq> Some 0" using s1(2) by (simp add: quiet_def)
    note out = drive_outbounds_chunks [OF 1(2) rem, of i]
    have "answered i ret + owed ctx i (s2, ds) \<le> owed ctx i (s, ds)" "quiet s2"
      using out s1 drive_inbounds_events [OF 1(1)] by (auto simp: owed_def quiet_def 1(3))
    then show ?thesis
      using 1(4) poll_dial_chunks [of s2 out s' ctx i ds]
      by (cases ret) (simp_all add: delivered_by_def dials_after_def answered_def)
  qed
qed

definition delivered :: "'id \<Rightarrow> ('id, 'root, 'pl) connection_step list \<Rightarrow> nat" where
  "delivered i ms = sum_list (map (\<lambda>m. case m of Polled out ws \<Rightarrow> delivered_by i out | _ \<Rightarrow> 0) ms)"

definition asked :: "handler_ctx \<Rightarrow> 'id \<Rightarrow> ('id, 'root, 'pl) connection_step list \<Rightarrow> nat" where
  "asked ctx i ms =
     sum_list (map (\<lambda>m. case m of Command (SendRequest j req) \<Rightarrow> dial_budget ctx i (j, req) | _ \<Rightarrow> 0) ms)"

lemma moves_chunks:
  assumes "connection_moves ctx c m c'" "quiet (fst c)"
  shows "delivered i [m] + owed ctx i c' \<le> owed ctx i c + asked ctx i [m] \<and> quiet (fst c')"
  using assms
proof (induction rule: connection_moves.induct)
  case (command s ds e)
  then show ?case
    by (cases e) (simp_all add: delivered_def asked_def send_request_chunks send_response_chunks shutdown_chunks)
next
  case (inbound ev s s' ds)
  then show ?case
    using negotiated_inbound_chunks [of s ctx i ctx] by (cases ev) (auto simp: delivered_def asked_def)
next
  case (outcome ev r ds s s')
  have "owed ctx i (s', remove1 r ds) \<le> owed ctx i (s, ds) \<and> quiet s'"
  proof (cases ev)
    case (FullyNegotiatedOutbound j req)
    then show ?thesis using outcome negotiated_outbound_chunks [of s j req ds ctx s' i] by simp
  next
    case (DialUpgradeFailed j req err)
    then show ?thesis using outcome dial_error_chunks [of s j req ds err s' ctx i] by simp
  qed (use outcome in simp_all)
  then show ?case by (simp add: delivered_def asked_def)
next
  case (polled io s out ws s' ds)
  then show ?case using handler_poll_chunks [of ctx io s out ws s' i ds] by (simp add: delivered_def asked_def)
qed

lemma runs_chunks:
  assumes "connection_runs ctx c ms c'" "quiet (fst c)"
  shows "delivered i ms + owed ctx i c' \<le> owed ctx i c + asked ctx i ms \<and> quiet (fst c')"
  using assms
proof (induction rule: connection_runs.induct)
  case (stop c)
  then show ?case by (simp add: delivered_def asked_def)
next
  case (move c ms c1 m c2)
  then show ?case using moves_chunks [OF move.hyps(2), of i] by (simp add: delivered_def asked_def)
qed

lemma runs_in_hand:
  assumes "connection_runs ctx c ms c'" "connection_ok c" "requests_supported ms" "0 < ctx_max_responses ctx req"
    "Command (SendRequest i req) \<in> set ms"
  shows "in_hand c' i req \<or> (\<exists>e ws. Polled (NotifyBehaviour e) ws \<in> set ms \<and> reports e = Some i)"
  using assms
proof (induction rule: connection_runs.induct)
  case (stop c)
  then show ?case by simp
next
  case (move c ms c1 m c2)
  have sup: "requests_supported ms" using move.prems(2) by (simp add: requests_supported_def)
  have ok: "connection_ok c1" by (rule connection_runs_ok [OF move.hyps(1) move.prems(1) sup])
  show ?case
  proof (cases "Command (SendRequest i req) \<in> set ms")
    case True
    then show ?thesis
      using move.IH [OF move.prems(1) sup move.prems(3)] moves_in_hand [OF move.hyps(2) ok _ move.prems(3), of i] by auto
  next
    case False
    then have "m = Command (SendRequest i req)" using move.prems(4) by simp
    with move.hyps(2) have "in_hand c2 i req"
      by (cases "h_state (fst c1)")
        (auto simp: handler_send_request_def in_hand_def elim!: connection_moves.cases)
    then show ?thesis by simp
  qed
qed

section \<open>Properties\<close>

text \<open>
  C7. In every run of a connection in which no light client updates by range are requested, the
  handler does not panic: each poll returns, whatever the substreams and timers under it do, and so
  does each event of the swarm, the outcomes of the substreams being opened included. At most
  \<open>MAX_INBOUND_SUBSTREAMS\<close> requests of the peer are served and at most eight substreams opened at a
  time.
\<close>

theorem handler_never_panics:
  assumes "connection_runs ctx (handler_new conn, []) ms (s, ds)" "requests_supported ms"
  shows "(\<forall>io. handler_poll ctx io s \<noteq> None) \<and>
    (\<forall>ev. outcome_of ev = None \<or> outcome_of ev \<in> Some ` set ds \<longrightarrow> on_connection_event ctx ev s \<noteq> None) \<and>
    length (inbound_substreams s) \<le> MAX_INBOUND_SUBSTREAMS \<and> dial_negotiated s = length ds \<and> length ds \<le> 8"
proof -
  note ok = connection_runs_ok [OF assms(1) connection_ok_new assms(2)]
  have "handler_poll ctx io s \<noteq> None" for io using handler_poll_ok [OF ok, of ctx io] by auto
  moreover have "on_connection_event ctx ev s \<noteq> None" if "outcome_of ev = None \<or> outcome_of ev \<in> Some ` set ds" for ev
  proof (cases "outcome_of ev")
    case None
    then show ?thesis by (cases ev) simp_all
  next
    case (Some r)
    then show ?thesis using that outcome_ok [OF ok Some, of ctx] by auto
  qed
  ultimately show ?thesis using ok by (simp add: connection_ok_def)
qed

text \<open>
  C8. No request of ours is lost. Once the behaviour has handed a request that expects an answer to
  the handler, then at any later time the request waits for its substream, or for its answer, or an
  event for it is queued, or the handler has reported a response, the end of the stream or a failure
  for its identifier.
\<close>

theorem no_request_lost:
  assumes "connection_runs ctx (handler_new conn, []) ms (s, ds)" "requests_supported ms"
    "Command (SendRequest i req) \<in> set ms" "0 < ctx_max_responses ctx req"
  shows "(i, req) \<in> set (dial_queue s) \<or> (i, req) \<in> set ds \<or>
    (\<exists>x \<in> set (outbound_substreams s). out_req_id (snd x) = i \<and> out_state (snd x) \<noteq> OutClosing) \<or>
    (\<exists>e \<in> set (events_out s). reports e = Some i) \<or>
    (\<exists>e ws. Polled (NotifyBehaviour e) ws \<in> set ms \<and> reports e = Some i)"
  using runs_in_hand [OF assms(1) connection_ok_new assms(2,4,3)] by (auto simp: in_hand_def awaiting_def)

text \<open>
  C10. A peer cannot deliver more than was asked for: in every run the number of responses reported
  for an identifier is at most the sum of \<open>max_responses\<close> over the requests handed over with it.
\<close>

theorem chunks_bounded:
  assumes "connection_runs ctx (handler_new conn, []) ms c"
  shows "delivered i ms \<le> asked ctx i ms"
  using runs_chunks [OF assms, of i] by (simp add: quiet_def owed_def handler_new_def)

section \<open>Instances\<close>

text \<open>Runs as a function of what the behaviour, the swarm and the substreams do.\<close>

datatype ('id, 'root, 'pl) connection_input =
    DoCommand "('id, 'root, 'pl) rpc_send"
  | DoEvent "('id, 'root) connection_event"
  | DoPoll "'pl handler_io"

fun connection_exec ::
    "handler_ctx \<Rightarrow> ('id, 'root, 'pl) connection \<Rightarrow> ('id, 'root, 'pl) connection_input list
     \<Rightarrow> (('id, 'root, 'pl) connection_step list \<times> ('id, 'root, 'pl) connection) option" where
  "connection_exec ctx c [] = Some ([], c)"
| "connection_exec ctx (s, ds) (DoCommand e # xs) =
     map_option (apfst ((#) (Command e))) (connection_exec ctx (on_behaviour_event ctx e s, ds) xs)"
| "connection_exec ctx (s, ds) (DoEvent ev # xs) =
     (case outcome_of ev of
        None \<Rightarrow>
          Option.bind (on_connection_event ctx ev s) (\<lambda>s'.
            map_option (apfst ((#) (Event ev))) (connection_exec ctx (s', ds) xs))
      | Some r \<Rightarrow>
          (if r \<in> set ds then
             Option.bind (on_connection_event ctx ev s) (\<lambda>s'.
               map_option (apfst ((#) (Event ev))) (connection_exec ctx (s', remove1 r ds) xs))
           else None))"
| "connection_exec ctx (s, ds) (DoPoll io # xs) =
     Option.bind (handler_poll ctx io s) (\<lambda>(out, ws, s').
       map_option (apfst ((#) (Polled out ws))) (connection_exec ctx (s', dials_after out ds) xs))"

lemma connection_runs_Cons:
  assumes "connection_runs ctx c1 ms c2" "connection_moves ctx c m c1"
  shows "connection_runs ctx c (m # ms) c2"
  using assms
proof (induction rule: connection_runs.induct)
  case (stop c1)
  then show ?case using connection_runs.move [OF connection_runs.stop, of ctx c m c1] by simp
next
  case (move c1 ms c3 m' c4)
  then show ?case using connection_runs.move [OF move.IH move.hyps(2)] by simp
qed

lemma connection_exec_runs:
  "connection_exec ctx c xs = Some (ms, c') \<Longrightarrow> connection_runs ctx c ms c'"
proof (induction xs arbitrary: c ms)
  case Nil
  then show ?case by (simp add: connection_runs.stop)
next
  case (Cons x xs)
  obtain s ds where c: "c = (s, ds)" by force
  have step: "connection_runs ctx c ms c'"
    if mv: "connection_moves ctx c m c1" and ex: "map_option (apfst ((#) m)) (connection_exec ctx c1 xs) = Some (ms, c')" for m c1
  proof -
    obtain ms' where "connection_exec ctx c1 xs = Some (ms', c')" "ms = m # ms'" using ex by auto
    then show ?thesis using connection_runs_Cons [OF Cons.IH mv] by simp
  qed
  show ?case
  proof (cases x)
    case (DoCommand e)
    then show ?thesis using Cons.prems step [OF connection_moves.command [of ctx s ds e, folded c]] by (simp add: c)
  next
    case (DoEvent ev)
    show ?thesis
    proof (cases "outcome_of ev")
      case None
      then obtain s' where "on_connection_event ctx ev s = Some s'"
        "map_option (apfst ((#) (Event ev))) (connection_exec ctx (s', ds) xs) = Some (ms, c')"
        using Cons.prems DoEvent by (auto simp: c bind_eq_Some_conv)
      then show ?thesis using step [OF connection_moves.inbound [OF None, of ctx s s' ds, folded c]] by simp
    next
      case (Some r)
      then obtain s' where "r \<in> set ds" "on_connection_event ctx ev s = Some s'"
        "map_option (apfst ((#) (Event ev))) (connection_exec ctx (s', remove1 r ds) xs) = Some (ms, c')"
        using Cons.prems DoEvent by (auto simp: c bind_eq_Some_conv split: if_splits)
      then show ?thesis using step [OF connection_moves.outcome [OF Some, of ds ctx s s', folded c]] by simp
    qed
  next
    case (DoPoll io)
    then obtain out ws s' where "handler_poll ctx io s = Some (out, ws, s')"
      "map_option (apfst ((#) (Polled out ws))) (connection_exec ctx (s', dials_after out ds) xs) = Some (ms, c')"
      using Cons.prems by (auto simp: c bind_eq_Some_conv)
    then show ?thesis using step [OF connection_moves.polled [of ctx io s out ws s' ds, folded c]] by simp
  qed
qed

definition demo_ctx :: handler_ctx where
  "demo_ctx = \<lparr>hc_config = \<lparr>max_request_blocks = (\<lambda>_. 8), max_request_blob_sidecars = (\<lambda>_. 8),
       max_data_columns_by_root_request = 8, max_blobs_per_block = (\<lambda>_. 6), cfg_max_request_blocks = 8,
       cfg_max_request_blocks_deneb = 8, cfg_custody_requirement = 4, sync_committee_subnet_count = 4\<rparr>,
     hc_fork = demo_context 0, hc_epoch_at_slot = (\<lambda>s. s div 32), hc_error_text = (\<lambda>_. ''busy'')\<rparr>"

definition demo_blocks :: "nat request_type" where
  "demo_blocks = BlocksByRangeReq (old_blocks_by_range_new 64 2 1)"

definition demo_io :: "nat rpc_response poll \<Rightarrow> bool \<Rightarrow> nat handler_io" where
  "demo_io item close = \<lparr>shutdown_elapsed = False, expired_inbound = [], expired_outbound = [], io_sends = (\<lambda>_. []),
     io_close_inbound = (\<lambda>_. None), io_next = (\<lambda>_. item), io_close_outbound = (\<lambda>_. close)\<rparr>"

definition demo_inputs :: "(nat, nat, nat) connection_input list" where
  "demo_inputs =
     [DoCommand (SendRequest 7 demo_blocks), DoPoll (demo_io Pending False),
      DoEvent (FullyNegotiatedOutbound 7 demo_blocks), DoPoll (demo_io (Got (Success (BlocksByRangeResp 1))) False),
      DoPoll (demo_io (Got (ErrorResp RateLimited [])) False), DoPoll (demo_io Pending True)]"

definition demo_failure :: "nat handler_err" where
  "demo_failure = OutboundErr 7 BlocksByRange (ErrorResponse RateLimited ''busy'')"

definition demo_steps :: "(nat, nat, nat) connection_step list" where
  "demo_steps =
     [Command (SendRequest 7 demo_blocks), Polled (OutboundSubstreamRequest 7 demo_blocks) [],
      Event (FullyNegotiatedOutbound 7 demo_blocks),
      Polled (NotifyBehaviour (HandlerOk (ReceivedResponse 7 (BlocksByRangeResp 1)))) [],
      Polled (NotifyBehaviour (HandlerFailed demo_failure)) [],
      Polled (NotifyBehaviour (HandlerOk (EndOfStream 7 EndBlocksByRange))) []]"

lemmas demo_handler_simps = demo_ctx_def demo_blocks_def demo_io_def demo_inputs_def demo_steps_def demo_failure_def
  handler_new_def handler_send_request_def handler_poll_def poll_streams_def poll_dial_def dials_after_def
  on_fully_negotiated_outbound_def drive_outbound_def on_response_def old_blocks_by_range_new_def
  request_protocol_def delay_reset_def delay_remove_def

lemma demo_exec:
  "\<exists>s. connection_exec demo_ctx (handler_new 3, []) demo_inputs = Some (demo_steps, (s, [])) \<and>
     dial_queue s = [] \<and> outbound_substreams s = [] \<and> events_out s = []"
  by (simp add: demo_handler_simps Let_def)

lemma demo_supported: "requests_supported demo_steps"
  by (simp add: requests_supported_def supported_request_def demo_handler_simps)

theorem handler_never_panics_witness:
  "\<exists>s. connection_runs demo_ctx (handler_new 3, []) demo_steps (s, []) \<and> handler_poll demo_ctx (demo_io Pending True) s \<noteq> None"
proof -
  obtain s where s: "connection_runs demo_ctx (handler_new 3, []) demo_steps (s, [])"
    using demo_exec connection_exec_runs by blast
  with handler_never_panics [OF s demo_supported] show ?thesis by blast
qed

theorem no_request_lost_witness:
  "\<exists>e ws. Polled (NotifyBehaviour e) ws \<in> set demo_steps \<and> reports e = Some 7"
proof -
  obtain s where s: "connection_runs demo_ctx (handler_new 3, []) demo_steps (s, [])"
    and out: "dial_queue s = []" "outbound_substreams s = []" "events_out s = []"
    using demo_exec connection_exec_runs by blast
  have "Command (SendRequest 7 demo_blocks) \<in> set demo_steps" "0 < ctx_max_responses demo_ctx demo_blocks"
    by (simp_all add: demo_handler_simps)
  from no_request_lost [OF s demo_supported this] out show ?thesis by simp
qed

theorem chunks_bounded_witness:
  "delivered 7 demo_steps \<le> asked demo_ctx 7 demo_steps \<and> delivered 7 demo_steps = 1 \<and> asked demo_ctx 7 demo_steps = 2"
proof -
  obtain s where "connection_runs demo_ctx (handler_new 3, []) demo_steps (s, [])"
    using demo_exec connection_exec_runs by blast
  from chunks_bounded [OF this, of 7] show ?thesis
    by (simp add: delivered_def asked_def delivered_by_def response_to_def dial_budget_def demo_handler_simps)
qed

lemma demo_blocks_protocol: "request_protocol demo_blocks = BlocksByRange"
  by (simp add: demo_blocks_def request_protocol_def old_blocks_by_range_new_def)

lemma terminator_protocol: "terminator p = Some (Some t) \<Longrightarrow> as_protocol t = p"
  by (cases p) auto

text \<open>
  C36. A stream that the peer ends with an error is reported twice. On any outbound substream of a protocol
  that ends streams, which awaits a response and has its timer, an error response is reported as the
  failure of the request; when the substream has closed, the same request is reported again, as the end
  of its stream. The behaviour takes both reports as the end of a request: whatever its state, it counts
  two requests of the peer less in flight (or none).
\<close>

theorem failed_stream_ends_twice:
  fixes s :: "('peer, 'id, 'root, 'pl) rpc" and ctx :: handler_ctx and io io' :: "'pl handler_io"
  assumes "out_state info = RequestPendingResponse req" "io_next io k = Got (ErrorResp code reason)"
    "io_close_outbound io' k" "terminator (out_proto info) = Some (Some t)" "out_delay_key info \<in> set q"
  shows "\<exists>err info' q' s1 s2.
    drive_outbound ctx io False k info q = Some (Some (HandlerFailed err), [], Some info', q) \<and>
    drive_outbound ctx io' deactivated k info' q = Some (Some (HandlerOk (EndOfStream (out_req_id info) t)), [], None, q') \<and>
    on_connection_handler_event env s peer conn (HandlerFailed err) = Some s1 \<and>
    on_connection_handler_event env s1 peer conn (HandlerOk (EndOfStream (out_req_id info) t)) = Some s2 \<and>
    in_flight (active_requests (outbound_request_limiter s2)) peer (out_proto info)
      = in_flight (active_requests (outbound_request_limiter s)) peer (out_proto info) - 2"
proof -
  let ?err = "OutboundErr (out_req_id info) (out_proto info) (ErrorResponse code (hc_error_text ctx reason))"
  have "drive_outbound ctx io False k info q = Some (Some (HandlerFailed ?err), [], Some (info\<lparr>out_state := OutClosing\<rparr>), q)"
    using assms(1,2) by (simp add: drive_outbound_def on_response_def)
  moreover have "drive_outbound ctx io' deactivated k (info\<lparr>out_state := OutClosing\<rparr>) q
      = Some (Some (HandlerOk (EndOfStream (out_req_id info) t)), [], None, remove1 (out_delay_key info) q)"
    using assms(3-5) by (simp add: drive_outbound_def delay_remove_def)
  ultimately show ?thesis using terminator_protocol [OF assms(4)]
    by (simp add: in_flight_completed Let_def numeral_2_eq_2)
qed

definition demo_outbound :: "(nat, nat) outbound_info" where
  "demo_outbound = \<lparr>out_state = RequestPendingResponse demo_blocks, out_delay_key = 0, out_proto = BlocksByRange,
     out_remaining = Some 1, out_req_id = 7\<rparr>"

text \<open>Two requests for blocks are in flight; after the error on the first none is counted.\<close>

theorem failed_stream_ends_twice_witness:
  "\<exists>err info' q' s1 s2 s.
    s = send_request (demo_env 0) (send_request (demo_env 0) demo_rpc 5 7 demo_blocks) 5 8 demo_blocks \<and>
    drive_outbound demo_ctx (demo_io (Got (ErrorResp RateLimited [])) False) False 0 demo_outbound [0]
      = Some (Some (HandlerFailed err), [], Some info', [0]) \<and>
    drive_outbound demo_ctx (demo_io Pending True) False 0 info' [0]
      = Some (Some (HandlerOk (EndOfStream 7 EndBlocksByRange)), [], None, q') \<and>
    in_flight (active_requests (outbound_request_limiter s)) 5 BlocksByRange = 2 \<and>
    on_connection_handler_event (demo_env 50) s 5 1 (HandlerFailed err) = Some s1 \<and>
    on_connection_handler_event (demo_env 50) s1 5 1 (HandlerOk (EndOfStream 7 EndBlocksByRange)) = Some s2 \<and>
    in_flight (active_requests (outbound_request_limiter s2)) 5 BlocksByRange = 0"
proof -
  let ?s = "send_request (demo_env 0) (send_request (demo_env 0) demo_rpc 5 7 demo_blocks) 5 8 demo_blocks"
  have two: "in_flight (active_requests (outbound_request_limiter ?s)) 5 BlocksByRange = 2"
    by (simp add: demo_run_simps(1-8) demo_run_simps(10-) demo_blocks_protocol)
  from failed_stream_ends_twice [where ctx = demo_ctx and env = "demo_env 50" and s = ?s and peer = 5 and conn = 1 and
      info = demo_outbound and req = demo_blocks and k = 0 and io = "demo_io (Got (ErrorResp RateLimited [])) False" and
      io' = "demo_io Pending True" and deactivated = False and q = "[0]" and t = EndBlocksByRange and
      code = RateLimited and reason = "[]"]
  show ?thesis using two by (simp add: demo_outbound_def demo_io_def del: on_connection_handler_event.simps)
qed

end
