(* ===== verification/HandlerAnswers.thy ===== *)
theory HandlerAnswers
  imports HandlerProperties "HOL-Library.Sublist"
begin

text \<open>
  What the connection handler writes on the substream of a request of the peer: the answers of the
  application, in order and no more than the peer asked for, with nothing after an error.
\<close>

section \<open>One substream\<close>

definition in_flight_message :: "'pl inbound_state \<Rightarrow> 'pl rpc_response list" where
  "in_flight_message st = (case st of InBusy msg lc \<Rightarrow> [msg] | _ \<Rightarrow> [])"

definition unwritten :: "'pl inbound_info \<Rightarrow> 'pl rpc_response list" where
  "unwritten info = in_flight_message (in_state info) @ pending_items info"

abbreviation successes :: "'pl rpc_response list \<Rightarrow> 'pl rpc_response list" where
  "successes \<equiv> filter is_success"

definition fits :: "'pl inbound_info \<Rightarrow> bool" where
  "fits info \<longleftrightarrow> 1 \<le> in_remaining info \<and>
     (\<forall>msg lc. in_state info = InBusy msg lc \<longrightarrow> lc = (in_remaining info \<le> 1))"

text \<open>
  From \<open>n\<close> chunks still to write and the unwritten messages \<open>c\<close>, the messages \<open>w\<close> are written and
  \<open>kept\<close> is left.
\<close>

definition writes_ok :: "'pl rpc_response list \<Rightarrow> nat \<Rightarrow> 'pl rpc_response list \<Rightarrow> 'pl inbound_info option \<Rightarrow> bool" where
  "writes_ok c n w kept \<longleftrightarrow>
     (case kept of
        Some info \<Rightarrow> in_remaining info + length w = n \<and> fits info \<and> (\<forall>m \<in> set w. \<not> is_error_response m) \<and>
          successes (w @ unwritten info) = successes c
      | None \<Rightarrow> length w \<le> n \<and> (\<forall>m \<in> set (butlast w). \<not> is_error_response m) \<and> prefix (successes w) (successes c))"

lemma send_not_closed:
  "send_message_to_inbound_substream msg lc sr cr = (w, Ok False) \<Longrightarrow> w \<and> \<not> lc \<and> \<not> is_error_response msg"
  by (cases sr; cases cr) (auto simp: send_message_to_inbound_substream_def split: if_splits)

lemma writes_ok_Cons:
  assumes "writes_ok c n w kept" "\<not> is_error_response msg"
  shows "writes_ok (msg # c) (Suc n) (msg # w) kept"
  using assms by (cases kept; cases w) (auto simp: writes_ok_def)

lemma drive_busy_writes:
  fixes info :: "'pl inbound_info" and es :: "('id, 'root, 'pl) handler_event list"
  assumes "drive_busy d i sends msg lc info q = Some (es, ws, kept, q')"
    "1 \<le> in_remaining info" "lc = (in_remaining info \<le> 1)"
  shows "(\<forall>x \<in> set ws. fst x = i) \<and> writes_ok (msg # pending_items info) (in_remaining info) (map snd ws) kept"
  using assms
proof (induction sends arbitrary: msg lc info q ws)
  case Nil
  then show ?case by (auto simp: writes_ok_def fits_def unwritten_def in_flight_message_def)
next
  case (Cons sc sends)
  obtain sr cr where sc: "sc = (sr, cr)" by force
  obtain w r where wr: "send_message_to_inbound_substream msg lc sr cr = (w, r)" by force
  have single: "writes_ok (msg # c) (in_remaining info) (if b then [msg] else []) None" for c b
    using Cons.prems(2) by (simp add: writes_ok_def)
  from Cons.prems(1) [unfolded sc] wr show ?case
  proof (cases rule: drive_busy_cases)
    case (failed e)
    then show ?thesis using single [of "pending_items info" w] by (cases w) simp_all
  next
    case closed
    then show ?thesis using single [of "pending_items info" w] by (cases w) simp_all
  next
    case idle
    have "w" "\<not> lc" "\<not> is_error_response msg" using send_not_closed [of msg lc sr cr w] wr idle(1) by simp_all
    then show ?thesis using idle Cons.prems(2,3)
      by (auto simp: writes_ok_def fits_def unwritten_def in_flight_message_def)
  next
    case (continue msg' items q1 ws')
    have msg: "w" "\<not> lc" "\<not> is_error_response msg" using send_not_closed [of msg lc sr cr w] wr continue(1) by simp_all
    have "(\<forall>x \<in> set ws'. fst x = i) \<and> writes_ok (msg' # items) (in_remaining info - 1) (map snd ws') kept"
      using Cons.IH [OF continue(5)] msg(2) Cons.prems(3) by simp
    then show ?thesis
      using writes_ok_Cons [of "pending_items info" "in_remaining info - 1" "map snd ws'" kept msg] msg continue(2,4) Cons.prems(2)
      by simp
  qed
qed

lemma drive_inbound_writes:
  fixes info :: "'pl inbound_info" and es :: "('id, 'root, 'pl) handler_event list"
  assumes "drive_inbound io d i info q = Some (es, ws, kept, q')" "fits info"
  shows "(\<forall>x \<in> set ws. fst x = i) \<and> writes_ok (unwritten info) (in_remaining info) (map snd ws) kept"
proof (cases "in_state info")
  case InIdle
  have same: "writes_ok (unwritten info) (in_remaining info) [] (Some info)" using assms(2) by (simp add: writes_ok_def)
  have gone: "writes_ok (unwritten info) (in_remaining info) [] None" by (simp add: writes_ok_def)
  show ?thesis
  proof (cases d)
    case True
    then show ?thesis using assms(1) same gone by (auto simp: drive_inbound_def InIdle split: option.splits)
  next
    case False
    show ?thesis
    proof (cases "pending_items info")
      case Nil
      then show ?thesis using assms(1) False same by (auto simp: drive_inbound_def InIdle)
    next
      case (Cons msg items)
      have "drive_busy d i (io_sends io i) msg (in_remaining info \<le> 1) (info\<lparr>pending_items := items\<rparr>) q = Some (es, ws, kept, q')"
        using assms(1) False by (simp add: drive_inbound_def InIdle Cons)
      from drive_busy_writes [OF this] assms(2) show ?thesis
        by (simp add: fits_def unwritten_def in_flight_message_def InIdle Cons)
    qed
  qed
next
  case (InBusy msg lc)
  then have "drive_busy d i (io_sends io i) msg lc info q = Some (es, ws, kept, q')"
    using assms(1) by (simp add: drive_inbound_def)
  moreover have "1 \<le> in_remaining info" "lc = (in_remaining info \<le> 1)" using assms(2) by (simp_all add: fits_def InBusy)
  ultimately have "(\<forall>x \<in> set ws. fst x = i) \<and> writes_ok (msg # pending_items info) (in_remaining info) (map snd ws) kept"
    by (rule drive_busy_writes)
  then show ?thesis by (simp add: unwritten_def in_flight_message_def InBusy)
next
  case InPoisoned
  then show ?thesis using assms(1) by (simp add: drive_inbound_def)
qed

text \<open>The sweep drives each substream on its own.\<close>

lemma drive_busy_ids:
  "drive_busy d i sends msg lc info q = Some (es, ws, kept, q') \<Longrightarrow> x \<in> set ws \<Longrightarrow> fst x = i"
proof (induction sends arbitrary: msg lc info q ws)
  case Nil
  then show ?case by simp
next
  case (Cons sc sends)
  obtain sr cr where sc: "sc = (sr, cr)" by force
  obtain w r where wr: "send_message_to_inbound_substream msg lc sr cr = (w, r)" by force
  from Cons.prems(1) [unfolded sc] wr show ?case
    by (cases rule: drive_busy_cases) (use Cons in \<open>auto split: if_splits\<close>)
qed

lemma drive_inbound_ids:
  "drive_inbound io d i info q = Some (es, ws, kept, q') \<Longrightarrow> x \<in> set ws \<Longrightarrow> fst x = i"
  by (auto simp: drive_inbound_def dest: drive_busy_ids
      split: inbound_state.splits if_splits list.splits option.splits sum.splits)

lemma drive_inbounds_lookup:
  fixes es :: "('id, 'root, 'pl) handler_event list"
  assumes "drive_inbounds io d xs q = Some (es, ws, xs', q')" "distinct (map fst xs)"
  shows "(\<forall>x \<in> set ws. fst x \<in> fst ` set xs) \<and> fst ` set xs' \<subseteq> fst ` set xs \<and>
    (\<forall>info. map_of xs i = Some info \<longrightarrow> fits info \<longrightarrow>
       writes_ok (unwritten info) (in_remaining info) (map snd (filter (\<lambda>x. fst x = i) ws)) (map_of xs' i))"
  using assms
proof (induction xs arbitrary: q es ws xs')
  case Nil
  then show ?case by simp
next
  case (Cons x xs)
  obtain j info where x: "x = (j, info)" by force
  obtain es1 es2 :: "('id, 'root, 'pl) handler_event list" and ws1 kept q1 ws2 ys
    where 1: "drive_inbound io d j info q = Some (es1, ws1, kept, q1)"
    and 2: "drive_inbounds io d xs q1 = Some (es2, ws2, ys, q')"
    and eq: "ws = ws1 @ ws2" "xs' = (case kept of None \<Rightarrow> ys | Some info' \<Rightarrow> (j, info') # ys)"
    using Cons.prems(1) by (auto simp: x bind_eq_Some_conv)
  have j: "j \<notin> fst ` set xs" "distinct (map fst xs)" using Cons.prems(2) by (auto simp: x)
  have ids: "\<forall>x \<in> set ws1. fst x = j" using drive_inbound_ids [OF 1] by blast
  note rest = Cons.IH [OF 2 j(2)]
  have ys: "fst ` set ys \<subseteq> fst ` set xs" "\<forall>x \<in> set ws2. fst x \<in> fst ` set xs" using rest by blast+
  have own: "writes_ok (unwritten info') (in_remaining info') (map snd (filter (\<lambda>x. fst x = i) ws)) (map_of xs' i)"
    if "map_of (x # xs) i = Some info'" "fits info'" for info'
  proof (cases "i = j")
    case True
    have "filter (\<lambda>x. fst x = i) ws1 = ws1" "filter (\<lambda>x. fst x = i) ws2 = []" "map_of ys i = None"
      using ids ys j(1) True by (auto simp: filter_id_conv filter_empty_conv map_of_eq_None_iff)
    then show ?thesis using True that drive_inbound_writes [OF 1] by (cases kept) (simp_all add: eq x)
  next
    case False
    have "filter (\<lambda>x. fst x = i) ws1 = []" using ids False by (auto simp: filter_empty_conv)
    then show ?thesis using False that rest by (cases kept) (simp_all add: eq x)
  qed
  have "(\<forall>y \<in> set ws. fst y \<in> fst ` set (x # xs)) \<and> fst ` set xs' \<subseteq> fst ` set (x # xs)"
    using ids ys by (cases kept) (auto simp: eq x)
  then show ?case using own by blast
qed

section \<open>One request of the peer\<close>

text \<open>
  The state of the answer to a request of the peer that asked for \<open>n\<close> chunks, when the application
  has given the answers \<open>given\<close> and \<open>w\<close> has been written.
\<close>

definition answering :: "nat \<Rightarrow> nat \<Rightarrow> ('id, 'root, 'pl) handler \<Rightarrow> 'pl rpc_response list \<Rightarrow> 'pl rpc_response list \<Rightarrow> bool" where
  "answering i n s given w \<longleftrightarrow> i < current_inbound_id s \<and> length w \<le> n \<and>
     (\<forall>m \<in> set (butlast w). \<not> is_error_response m) \<and> prefix (successes w) (successes given) \<and>
     (\<forall>info. map_of (inbound_substreams s) i = Some info \<longrightarrow>
        in_remaining info + length w = n \<and> fits info \<and> (\<forall>m \<in> set w. \<not> is_error_response m) \<and>
        prefix (successes (w @ unwritten info)) (successes given) \<and>
        (h_state s \<noteq> Deactivated \<longrightarrow> successes (w @ unwritten info) = successes given))"

lemma answering_same:
  assumes "answering i n s given w" "current_inbound_id s \<le> current_inbound_id s'"
    "map_of (inbound_substreams s') i = map_of (inbound_substreams s) i" "h_state s' = h_state s \<or> h_state s' = Deactivated \<or> h_state s \<noteq> Deactivated"
  shows "answering i n s' given w"
  using assms by (auto simp: answering_def)

lemma answering_given:
  assumes "answering i n s given w" "map_of (inbound_substreams s) i = None \<or> h_state s = Deactivated \<or> \<not> is_success r"
  shows "answering i n s (given @ [r]) w"
  using assms by (auto simp: answering_def prefix_def)

lemma pushed_unwritten: "unwritten (info\<lparr>pending_items := pending_items info @ [r]\<rparr>) = unwritten info @ [r]"
  by (simp add: unwritten_def)

lemma send_response_lookup:
  "map_of (inbound_substreams (handler_send_response ctx j r s)) i =
     (case map_of (inbound_substreams s) j of
        Some info \<Rightarrow> if h_state s = Deactivated then map_of (inbound_substreams s) i
          else ((map_of (inbound_substreams s))(j \<mapsto> info\<lparr>pending_items := pending_items info @ [r]\<rparr>)) i
      | None \<Rightarrow> map_of (inbound_substreams s) i)"
  by (cases "map_of (inbound_substreams s) j"; cases r) (simp_all add: handler_send_response_def Let_def update_conv')

lemma send_response_state:
  "current_inbound_id (handler_send_response ctx j r s) = current_inbound_id s"
  "h_state (handler_send_response ctx j r s) = h_state s"
  by (cases "map_of (inbound_substreams s) j"; cases r; simp add: handler_send_response_def Let_def)+

lemma send_response_answering:
  assumes "answering i n s given w"
  shows "answering i n (handler_send_response ctx j r s) (if j = i then given @ [r] else given) w"
proof (cases "j = i \<and> map_of (inbound_substreams s) i \<noteq> None \<and> h_state s \<noteq> Deactivated")
  case True
  then obtain info where info: "map_of (inbound_substreams s) i = Some info" by blast
  have "map_of (inbound_substreams (handler_send_response ctx j r s)) i = Some (info\<lparr>pending_items := pending_items info @ [r]\<rparr>)"
    using True info by (simp add: send_response_lookup)
  then show ?thesis
    using assms True info
    by (simp add: answering_def send_response_state pushed_unwritten fits_def)
next
  case False
  have "map_of (inbound_substreams (handler_send_response ctx j r s)) i = map_of (inbound_substreams s) i"
    using False by (auto simp: send_response_lookup split: option.splits)
  then have "answering i n (handler_send_response ctx j r s) given w"
    and "map_of (inbound_substreams (handler_send_response ctx j r s)) i = None \<or>
      h_state (handler_send_response ctx j r s) = Deactivated" if "j = i"
    using False that by (auto intro!: answering_same [OF assms] simp: send_response_state)
  moreover have "answering i n (handler_send_response ctx j r s) given w" if "j \<noteq> i"
    using False that by (intro answering_same [OF assms]) (auto simp: send_response_state send_response_lookup split: option.splits)
  ultimately show ?thesis using answering_given [of i n "handler_send_response ctx j r s" given w r] by auto
qed

lemma shutdown_answering:
  "answering i n s given w \<Longrightarrow> answering i n (handler_shutdown g s) given w"
  by (erule answering_same) (auto simp: handler_shutdown_def)

lemma push_answering [simp]: "answering i n (s\<lparr>events_out := es\<rparr>) given w = answering i n s given w"
  by (simp add: answering_def)

lemma send_request_answering: "answering i n s given w \<Longrightarrow> answering i n (handler_send_request j r s) given w"
  by (erule answering_same) (cases "h_state s"; simp add: handler_send_request_def)+

lemma accept_answering: "answering i n s given w \<Longrightarrow> answering i n (accept_inbound ctx r s) given w"
  by (rule answering_same) (auto simp: accept_inbound_def Let_def answering_def update_conv')

lemma negotiated_inbound_answering:
  assumes "answering i n s given w"
  shows "answering i n (on_fully_negotiated_inbound ctx r s) given w"
  by (cases rule: negotiated_inbound_cases [of ctx r s])
    (simp_all add: assms shutdown_answering accept_answering)

lemma negotiated_outbound_answering:
  assumes "answering i n s given w" "on_fully_negotiated_outbound ctx j r s = Some s'"
  shows "answering i n s' given w"
  by (rule answering_same [OF assms(1)])
    (use assms(2) in \<open>auto simp: negotiated_outbound_eq open_outbound_def Let_def split: if_splits\<close>)

lemma dial_error_answering:
  assumes "answering i n s given w" "on_dial_upgrade_error j r err s = Some s'"
  shows "answering i n s' given w"
  using assms(2)
proof (cases rule: dial_error_cases)
  case (retried m)
  show ?thesis unfolding retried
    by (rule send_request_answering, rule answering_same [OF assms(1)]) simp_all
next
  case (failed e)
  then show ?thesis by (intro answering_same [OF assms(1)]) simp_all
qed

text \<open>Timeouts add only errors.\<close>

lemma time_out_unwritten:
  "successes (unwritten (time_out_inbound info)) = successes (unwritten info)"
  "in_remaining (time_out_inbound info) = in_remaining info" "fits (time_out_inbound info) = fits info"
  by (simp_all add: unwritten_def time_out_inbound_def fits_def is_success_def request_timed_out_def)

lemma expire_inbound_answering:
  "answering i n s given w \<Longrightarrow> answering i n (expire_inbound is s) given w"
proof (induction "is" arbitrary: s)
  case Nil
  then show ?case by simp
next
  case (Cons k "is")
  let ?s = "if k \<in> set (inbound_delay s) then
     (let s1 = s\<lparr>inbound_delay := remove1 k (inbound_delay s)\<rparr> in
      case map_of (inbound_substreams s1) k of
        None \<Rightarrow> s1
      | Some info \<Rightarrow>
          s1\<lparr>events_out := events_out s1 @ [inbound_failed k info StreamTimeout],
             inbound_substreams := AList.update k (time_out_inbound info) (inbound_substreams s1)\<rparr>)
     else s"
  have "answering i n ?s given w"
    using Cons.prems
    by (auto simp: answering_def Let_def update_conv' time_out_unwritten split: option.splits)
  then show ?case using Cons.IH by simp
qed

lemma poll_dial_answering:
  assumes "poll_dial s = (out, s')" "answering i n s given w"
  shows "answering i n s' given w"
  using assms(1) by (cases rule: poll_dial_cases) (use assms(2) in \<open>auto intro: answering_same [OF assms(2)]\<close>)

lemma prefix_filter_append: "prefix (xs @ filter P ys) zs \<Longrightarrow> prefix us (filter P ys) \<Longrightarrow> prefix (xs @ us) zs"
  by (meson prefix_order.trans same_prefix_prefix)

lemma streams_answering:
  fixes es :: "('id, 'root, 'pl) handler_event list"
  assumes "answering i n s given w" "distinct (map fst (inbound_substreams s))"
    "drive_inbounds io d (inbound_substreams s) q = Some (es, ws, xs, q')"
    "inbound_substreams s' = xs" "current_inbound_id s' = current_inbound_id s" "h_state s' = h_state s"
  shows "answering i n s' given (w @ map snd (filter (\<lambda>x. fst x = i) ws))"
proof (cases "map_of (inbound_substreams s) i")
  case None
  have "filter (\<lambda>x. fst x = i) ws = []" "map_of xs i = None"
    using None drive_inbounds_lookup [OF assms(3,2), of i]
    by (auto simp: filter_empty_conv map_of_eq_None_iff)
  then show ?thesis using assms(1,4-6) None by (simp add: answering_def)
next
  case (Some info)
  let ?w = "map snd (filter (\<lambda>x. fst x = i) ws)"
  have info: "in_remaining info + length w = n" "fits info" "\<forall>m \<in> set w. \<not> is_error_response m"
    "prefix (successes (w @ unwritten info)) (successes given)"
    "h_state s \<noteq> Deactivated \<longrightarrow> successes (w @ unwritten info) = successes given"
    using assms(1) Some by (simp_all add: answering_def)
  have ok: "writes_ok (unwritten info) (in_remaining info) ?w (map_of xs i)"
    using drive_inbounds_lookup [OF assms(3,2), of i] Some info(2) by blast
  show ?thesis
  proof (cases "map_of xs i")
    case None
    then have w: "length ?w \<le> in_remaining info" "\<forall>m \<in> set (butlast ?w). \<not> is_error_response m"
      "prefix (successes ?w) (successes (unwritten info))"
      using ok by (simp_all add: writes_ok_def)
    have "\<forall>m \<in> set (butlast (w @ ?w)). \<not> is_error_response m"
      using w(2) info(3) in_set_butlastD [of _ w] by (auto simp: butlast_append)
    moreover have "prefix (successes (w @ ?w)) (successes given)"
      using prefix_filter_append [of "successes w" is_success "unwritten info"] info(4) w(3) by simp
    ultimately show ?thesis using assms(1,4,5) None w(1) info(1) by (simp add: answering_def)
  next
    case (Some info')
    then have w: "in_remaining info' + length ?w = in_remaining info" "fits info'" "\<forall>m \<in> set ?w. \<not> is_error_response m"
      "successes (?w @ unwritten info') = successes (unwritten info)"
      using ok by (simp_all add: writes_ok_def)
    have cat: "successes ((w @ ?w) @ unwritten info') = successes (w @ unwritten info)" using w(4) by simp
    have pre: "prefix (successes (w @ ?w)) (successes given)"
      using info(4) append_prefixD [of "successes (w @ ?w)" "successes (unwritten info')"] cat by simp
    have noerr: "\<forall>m \<in> set (w @ ?w). \<not> is_error_response m" using w(3) info(3) by auto
    then have "\<forall>m \<in> set (butlast (w @ ?w)). \<not> is_error_response m" by (blast dest: in_set_butlastD)
    moreover have "i < current_inbound_id s'" using assms(1,5) by (simp add: answering_def)
    moreover have "in_remaining info' + length (w @ ?w) = n" using w(1) info(1) by simp
    ultimately show ?thesis
      unfolding answering_def assms(4) Some
      using pre noerr cat info(4,5) w(2) assms(6) by auto
  qed
qed

abbreviation written_on :: "nat \<Rightarrow> (nat \<times> 'pl rpc_response) list \<Rightarrow> 'pl rpc_response list" where
  "written_on i ws \<equiv> map snd (filter (\<lambda>x. fst x = i) ws)"

lemma handler_poll_answering:
  fixes s :: "('id, 'root, 'pl) handler"
  assumes "handler_poll ctx io s = Some (out, ws, s')" "connection_ok (s, ds)" "answering i n s given w"
  shows "answering i n s' given (w @ written_on i ws)"
  using assms(1)
proof (cases rule: handler_poll_cases)
  case (event e es)
  then show ?thesis using assms(3) by simp
next
  case elapsed
  then show ?thesis using answering_same [OF assms(3), of s'] by simp
next
  case (expired e)
  note f = expire_outbound_fields [OF expired(4)]
  show ?thesis
    using answering_same [OF expire_inbound_answering [OF assms(3), of "expired_inbound io"], of s'] f expired(3)
    by (simp add: expire_inbound_fields)
next
  case (streams s1)
  note f = expire_outbound_fields [OF streams(2)]
  have 1: "answering i n s1 given w"
    using answering_same [OF expire_inbound_answering [OF assms(3), of "expired_inbound io"], of s1] f
    by (simp add: expire_inbound_fields)
  have "connection_ok (s1, ds)" by (rule expire_outbound_ok [OF expire_inbound_ok [OF assms(2)] streams(2)])
  then have d: "distinct (map fst (inbound_substreams s1))" by (simp add: connection_ok_def streams_sound_def)
  from streams(3) show ?thesis
  proof (cases rule: poll_streams_cases)
    case (1 es xs q ret es' ys q' s2)
    have "answering i n s2 given (w @ written_on i ws)"
      by (rule streams_answering [OF \<open>answering i n s1 given w\<close> d 1(1)]) (simp_all add: 1(3))
    then show ?thesis using 1(4) poll_dial_answering by (cases ret) auto
  qed
qed

definition written :: "nat \<Rightarrow> ('id, 'root, 'pl) connection_step list \<Rightarrow> 'pl rpc_response list" where
  "written i ms = concat (map (\<lambda>m. case m of Polled out ws \<Rightarrow> written_on i ws | _ \<Rightarrow> []) ms)"

definition answers :: "nat \<Rightarrow> ('id, 'root, 'pl) connection_step list \<Rightarrow> 'pl rpc_response list" where
  "answers i ms = concat (map (\<lambda>m. case m of Command (SendResponse j r) \<Rightarrow> if j = i then [r] else [] | _ \<Rightarrow> []) ms)"

lemma moves_answering:
  assumes "connection_moves ctx c m c'" "connection_ok c" "answering i n (fst c) given w"
  shows "answering i n (fst c') (given @ answers i [m]) (w @ written i [m])"
  using assms
proof (induction rule: connection_moves.induct)
  case (command s ds e)
  show ?case
  proof (cases e)
    case (SendResponse j r)
    then show ?thesis
      using send_response_answering [of i n s given w ctx j r] command.prems
      by (cases "j = i") (simp_all add: answers_def written_def)
  qed (use command.prems in \<open>simp_all add: answers_def written_def send_request_answering shutdown_answering\<close>)
next
  case (inbound ev s s' ds)
  then show ?case
    by (cases ev) (auto simp: answers_def written_def negotiated_inbound_answering)
next
  case (outcome ev r ds s s')
  then show ?case
    by (cases ev) (auto simp: answers_def written_def intro: negotiated_outbound_answering dial_error_answering)
next
  case (polled io s out ws s' ds)
  then show ?case
    using handler_poll_answering [of ctx io s out ws s' ds i n given w] by (simp add: answers_def written_def)
qed

lemma runs_answering:
  assumes "connection_runs ctx c ms c'" "connection_ok c" "requests_supported ms" "answering i n (fst c) given w"
  shows "answering i n (fst c') (given @ answers i ms) (w @ written i ms)"
  using assms
proof (induction rule: connection_runs.induct)
  case (stop c)
  then show ?case by (simp add: answers_def written_def)
next
  case (move c ms c1 m c2)
  have sup: "requests_supported ms" using move.prems(2) by (simp add: requests_supported_def)
  have ok: "connection_ok c1" by (rule connection_runs_ok [OF move.hyps(1) move.prems(1) sup])
  from moves_answering [OF move.hyps(2) ok move.IH [OF move.prems(1) sup move.prems(3)]]
  show ?case by (simp add: answers_def written_def)
qed

section \<open>Properties\<close>

lemma accepted_answering:
  assumes "h_state s = Active" "over_limit ctx req = None" "0 < ctx_max_responses ctx req"
    "length (inbound_substreams s) < MAX_INBOUND_SUBSTREAMS"
  shows "answering (current_inbound_id s) (ctx_max_responses ctx req) (on_fully_negotiated_inbound ctx req s) [] []"
proof -
  let ?info = "\<lparr>in_state = InIdle, pending_items = [], in_protocol = request_protocol req,
    in_remaining = ctx_max_responses ctx req, in_delay_key = Some (current_inbound_id s)\<rparr>"
  obtain s' es where "on_fully_negotiated_inbound ctx req s = s'"
    "inbound_substreams s' = AList.update (current_inbound_id s) ?info (inbound_substreams s)"
    "current_inbound_id s' = Suc (current_inbound_id s)"
    using assms by (cases req) (auto simp: on_fully_negotiated_inbound_def Let_def)
  then show ?thesis
    using assms(3) by (simp add: answering_def update_conv' fits_def unwritten_def in_flight_message_def)
qed

text \<open>
  C9. When a request of the peer has been accepted, then whatever happens afterwards, what is written
  on its substream is at most the number of chunks the request asked for, nothing is written after an
  error, and the successful chunks written are the successful answers of the application for this
  substream, in order, up to some point.
\<close>

theorem answers_in_order:
  assumes "connection_runs ctx (handler_new conn, []) ms0 (s, ds)" "requests_supported (ms0 @ ms)"
    and "h_state s = Active" "over_limit ctx req = None" "0 < ctx_max_responses ctx req"
      "length (inbound_substreams s) < MAX_INBOUND_SUBSTREAMS"
    and "connection_runs ctx (on_fully_negotiated_inbound ctx req s, ds) ms c"
  shows "length (written (current_inbound_id s) ms) \<le> ctx_max_responses ctx req \<and>
    (\<forall>m \<in> set (butlast (written (current_inbound_id s) ms)). \<not> is_error_response m) \<and>
    prefix (filter is_success (written (current_inbound_id s) ms)) (filter is_success (answers (current_inbound_id s) ms))"
proof -
  have sup: "requests_supported ms0" "requests_supported ms" using assms(2) unfolding requests_supported_def by auto
  have ok: "connection_ok (on_fully_negotiated_inbound ctx req s, ds)"
    by (rule negotiated_inbound_ok [OF connection_runs_ok [OF assms(1) connection_ok_new sup(1)]])
  have start: "answering (current_inbound_id s) (ctx_max_responses ctx req)
      (fst (on_fully_negotiated_inbound ctx req s, ds)) [] []"
    using accepted_answering [OF assms(3-6)] by (simp only: fst_conv)
  have "answering (current_inbound_id s) (ctx_max_responses ctx req) (fst c)
      (answers (current_inbound_id s) ms) (written (current_inbound_id s) ms)"
    using runs_answering [OF assms(7) ok sup(2) start] by (simp only: append_Nil)
  then show ?thesis by (simp add: answering_def)
qed

definition demo_send_io :: "nat handler_io" where
  "demo_send_io = (demo_io Pending False)\<lparr>io_sends := (\<lambda>_. replicate 3 (Ok (), Ok ()))\<rparr>"

definition demo_answer :: "nat \<Rightarrow> nat rpc_response" where
  "demo_answer b = Success (BlocksByRangeResp b)"

definition demo_served :: "(nat, nat, nat) connection_step list" where
  "demo_served =
     [Command (SendResponse 0 (demo_answer 64)), Command (SendResponse 0 (demo_answer 65)),
      Command (SendResponse 0 (demo_answer 66)),
      Polled (NotifyBehaviour (HandlerOk (ReceivedRequest \<lparr>ir_connection = 3, ir_substream = 0\<rparr> demo_blocks))) [],
      Polled PollPending [(0, demo_answer 64), (0, demo_answer 65)]]"

lemma demo_served_exec:
  "\<exists>s. connection_exec demo_ctx (on_fully_negotiated_inbound demo_ctx demo_blocks (handler_new 3), [])
     [DoCommand (SendResponse 0 (demo_answer 64)), DoCommand (SendResponse 0 (demo_answer 65)),
      DoCommand (SendResponse 0 (demo_answer 66)), DoPoll demo_send_io, DoPoll demo_send_io] = Some (demo_served, (s, []))"
  by (simp add: demo_handler_simps demo_send_io_def demo_answer_def demo_served_def on_fully_negotiated_inbound_def
      handler_send_response_def Let_def drive_inbound_def send_message_to_inbound_substream_def
      on_key_def is_termination_def is_error_response_def numeral_3_eq_3)

theorem answers_in_order_witness:
  "written 0 demo_served = [demo_answer 64, demo_answer 65] \<and>
   prefix (filter is_success (written 0 demo_served)) (filter is_success (answers 0 demo_served)) \<and>
   length (written 0 demo_served) \<le> ctx_max_responses demo_ctx demo_blocks"
proof -
  obtain s where run: "connection_runs demo_ctx (on_fully_negotiated_inbound demo_ctx demo_blocks (handler_new 3), [])
      demo_served (s, [])"
    using demo_served_exec connection_exec_runs by blast
  have start: "connection_runs demo_ctx (handler_new 3, []) [] (handler_new 3, [])" by (rule connection_runs.stop)
  have sup: "requests_supported ([] @ demo_served)" by (simp add: requests_supported_def demo_served_def)
  let ?h = "handler_new 3 :: (nat, nat, nat) handler"
  have new: "h_state ?h = Active" "over_limit demo_ctx demo_blocks = None" "0 < ctx_max_responses demo_ctx demo_blocks"
    "length (inbound_substreams ?h) < MAX_INBOUND_SUBSTREAMS" "current_inbound_id ?h = 0"
    by (simp_all add: demo_handler_simps)
  have "written 0 demo_served = [demo_answer 64, demo_answer 65]" by (simp add: written_def demo_served_def)
  with answers_in_order [OF start sup new(1-4) run] show ?thesis unfolding new(5) by blast
qed

end
