(* ===== verification/Topics.thy ===== *)
theory Topics
  imports RpcConfig PeerInfo ForkContext
begin

text \<open>
  The topics of gossip, \<open>types/topics.rs\<close>, and the messages on them, \<open>types/pubsub.rs\<close>: names of
  topics and their parser, the topics a node subscribes to at a fork, and the way of a message from
  its sender to its receiver. Hexadecimal digits, snappy and SSZ come from other crates and are
  parameters.
\<close>

section \<open>Kinds of topics\<close>

datatype gossip_kind =
    BeaconBlockKind
  | BeaconAggregateAndProofKind
  | BlobSidecarKind nat
  | DataColumnSidecarKind nat
  | AttestationKind nat
  | VoluntaryExitKind
  | ProposerSlashingKind
  | AttesterSlashingKind
  | SignedContributionAndProofKind
  | SyncCommitteeMessageKind nat
  | BlsToExecutionChangeKind
  | LightClientFinalityUpdateKind
  | LightClientOptimisticUpdateKind
  | ExecutionPayloadBidKind

datatype gossip_encoding = GossipSSZSnappy

record gossip_topic =
  gt_encoding :: gossip_encoding
  gt_fork_digest :: digest
  gt_kind :: gossip_kind

abbreviation TOPIC_PREFIX :: string where "TOPIC_PREFIX \<equiv> ''eth2''"
abbreviation SSZ_SNAPPY_ENCODING_POSTFIX :: string where "SSZ_SNAPPY_ENCODING_POSTFIX \<equiv> ''ssz_snappy''"
abbreviation BEACON_BLOCK_TOPIC :: string where "BEACON_BLOCK_TOPIC \<equiv> ''beacon_block''"
abbreviation BEACON_AGGREGATE_AND_PROOF_TOPIC :: string where
  "BEACON_AGGREGATE_AND_PROOF_TOPIC \<equiv> ''beacon_aggregate_and_proof''"
abbreviation BEACON_ATTESTATION_PREFIX :: string where "BEACON_ATTESTATION_PREFIX \<equiv> ''beacon_attestation_''"
abbreviation BLOB_SIDECAR_PREFIX :: string where "BLOB_SIDECAR_PREFIX \<equiv> ''blob_sidecar_''"
abbreviation DATA_COLUMN_SIDECAR_PREFIX :: string where "DATA_COLUMN_SIDECAR_PREFIX \<equiv> ''data_column_sidecar_''"
abbreviation VOLUNTARY_EXIT_TOPIC :: string where "VOLUNTARY_EXIT_TOPIC \<equiv> ''voluntary_exit''"
abbreviation PROPOSER_SLASHING_TOPIC :: string where "PROPOSER_SLASHING_TOPIC \<equiv> ''proposer_slashing''"
abbreviation ATTESTER_SLASHING_TOPIC :: string where "ATTESTER_SLASHING_TOPIC \<equiv> ''attester_slashing''"
abbreviation SIGNED_CONTRIBUTION_AND_PROOF_TOPIC :: string where
  "SIGNED_CONTRIBUTION_AND_PROOF_TOPIC \<equiv> ''sync_committee_contribution_and_proof''"
abbreviation SYNC_COMMITTEE_PREFIX_TOPIC :: string where "SYNC_COMMITTEE_PREFIX_TOPIC \<equiv> ''sync_committee_''"
abbreviation BLS_TO_EXECUTION_CHANGE_TOPIC :: string where "BLS_TO_EXECUTION_CHANGE_TOPIC \<equiv> ''bls_to_execution_change''"
abbreviation LIGHT_CLIENT_FINALITY_UPDATE :: string where "LIGHT_CLIENT_FINALITY_UPDATE \<equiv> ''light_client_finality_update''"
abbreviation LIGHT_CLIENT_OPTIMISTIC_UPDATE :: string where
  "LIGHT_CLIENT_OPTIMISTIC_UPDATE \<equiv> ''light_client_optimistic_update''"
abbreviation EXECUTION_PAYLOAD_BID_TOPIC :: string where "EXECUTION_PAYLOAD_BID_TOPIC \<equiv> ''execution_payload_bid''"

section \<open>Printing and parsing\<close>

fun kind_text :: "gossip_kind \<Rightarrow> string" where
  "kind_text BeaconBlockKind = BEACON_BLOCK_TOPIC"
| "kind_text BeaconAggregateAndProofKind = BEACON_AGGREGATE_AND_PROOF_TOPIC"
| "kind_text VoluntaryExitKind = VOLUNTARY_EXIT_TOPIC"
| "kind_text ProposerSlashingKind = PROPOSER_SLASHING_TOPIC"
| "kind_text AttesterSlashingKind = ATTESTER_SLASHING_TOPIC"
| "kind_text (AttestationKind i) = BEACON_ATTESTATION_PREFIX @ show_nat i"
| "kind_text SignedContributionAndProofKind = SIGNED_CONTRIBUTION_AND_PROOF_TOPIC"
| "kind_text (SyncCommitteeMessageKind i) = SYNC_COMMITTEE_PREFIX_TOPIC @ show_nat i"
| "kind_text (BlobSidecarKind i) = BLOB_SIDECAR_PREFIX @ show_nat i"
| "kind_text (DataColumnSidecarKind i) = DATA_COLUMN_SIDECAR_PREFIX @ show_nat i"
| "kind_text BlsToExecutionChangeKind = BLS_TO_EXECUTION_CHANGE_TOPIC"
| "kind_text LightClientFinalityUpdateKind = LIGHT_CLIENT_FINALITY_UPDATE"
| "kind_text LightClientOptimisticUpdateKind = LIGHT_CLIENT_OPTIMISTIC_UPDATE"
| "kind_text ExecutionPayloadBidKind = EXECUTION_PAYLOAD_BID_TOPIC"

text \<open>\<open>Display\<close> of a kind: the derived names are in snake case.\<close>

fun kind_display :: "gossip_kind \<Rightarrow> string" where
  "kind_display (AttestationKind i) = ''beacon_attestation_'' @ show_nat i"
| "kind_display (SyncCommitteeMessageKind i) = ''sync_committee_'' @ show_nat i"
| "kind_display (BlobSidecarKind i) = BLOB_SIDECAR_PREFIX @ show_nat i"
| "kind_display (DataColumnSidecarKind i) = DATA_COLUMN_SIDECAR_PREFIX @ show_nat i"
| "kind_display BeaconBlockKind = ''beacon_block''"
| "kind_display BeaconAggregateAndProofKind = ''beacon_aggregate_and_proof''"
| "kind_display VoluntaryExitKind = ''voluntary_exit''"
| "kind_display ProposerSlashingKind = ''proposer_slashing''"
| "kind_display AttesterSlashingKind = ''attester_slashing''"
| "kind_display SignedContributionAndProofKind = ''signed_contribution_and_proof''"
| "kind_display BlsToExecutionChangeKind = ''bls_to_execution_change''"
| "kind_display LightClientFinalityUpdateKind = ''light_client_finality_update''"
| "kind_display LightClientOptimisticUpdateKind = ''light_client_optimistic_update''"
| "kind_display ExecutionPayloadBidKind = ''execution_payload_bid''"

text \<open>\<open>hex::encode\<close> and \<open>hex::decode\<close>, with the text of the error.\<close>

record hex =
  hex_encode :: "digest \<Rightarrow> string"
  hex_decode :: "string \<Rightarrow> (digest, string) result"

definition topic_to_string :: "hex \<Rightarrow> gossip_topic \<Rightarrow> string" where
  "topic_to_string h t =
     ''/'' @ TOPIC_PREFIX @ ''/'' @ hex_encode h (gt_fork_digest t) @ ''/'' @ kind_text (gt_kind t) @ ''/'' @
     (case gt_encoding t of GossipSSZSnappy \<Rightarrow> SSZ_SNAPPY_ENCODING_POSTFIX)"

fun strip_prefix :: "string \<Rightarrow> string \<Rightarrow> string option" where
  "strip_prefix [] s = Some s"
| "strip_prefix (c # cs) [] = None"
| "strip_prefix (c # cs) (x # xs) = (if x = c then strip_prefix cs xs else None)"

definition subnet_topic_index :: "string \<Rightarrow> gossip_kind option" where
  "subnet_topic_index s =
     (case strip_prefix BEACON_ATTESTATION_PREFIX s of
        Some i \<Rightarrow> map_option AttestationKind (parse_u64 i)
      | None \<Rightarrow>
          (case strip_prefix SYNC_COMMITTEE_PREFIX_TOPIC s of
             Some i \<Rightarrow> map_option SyncCommitteeMessageKind (parse_u64 i)
           | None \<Rightarrow>
               (case strip_prefix BLOB_SIDECAR_PREFIX s of
                  Some i \<Rightarrow> map_option BlobSidecarKind (parse_u64 i)
                | None \<Rightarrow>
                    (case strip_prefix DATA_COLUMN_SIDECAR_PREFIX s of
                       Some i \<Rightarrow> map_option DataColumnSidecarKind (parse_u64 i)
                     | None \<Rightarrow> None))))"

definition kind_from_text :: "string \<Rightarrow> gossip_kind option" where
  "kind_from_text s =
     (if s = BEACON_BLOCK_TOPIC then Some BeaconBlockKind
      else if s = BEACON_AGGREGATE_AND_PROOF_TOPIC then Some BeaconAggregateAndProofKind
      else if s = SIGNED_CONTRIBUTION_AND_PROOF_TOPIC then Some SignedContributionAndProofKind
      else if s = VOLUNTARY_EXIT_TOPIC then Some VoluntaryExitKind
      else if s = PROPOSER_SLASHING_TOPIC then Some ProposerSlashingKind
      else if s = ATTESTER_SLASHING_TOPIC then Some AttesterSlashingKind
      else if s = BLS_TO_EXECUTION_CHANGE_TOPIC then Some BlsToExecutionChangeKind
      else if s = LIGHT_CLIENT_FINALITY_UPDATE then Some LightClientFinalityUpdateKind
      else if s = LIGHT_CLIENT_OPTIMISTIC_UPDATE then Some LightClientOptimisticUpdateKind
      else if s = EXECUTION_PAYLOAD_BID_TOPIC then Some ExecutionPayloadBidKind
      else subnet_topic_index s)"

definition topic_decode :: "hex \<Rightarrow> string \<Rightarrow> (gossip_topic, string) result" where
  "topic_decode h topic =
     (case split_on CHR ''/'' topic of
        [_, prefix, hex_digest, kind, encoding] \<Rightarrow>
          (if prefix = TOPIC_PREFIX then
             (case hex_decode h hex_digest of
                Err e \<Rightarrow> Err (''Could not decode fork_digest hex: '' @ e)
              | Ok bytes \<Rightarrow>
                  (if length bytes \<noteq> 4 then Err (''Invalid gossipsub fork digest size: '' @ show_nat (length bytes))
                   else if encoding \<noteq> SSZ_SNAPPY_ENCODING_POSTFIX then Err (''Unknown encoding: '' @ topic)
                   else case kind_from_text kind of
                     None \<Rightarrow> Err (''Unknown topic: '' @ kind)
                   | Some k \<Rightarrow> Ok \<lparr>gt_encoding = GossipSSZSnappy, gt_fork_digest = bytes, gt_kind = k\<rparr>))
           else Err (''Unknown topic: '' @ topic))
      | _ \<Rightarrow> Err (''Unknown topic: '' @ topic))"

fun kind_subnet :: "gossip_kind \<Rightarrow> subnet option" where
  "kind_subnet (AttestationKind i) = Some (Attestation i)"
| "kind_subnet (SyncCommitteeMessageKind i) = Some (SyncCommittee i)"
| "kind_subnet (DataColumnSidecarKind i) = Some (DataColumn i)"
| "kind_subnet _ = None"

fun kind_from_subnet :: "subnet \<Rightarrow> gossip_kind" where
  "kind_from_subnet (Attestation i) = AttestationKind i"
| "kind_from_subnet (SyncCommittee i) = SyncCommitteeMessageKind i"
| "kind_from_subnet (DataColumn i) = DataColumnSidecarKind i"

definition subnet_from_topic_hash :: "hex \<Rightarrow> string \<Rightarrow> subnet option" where
  "subnet_from_topic_hash h topic =
     (case topic_decode h topic of Err _ \<Rightarrow> None | Ok t \<Rightarrow> kind_subnet (gt_kind t))"

section \<open>Subscriptions\<close>

record topic_config =
  enable_light_client_server :: bool
  subscribe_all_subnets :: bool
  subscribe_all_data_column_subnets :: bool
  sampling_subnets :: "nat list"

text \<open>What the chain configuration says of topics; the numbers of subnets of a committee are constants there.\<close>

record topic_chain =
  attestation_subnet_count :: nat
  tc_sync_committee_subnet_count :: nat
  blob_sidecar_subnet_count :: "phase \<Rightarrow> nat"
  data_column_sidecar_subnet_count :: nat
  is_peerdas_activated :: "phase \<Rightarrow> bool"

definition core_topics_to_subscribe :: "topic_chain \<Rightarrow> phase \<Rightarrow> topic_config \<Rightarrow> gossip_kind list" where
  "core_topics_to_subscribe c p opts =
     [BeaconBlockKind, BeaconAggregateAndProofKind, VoluntaryExitKind, ProposerSlashingKind, AttesterSlashingKind] @
     (if subscribe_all_subnets opts then map AttestationKind [0..<attestation_subnet_count c] else []) @
     (if Altair \<le> p then
        SignedContributionAndProofKind #
        (if subscribe_all_subnets opts then map SyncCommitteeMessageKind [0..<tc_sync_committee_subnet_count c] else []) @
        (if enable_light_client_server opts then [LightClientFinalityUpdateKind, LightClientOptimisticUpdateKind] else [])
      else []) @
     (if Capella \<le> p then [BlsToExecutionChangeKind] else []) @
     (if Deneb \<le> p \<and> \<not> is_peerdas_activated c p
      then map BlobSidecarKind [0..<blob_sidecar_subnet_count c p] else []) @
     (if is_peerdas_activated c p then
        (if subscribe_all_data_column_subnets opts then map DataColumnSidecarKind [0..<data_column_sidecar_subnet_count c]
         else map DataColumnSidecarKind (sampling_subnets opts))
      else []) @
     (if Gloas \<le> p then [ExecutionPayloadBidKind] else [])"

fun is_fork_non_core_topic :: "gossip_topic \<Rightarrow> phase \<Rightarrow> bool" where
  "is_fork_non_core_topic t p =
     (case gt_kind t of AttestationKind _ \<Rightarrow> True | SyncCommitteeMessageKind _ \<Rightarrow> True | _ \<Rightarrow> False)"

definition all_topics_at_fork :: "topic_chain \<Rightarrow> phase \<Rightarrow> gossip_kind list" where
  "all_topics_at_fork c p =
     core_topics_to_subscribe c p
       \<lparr>enable_light_client_server = True, subscribe_all_subnets = True, subscribe_all_data_column_subnets = True,
        sampling_subnets = [0..<data_column_sidecar_subnet_count c]\<rparr>"

section \<open>Facts\<close>

text \<open>What is relied on of the hexadecimal digits.\<close>

definition hex_ok :: "hex \<Rightarrow> bool" where
  "hex_ok h \<longleftrightarrow> (\<forall>d. hex_decode h (hex_encode h d) = Ok d) \<and> (\<forall>d. CHR ''/'' \<notin> set (hex_encode h d))"

fun kind_index :: "gossip_kind \<Rightarrow> nat" where
  "kind_index (AttestationKind i) = i"
| "kind_index (SyncCommitteeMessageKind i) = i"
| "kind_index (BlobSidecarKind i) = i"
| "kind_index (DataColumnSidecarKind i) = i"
| "kind_index _ = 0"

lemma strip_prefix_append [simp]: "strip_prefix p (p @ s) = Some s"
  by (induction p) simp_all

lemma show_nat_not: "digit_value c = None \<Longrightarrow> show_nat n \<noteq> c # cs"
  using show_nat_digits [of c n] by auto

lemma kind_text_roundtrip: "kind_index k \<le> u64_max \<Longrightarrow> kind_from_text (kind_text k) = Some k"
proof (cases k)
  case (SyncCommitteeMessageKind i)
  have "digit_value CHR ''c'' = None" by (simp add: digit_value_def)
  then show "kind_index k \<le> u64_max \<Longrightarrow> kind_from_text (kind_text k) = Some k"
    using SyncCommitteeMessageKind
    by (simp add: kind_from_text_def subnet_topic_index_def parse_show_u64 show_nat_not)
qed (simp_all add: kind_from_text_def subnet_topic_index_def parse_show_u64)

lemma kind_text_no_slash: "CHR ''/'' \<notin> set (kind_text k)"
  using show_nat_digits [of "CHR ''/''"] separators_no_digit by (cases k) auto

lemma topic_decode_print:
  assumes "hex_ok h" "length (gt_fork_digest t) = 4" "kind_index (gt_kind t) \<le> u64_max"
  shows "topic_decode h (topic_to_string h t) = Ok t"
proof -
  let ?parts = "[[], TOPIC_PREFIX, hex_encode h (gt_fork_digest t), kind_text (gt_kind t), SSZ_SNAPPY_ENCODING_POSTFIX]"
  have "topic_to_string h t = join_with CHR ''/'' ?parts"
    by (cases "gt_encoding t") (simp add: topic_to_string_def)
  moreover have "list_all (\<lambda>s. CHR ''/'' \<notin> set s) ?parts"
    using assms(1) kind_text_no_slash by (simp add: hex_ok_def)
  ultimately have "split_on CHR ''/'' (topic_to_string h t) = ?parts"
    using split_join [of "CHR ''/''" ?parts] by (metis list.distinct(1))
  then show ?thesis
    using assms kind_text_roundtrip [OF assms(3)]
    by (cases t rule: gossip_topic.cases; cases "gt_encoding t") (simp add: topic_decode_def hex_ok_def)
qed

section \<open>Properties\<close>

text \<open>Optional parts of a list, without a case distinction.\<close>

lemma when_list:
  "set (if b then xs else []) = {x \<in> set xs. b}" "distinct (if b then xs else []) \<longleftrightarrow> b \<longrightarrow> distinct xs"
  "set (if b then xs else ys) = {x \<in> set xs. b} \<union> {x \<in> set ys. \<not> b}"
  "distinct (if b then xs else ys) \<longleftrightarrow> (b \<longrightarrow> distinct xs) \<and> (\<not> b \<longrightarrow> distinct ys)"
  by auto

text \<open>
  The name of a topic with a fork digest of four bytes and an index of 64 bits is parsed to the
  topic, and its subnet is found from the name.
\<close>

theorem topic_roundtrip:
  assumes "hex_ok h" "length (gt_fork_digest t) = 4" "kind_index (gt_kind t) \<le> u64_max"
  shows "topic_decode h (topic_to_string h t) = Ok t \<and>
    subnet_from_topic_hash h (topic_to_string h t) = kind_subnet (gt_kind t) \<and>
    (\<forall>s. kind_subnet (gt_kind t) = Some s \<longrightarrow> kind_from_subnet s = gt_kind t)"
  using topic_decode_print [OF assms]
  by (cases "gt_kind t") (simp_all add: subnet_from_topic_hash_def)

text \<open>
  C12. Whatever its other options, a node whose sampling subnets are distinct subnets of the network
  subscribes only to topics of \<open>all_topics_at_fork\<close>, each once; and the topics of subnets that it may
  join later, those of attestations at every fork and those of sync committees from Altair on, are among
  them too.
\<close>

theorem subscribed_topics_known:
  assumes "set (sampling_subnets opts) \<subseteq> {..<data_column_sidecar_subnet_count c}" "distinct (sampling_subnets opts)"
  shows "set (core_topics_to_subscribe c p opts) \<subseteq> set (all_topics_at_fork c p) \<and>
    distinct (core_topics_to_subscribe c p opts) \<and>
    (\<forall>i < attestation_subnet_count c. AttestationKind i \<in> set (all_topics_at_fork c p)) \<and>
    (Altair \<le> p \<longrightarrow> (\<forall>i < tc_sync_committee_subnet_count c. SyncCommitteeMessageKind i \<in> set (all_topics_at_fork c p)))"
proof (intro conjI)
  show "set (core_topics_to_subscribe c p opts) \<subseteq> set (all_topics_at_fork c p)"
  proof (rule subsetI)
    fix k
    assume "k \<in> set (core_topics_to_subscribe c p opts)"
    then show "k \<in> set (all_topics_at_fork c p)"
      using assms(1) by (cases k) (auto simp: core_topics_to_subscribe_def all_topics_at_fork_def when_list image_iff)
  qed
  show "distinct (core_topics_to_subscribe c p opts)"
    using assms(2) by (simp add: core_topics_to_subscribe_def when_list distinct_map inj_on_def) blast
qed (simp_all add: core_topics_to_subscribe_def all_topics_at_fork_def)

section \<open>Instances\<close>

definition hex_digit :: "nat \<Rightarrow> char" where
  "hex_digit n = (if n < 10 then char_of (48 + n) else char_of (87 + n))"

definition hex_value :: "char \<Rightarrow> nat option" where
  "hex_value c = (let n = (of_char c :: nat) in
     if 48 \<le> n \<and> n \<le> 57 then Some (n - 48) else if 97 \<le> n \<and> n \<le> 102 then Some (n - 87) else None)"

fun demo_hex_decode :: "string \<Rightarrow> (digest, string) result" where
  "demo_hex_decode [] = Ok []"
| "demo_hex_decode [c] = Err ''Odd number of digits''"
| "demo_hex_decode (a # b # cs) =
     (case (hex_value a, hex_value b) of
        (Some x, Some y) \<Rightarrow> result_bind (demo_hex_decode cs) (\<lambda>bs. Ok (of_nat (16 * x + y) # bs))
      | _ \<Rightarrow> Err ''Invalid character'')"

definition demo_hex :: hex where
  "demo_hex = \<lparr>hex_encode = concat \<circ> map (\<lambda>b. [hex_digit (unat b div 16), hex_digit (unat b mod 16)]),
     hex_decode = demo_hex_decode\<rparr>"

lemma hex_value_digit: "n < 16 \<Longrightarrow> hex_value (hex_digit n) = Some n"
  by (auto simp: hex_value_def hex_digit_def Let_def)

lemma hex_digit_not_slash: "n < 16 \<Longrightarrow> hex_digit n \<noteq> CHR ''/''"
  using hex_value_digit [of n] by (auto simp: hex_value_def)

lemma unat_byte_less: "unat (b :: 8 word) < 256"
  using unsigned_less [of b] by simp

lemma demo_hex_ok: "hex_ok demo_hex"
proof -
  have 1: "unat b div 16 < 16" "unat b mod 16 < 16" for b :: "8 word" using unat_byte_less [of b] by auto
  have "demo_hex_decode (hex_encode demo_hex d) = Ok d" for d
    by (induction d) (simp_all add: demo_hex_def hex_value_digit 1)
  moreover have "CHR ''/'' \<notin> set (hex_encode demo_hex d)" for d
    using hex_digit_not_slash [OF 1(1)] hex_digit_not_slash [OF 1(2)] by (auto simp: demo_hex_def dest: sym)
  ultimately show ?thesis by (simp add: hex_ok_def) (simp add: demo_hex_def)
qed

definition demo_topic :: gossip_topic where
  "demo_topic = \<lparr>gt_encoding = GossipSSZSnappy, gt_fork_digest = [1, 2, 3, 4], gt_kind = AttestationKind 42\<rparr>"

theorem topic_roundtrip_witness:
  "topic_to_string demo_hex demo_topic = ''/eth2/01020304/beacon_attestation_42/ssz_snappy'' \<and>
   topic_decode demo_hex (topic_to_string demo_hex demo_topic) = Ok demo_topic"
proof -
  have "length (gt_fork_digest demo_topic) = 4" "kind_index (gt_kind demo_topic) \<le> u64_max"
    by (simp_all add: demo_topic_def u64_max_def)
  moreover have "topic_to_string demo_hex demo_topic = ''/eth2/01020304/beacon_attestation_42/ssz_snappy''"
    by code_simp
  ultimately show ?thesis using topic_roundtrip [OF demo_hex_ok] by blast
qed

definition demo_topic_chain :: topic_chain where
  "demo_topic_chain = \<lparr>attestation_subnet_count = 64, tc_sync_committee_subnet_count = 4, blob_sidecar_subnet_count = (\<lambda>_. 6),
     data_column_sidecar_subnet_count = 128, is_peerdas_activated = (\<lambda>p. Fulu \<le> p)\<rparr>"

definition demo_topic_config :: topic_config where
  "demo_topic_config = \<lparr>enable_light_client_server = False, subscribe_all_subnets = False,
     subscribe_all_data_column_subnets = False, sampling_subnets = [3, 77]\<rparr>"

theorem subscribed_topics_known_witness:
  "core_topics_to_subscribe demo_topic_chain Fulu demo_topic_config =
     [BeaconBlockKind, BeaconAggregateAndProofKind, VoluntaryExitKind, ProposerSlashingKind, AttesterSlashingKind,
      SignedContributionAndProofKind, BlsToExecutionChangeKind, DataColumnSidecarKind 3, DataColumnSidecarKind 77] \<and>
   set (core_topics_to_subscribe demo_topic_chain Fulu demo_topic_config) \<subseteq> set (all_topics_at_fork demo_topic_chain Fulu)"
proof -
  have "set (sampling_subnets demo_topic_config) \<subseteq> {..<data_column_sidecar_subnet_count demo_topic_chain}"
    "distinct (sampling_subnets demo_topic_config)"
    by (simp_all add: demo_topic_chain_def demo_topic_config_def)
  from subscribed_topics_known [OF this, of Fulu] show ?thesis
    by (simp add: core_topics_to_subscribe_def demo_topic_chain_def demo_topic_config_def less_eq_phase_def)
qed

end
