(* ===== verification/Pubsub.thy ===== *)
theory Pubsub
  imports Topics Codec
begin

text \<open>
  The messages of gossip, \<open>types/pubsub.rs\<close>: the topic of a message, its SSZ form, the snappy
  transform that gossipsub applies on both sides, and the decoder, which picks the container from
  the kind of the topic and the fork that its digest names. The SSZ form of a container and the raw
  snappy format are other crates: they are the parameters \<open>gossip_ssz\<close> (per container and fork
  variant) and \<open>snap\<close>. Error messages keep only their fixed text.
\<close>

section \<open>Messages\<close>

text \<open>The containers on the wire; those of a combined type carry the fork of their variant.\<close>

datatype gossip_format =
    SignedBeaconBlockFormat phase
  | BlobSidecarFormat
  | DataColumnSidecarFormat phase
  | SignedAggregateAndProofFormat phase
  | AttestationFormat phase
  | SingleAttestationFormat
  | SignedVoluntaryExitFormat
  | ProposerSlashingFormat
  | AttesterSlashingFormat phase
  | SignedContributionAndProofFormat
  | SyncCommitteeMessageFormat
  | SignedBlsToExecutionChangeFormat
  | LightClientFinalityUpdateFormat phase
  | LightClientOptimisticUpdateFormat phase
  | SignedExecutionPayloadBidFormat

type_synonym 'pl gossip_ssz = "gossip_format \<Rightarrow> 'pl ssz"

datatype 'pl pubsub_message =
    BeaconBlockMsg phase 'pl
  | BlobSidecarMsg nat 'pl
  | DataColumnSidecarMsg nat phase 'pl
  | AggregateAndProofAttestationMsg phase 'pl
  | AttestationMsg nat phase 'pl
  | SingleAttestationMsg nat 'pl
  | VoluntaryExitMsg 'pl
  | ProposerSlashingMsg 'pl
  | AttesterSlashingMsg phase 'pl
  | SignedContributionAndProofMsg 'pl
  | SyncCommitteeMessageMsg nat 'pl
  | BlsToExecutionChangeMsg 'pl
  | LightClientFinalityUpdateMsg phase 'pl
  | LightClientOptimisticUpdateMsg phase 'pl
  | ExecutionPayloadBidMsg 'pl

fun message_kind :: "'pl pubsub_message \<Rightarrow> gossip_kind" where
  "message_kind (BeaconBlockMsg _ _) = BeaconBlockKind"
| "message_kind (BlobSidecarMsg i _) = BlobSidecarKind i"
| "message_kind (DataColumnSidecarMsg i _ _) = DataColumnSidecarKind i"
| "message_kind (AggregateAndProofAttestationMsg _ _) = BeaconAggregateAndProofKind"
| "message_kind (AttestationMsg i _ _) = AttestationKind i"
| "message_kind (SingleAttestationMsg i _) = AttestationKind i"
| "message_kind (VoluntaryExitMsg _) = VoluntaryExitKind"
| "message_kind (ProposerSlashingMsg _) = ProposerSlashingKind"
| "message_kind (AttesterSlashingMsg _ _) = AttesterSlashingKind"
| "message_kind (SignedContributionAndProofMsg _) = SignedContributionAndProofKind"
| "message_kind (SyncCommitteeMessageMsg i _) = SyncCommitteeMessageKind i"
| "message_kind (BlsToExecutionChangeMsg _) = BlsToExecutionChangeKind"
| "message_kind (LightClientFinalityUpdateMsg _ _) = LightClientFinalityUpdateKind"
| "message_kind (LightClientOptimisticUpdateMsg _ _) = LightClientOptimisticUpdateKind"
| "message_kind (ExecutionPayloadBidMsg _) = ExecutionPayloadBidKind"

definition message_topics :: "'pl pubsub_message \<Rightarrow> gossip_encoding \<Rightarrow> digest \<Rightarrow> gossip_topic list" where
  "message_topics m enc d = [\<lparr>gt_encoding = enc, gt_fork_digest = d, gt_kind = message_kind m\<rparr>]"

section \<open>The snappy transform\<close>

record snap =
  decompress_len :: "bytes \<Rightarrow> (nat, string) result"
  decompress_vec :: "bytes \<Rightarrow> (bytes, string) result"
  compress_vec :: "bytes \<Rightarrow> (bytes, string) result"

record snappy_transform =
  st_max_uncompressed_len :: nat
  st_max_compressed_len :: nat

definition snappy_transform_new :: "nat \<Rightarrow> nat \<Rightarrow> snappy_transform" where
  "snappy_transform_new u c = \<lparr>st_max_uncompressed_len = u, st_max_compressed_len = c\<rparr>"

text \<open>A message of gossipsub, before and after the transform.\<close>

record 'peer gossip_message =
  gm_source :: "'peer option"
  gm_data :: bytes
  gm_sequence_number :: "nat option"
  gm_topic :: string

definition inbound_transform ::
    "snap \<Rightarrow> snappy_transform \<Rightarrow> 'peer gossip_message \<Rightarrow> ('peer gossip_message, string) result" where
  "inbound_transform s st raw =
     (if length (gm_data raw) > st_max_compressed_len st then Err ''ssz_snappy encoded data > max_compressed_len''
      else result_bind (decompress_len s (gm_data raw)) (\<lambda>len.
        if len > st_max_uncompressed_len st then Err ''ssz_snappy decoded data > MAX_PAYLOAD_SIZE''
        else result_bind (decompress_vec s (gm_data raw)) (\<lambda>d.
          Ok \<lparr>gm_source = gm_source raw, gm_data = d, gm_sequence_number = gm_sequence_number raw,
              gm_topic = gm_topic raw\<rparr>)))"

definition outbound_transform :: "snap \<Rightarrow> snappy_transform \<Rightarrow> string \<Rightarrow> bytes \<Rightarrow> (bytes, string) result" where
  "outbound_transform s st topic d =
     (if length d > st_max_uncompressed_len st then Err ''ssz_snappy Encoded data > MAX_PAYLOAD_SIZE''
      else compress_vec s d)"

section \<open>Decoding\<close>

definition from_ssz_default :: "'pl ssz \<Rightarrow> bytes \<Rightarrow> ('pl, string) result" where
  "from_ssz_default t d = ok_or (ssz_read t d) ''ssz''"

definition unknown_digest :: "('a, string) result" where
  "unknown_digest = Err ''Unknown gossipsub fork digest''"

text \<open>One definition per arm of \<open>PubsubMessage::decode\<close>; \<open>fork\<close> is the fork of the topic's digest.\<close>

definition decode_aggregate_and_proof ::
    "'pl gossip_ssz \<Rightarrow> phase option \<Rightarrow> bytes \<Rightarrow> ('pl pubsub_message, string) result" where
  "decode_aggregate_and_proof ssz fork d =
     (case fork of
        Some p \<Rightarrow>
          let v = (if p \<in> {Phase0, Altair, Bellatrix, Capella, Deneb} then Phase0 else Electra)
          in result_bind (from_ssz_default (ssz (SignedAggregateAndProofFormat v)) d)
               (\<lambda>x. Ok (AggregateAndProofAttestationMsg v x))
      | None \<Rightarrow> unknown_digest)"

definition decode_attestation ::
    "'pl gossip_ssz \<Rightarrow> phase option \<Rightarrow> nat \<Rightarrow> bytes \<Rightarrow> ('pl pubsub_message, string) result" where
  "decode_attestation ssz fork i d =
     (case fork of
        Some p \<Rightarrow>
          if p \<in> {Phase0, Altair, Bellatrix, Capella, Deneb}
          then result_bind (from_ssz_default (ssz (AttestationFormat Phase0)) d) (\<lambda>x. Ok (AttestationMsg i Phase0 x))
          else result_bind (from_ssz_default (ssz SingleAttestationFormat) d) (\<lambda>x. Ok (SingleAttestationMsg i x))
      | None \<Rightarrow> unknown_digest)"

definition decode_beacon_block ::
    "'pl gossip_ssz \<Rightarrow> phase option \<Rightarrow> bytes \<Rightarrow> ('pl pubsub_message, string) result" where
  "decode_beacon_block ssz fork d =
     (case fork of
        Some p \<Rightarrow> result_bind (from_ssz_default (ssz (SignedBeaconBlockFormat p)) d) (\<lambda>x. Ok (BeaconBlockMsg p x))
      | None \<Rightarrow> unknown_digest)"

definition decode_blob_sidecar ::
    "'pl gossip_ssz \<Rightarrow> phase option \<Rightarrow> nat \<Rightarrow> bytes \<Rightarrow> ('pl pubsub_message, string) result" where
  "decode_blob_sidecar ssz fork i d =
     (if fork \<in> {Some Deneb, Some Electra}
      then result_bind (from_ssz_default (ssz BlobSidecarFormat) d) (\<lambda>x. Ok (BlobSidecarMsg i x))
      else Err ''beacon_blobs_and_sidecar topic invalid for given fork digest'')"

definition decode_data_column_sidecar ::
    "'pl gossip_ssz \<Rightarrow> phase option \<Rightarrow> nat \<Rightarrow> bytes \<Rightarrow> ('pl pubsub_message, string) result" where
  "decode_data_column_sidecar ssz fork i d =
     (case fork of
        Some Gloas \<Rightarrow>
          result_bind (from_ssz_default (ssz (DataColumnSidecarFormat Gloas)) d) (\<lambda>x. Ok (DataColumnSidecarMsg i Gloas x))
      | Some Fulu \<Rightarrow>
          result_bind (from_ssz_default (ssz (DataColumnSidecarFormat Fulu)) d) (\<lambda>x. Ok (DataColumnSidecarMsg i Fulu x))
      | _ \<Rightarrow> Err ''data_column_sidecar topic invalid for given fork digest'')"

definition decode_attester_slashing ::
    "'pl gossip_ssz \<Rightarrow> phase option \<Rightarrow> bytes \<Rightarrow> ('pl pubsub_message, string) result" where
  "decode_attester_slashing ssz fork d =
     (case fork of
        Some p \<Rightarrow>
          let v = (if p \<in> {Phase0, Altair, Bellatrix, Capella, Deneb} then Phase0 else Electra)
          in result_bind (from_ssz_default (ssz (AttesterSlashingFormat v)) d) (\<lambda>x. Ok (AttesterSlashingMsg v x))
      | None \<Rightarrow> unknown_digest)"

text \<open>The fork variant of a light client update: Bellatrix has that of Altair.\<close>

fun light_client_variant :: "phase option \<Rightarrow> phase option" where
  "light_client_variant None = None"
| "light_client_variant (Some Phase0) = None"
| "light_client_variant (Some Bellatrix) = Some Altair"
| "light_client_variant (Some p) = Some p"

definition decode_light_client_finality_update ::
    "'pl gossip_ssz \<Rightarrow> phase option \<Rightarrow> bytes \<Rightarrow> ('pl pubsub_message, string) result" where
  "decode_light_client_finality_update ssz fork d =
     (case light_client_variant fork of
        None \<Rightarrow> Err ''light_client_finality_update topic invalid for given fork digest''
      | Some v \<Rightarrow> result_bind (from_ssz_default (ssz (LightClientFinalityUpdateFormat v)) d)
          (\<lambda>x. Ok (LightClientFinalityUpdateMsg v x)))"

definition decode_light_client_optimistic_update ::
    "'pl gossip_ssz \<Rightarrow> phase option \<Rightarrow> bytes \<Rightarrow> ('pl pubsub_message, string) result" where
  "decode_light_client_optimistic_update ssz fork d =
     (case light_client_variant fork of
        None \<Rightarrow> Err ''light_client_optimistic_update topic invalid for given fork digest''
      | Some v \<Rightarrow> result_bind (from_ssz_default (ssz (LightClientOptimisticUpdateFormat v)) d)
          (\<lambda>x. Ok (LightClientOptimisticUpdateMsg v x)))"

definition decode_execution_payload_bid ::
    "'pl gossip_ssz \<Rightarrow> phase option \<Rightarrow> bytes \<Rightarrow> ('pl pubsub_message, string) result" where
  "decode_execution_payload_bid ssz fork d =
     (if fork = Some Gloas
      then result_bind (from_ssz_default (ssz SignedExecutionPayloadBidFormat) d) (\<lambda>x. Ok (ExecutionPayloadBidMsg x))
      else Err ''execution_payload_bid topic invalid for given fork digest'')"

fun decode_kind ::
    "'pl gossip_ssz \<Rightarrow> phase option \<Rightarrow> gossip_kind \<Rightarrow> bytes \<Rightarrow> ('pl pubsub_message, string) result" where
  "decode_kind ssz fork BeaconAggregateAndProofKind d = decode_aggregate_and_proof ssz fork d"
| "decode_kind ssz fork (AttestationKind i) d = decode_attestation ssz fork i d"
| "decode_kind ssz fork BeaconBlockKind d = decode_beacon_block ssz fork d"
| "decode_kind ssz fork (BlobSidecarKind i) d = decode_blob_sidecar ssz fork i d"
| "decode_kind ssz fork (DataColumnSidecarKind i) d = decode_data_column_sidecar ssz fork i d"
| "decode_kind ssz fork VoluntaryExitKind d =
     result_bind (from_ssz_default (ssz SignedVoluntaryExitFormat) d) (\<lambda>x. Ok (VoluntaryExitMsg x))"
| "decode_kind ssz fork ProposerSlashingKind d =
     result_bind (from_ssz_default (ssz ProposerSlashingFormat) d) (\<lambda>x. Ok (ProposerSlashingMsg x))"
| "decode_kind ssz fork AttesterSlashingKind d = decode_attester_slashing ssz fork d"
| "decode_kind ssz fork SignedContributionAndProofKind d =
     result_bind (from_ssz_default (ssz SignedContributionAndProofFormat) d) (\<lambda>x. Ok (SignedContributionAndProofMsg x))"
| "decode_kind ssz fork (SyncCommitteeMessageKind i) d =
     result_bind (from_ssz_default (ssz SyncCommitteeMessageFormat) d) (\<lambda>x. Ok (SyncCommitteeMessageMsg i x))"
| "decode_kind ssz fork BlsToExecutionChangeKind d =
     result_bind (from_ssz_default (ssz SignedBlsToExecutionChangeFormat) d) (\<lambda>x. Ok (BlsToExecutionChangeMsg x))"
| "decode_kind ssz fork LightClientFinalityUpdateKind d = decode_light_client_finality_update ssz fork d"
| "decode_kind ssz fork LightClientOptimisticUpdateKind d = decode_light_client_optimistic_update ssz fork d"
| "decode_kind ssz fork ExecutionPayloadBidKind d = decode_execution_payload_bid ssz fork d"

definition pubsub_decode ::
    "hex \<Rightarrow> 'pl gossip_ssz \<Rightarrow> fork_context \<Rightarrow> string \<Rightarrow> bytes \<Rightarrow> ('pl pubsub_message, string) result" where
  "pubsub_decode h ssz ctx topic d =
     (case topic_decode h topic of
        Err _ \<Rightarrow> Err ''Unknown gossipsub topic''
      | Ok t \<Rightarrow> decode_kind ssz (get_fork_from_context_bytes ctx (gt_fork_digest t)) (gt_kind t) d)"

section \<open>Encoding\<close>

fun pubsub_encode :: "'pl gossip_ssz \<Rightarrow> 'pl pubsub_message \<Rightarrow> bytes option" where
  "pubsub_encode ssz (BeaconBlockMsg v x) = ssz_write (ssz (SignedBeaconBlockFormat v)) x"
| "pubsub_encode ssz (BlobSidecarMsg i x) = ssz_write (ssz BlobSidecarFormat) x"
| "pubsub_encode ssz (DataColumnSidecarMsg i v x) = ssz_write (ssz (DataColumnSidecarFormat v)) x"
| "pubsub_encode ssz (AggregateAndProofAttestationMsg v x) = ssz_write (ssz (SignedAggregateAndProofFormat v)) x"
| "pubsub_encode ssz (VoluntaryExitMsg x) = ssz_write (ssz SignedVoluntaryExitFormat) x"
| "pubsub_encode ssz (ProposerSlashingMsg x) = ssz_write (ssz ProposerSlashingFormat) x"
| "pubsub_encode ssz (AttesterSlashingMsg v x) = ssz_write (ssz (AttesterSlashingFormat v)) x"
| "pubsub_encode ssz (AttestationMsg i v x) = ssz_write (ssz (AttestationFormat v)) x"
| "pubsub_encode ssz (SingleAttestationMsg i x) = ssz_write (ssz SingleAttestationFormat) x"
| "pubsub_encode ssz (SignedContributionAndProofMsg x) = ssz_write (ssz SignedContributionAndProofFormat) x"
| "pubsub_encode ssz (SyncCommitteeMessageMsg i x) = ssz_write (ssz SyncCommitteeMessageFormat) x"
| "pubsub_encode ssz (BlsToExecutionChangeMsg x) = ssz_write (ssz SignedBlsToExecutionChangeFormat) x"
| "pubsub_encode ssz (LightClientFinalityUpdateMsg v x) = ssz_write (ssz (LightClientFinalityUpdateFormat v)) x"
| "pubsub_encode ssz (LightClientOptimisticUpdateMsg v x) = ssz_write (ssz (LightClientOptimisticUpdateFormat v)) x"
| "pubsub_encode ssz (ExecutionPayloadBidMsg x) = ssz_write (ssz SignedExecutionPayloadBidFormat) x"

section \<open>What a decoded message is\<close>

text \<open>The container and the content of a message, and the forks at which a message can travel.\<close>

fun message_format :: "'pl pubsub_message \<Rightarrow> gossip_format" where
  "message_format (BeaconBlockMsg v _) = SignedBeaconBlockFormat v"
| "message_format (BlobSidecarMsg _ _) = BlobSidecarFormat"
| "message_format (DataColumnSidecarMsg _ v _) = DataColumnSidecarFormat v"
| "message_format (AggregateAndProofAttestationMsg v _) = SignedAggregateAndProofFormat v"
| "message_format (AttestationMsg _ v _) = AttestationFormat v"
| "message_format (SingleAttestationMsg _ _) = SingleAttestationFormat"
| "message_format (VoluntaryExitMsg _) = SignedVoluntaryExitFormat"
| "message_format (ProposerSlashingMsg _) = ProposerSlashingFormat"
| "message_format (AttesterSlashingMsg v _) = AttesterSlashingFormat v"
| "message_format (SignedContributionAndProofMsg _) = SignedContributionAndProofFormat"
| "message_format (SyncCommitteeMessageMsg _ _) = SyncCommitteeMessageFormat"
| "message_format (BlsToExecutionChangeMsg _) = SignedBlsToExecutionChangeFormat"
| "message_format (LightClientFinalityUpdateMsg v _) = LightClientFinalityUpdateFormat v"
| "message_format (LightClientOptimisticUpdateMsg v _) = LightClientOptimisticUpdateFormat v"
| "message_format (ExecutionPayloadBidMsg _) = SignedExecutionPayloadBidFormat"

fun message_payload :: "'pl pubsub_message \<Rightarrow> 'pl" where
  "message_payload (BeaconBlockMsg _ x) = x"
| "message_payload (BlobSidecarMsg _ x) = x"
| "message_payload (DataColumnSidecarMsg _ _ x) = x"
| "message_payload (AggregateAndProofAttestationMsg _ x) = x"
| "message_payload (AttestationMsg _ _ x) = x"
| "message_payload (SingleAttestationMsg _ x) = x"
| "message_payload (VoluntaryExitMsg x) = x"
| "message_payload (ProposerSlashingMsg x) = x"
| "message_payload (AttesterSlashingMsg _ x) = x"
| "message_payload (SignedContributionAndProofMsg x) = x"
| "message_payload (SyncCommitteeMessageMsg _ x) = x"
| "message_payload (BlsToExecutionChangeMsg x) = x"
| "message_payload (LightClientFinalityUpdateMsg _ x) = x"
| "message_payload (LightClientOptimisticUpdateMsg _ x) = x"
| "message_payload (ExecutionPayloadBidMsg x) = x"

definition attestation_variant :: "phase \<Rightarrow> phase" where
  "attestation_variant p = (if p \<le> Deneb then Phase0 else Electra)"

text \<open>
  The containers of a fork: those of attestations changed at Electra, those of light clients at every
  fork after Phase 0 but Bellatrix.
\<close>

definition light_client_at :: "phase option \<Rightarrow> phase \<Rightarrow> bool" where
  "light_client_at f v \<longleftrightarrow> f = Some v \<and> v \<notin> {Phase0, Bellatrix} \<or> f = Some Bellatrix \<and> v = Altair"

fun message_at_fork :: "phase option \<Rightarrow> 'pl pubsub_message \<Rightarrow> bool" where
  "message_at_fork f (BeaconBlockMsg v _) \<longleftrightarrow> f = Some v"
| "message_at_fork f (BlobSidecarMsg _ _) \<longleftrightarrow> f \<in> {Some Deneb, Some Electra}"
| "message_at_fork f (DataColumnSidecarMsg _ v _) \<longleftrightarrow> f = Some v \<and> Fulu \<le> v"
| "message_at_fork f (AggregateAndProofAttestationMsg v _) \<longleftrightarrow> map_option attestation_variant f = Some v"
| "message_at_fork f (AttestationMsg _ v _) \<longleftrightarrow> map_option attestation_variant f = Some Phase0 \<and> v = Phase0"
| "message_at_fork f (SingleAttestationMsg _ _) \<longleftrightarrow> map_option attestation_variant f = Some Electra"
| "message_at_fork f (AttesterSlashingMsg v _) \<longleftrightarrow> map_option attestation_variant f = Some v"
| "message_at_fork f (LightClientFinalityUpdateMsg v _) \<longleftrightarrow> light_client_at f v"
| "message_at_fork f (LightClientOptimisticUpdateMsg v _) \<longleftrightarrow> light_client_at f v"
| "message_at_fork f (ExecutionPayloadBidMsg _) \<longleftrightarrow> f = Some Gloas"
| "message_at_fork f _ \<longleftrightarrow> True"

lemma attestation_variant_eq:
  "(if p \<in> {Phase0, Altair, Bellatrix, Capella, Deneb} then Phase0 else Electra) = attestation_variant p"
  "p \<in> {Phase0, Altair, Bellatrix, Capella, Deneb} \<longleftrightarrow> attestation_variant p = Phase0"
  "attestation_variant p \<noteq> Phase0 \<longleftrightarrow> attestation_variant p = Electra"
  by (cases p; simp add: attestation_variant_def less_eq_phase_def)+

lemma light_client_variant_eq: "light_client_variant f = Some v \<longleftrightarrow> light_client_at f v"
  by (cases f rule: light_client_variant.cases) (auto simp: light_client_at_def)

lemma from_ssz_default_eq_Ok: "from_ssz_default t d = Ok x \<longleftrightarrow> ssz_read t d = Some x"
  by (simp add: from_ssz_default_def ok_or_eq_Ok)

text \<open>When each arm of the decoder succeeds, and with what.\<close>

lemma decode_variants_eq:
  "decode_aggregate_and_proof ssz f d = Ok m \<longleftrightarrow>
     (\<exists>v x. m = AggregateAndProofAttestationMsg v x \<and> map_option attestation_variant f = Some v \<and>
        ssz_read (ssz (SignedAggregateAndProofFormat v)) d = Some x)"
  "decode_attester_slashing ssz f d = Ok m \<longleftrightarrow>
     (\<exists>v x. m = AttesterSlashingMsg v x \<and> map_option attestation_variant f = Some v \<and>
        ssz_read (ssz (AttesterSlashingFormat v)) d = Some x)"
  "decode_beacon_block ssz f d = Ok m \<longleftrightarrow>
     (\<exists>v x. m = BeaconBlockMsg v x \<and> f = Some v \<and> ssz_read (ssz (SignedBeaconBlockFormat v)) d = Some x)"
  "decode_light_client_finality_update ssz f d = Ok m \<longleftrightarrow>
     (\<exists>v x. m = LightClientFinalityUpdateMsg v x \<and> light_client_at f v \<and>
        ssz_read (ssz (LightClientFinalityUpdateFormat v)) d = Some x)"
  "decode_light_client_optimistic_update ssz f d = Ok m \<longleftrightarrow>
     (\<exists>v x. m = LightClientOptimisticUpdateMsg v x \<and> light_client_at f v \<and>
        ssz_read (ssz (LightClientOptimisticUpdateFormat v)) d = Some x)"
  unfolding decode_aggregate_and_proof_def decode_attester_slashing_def decode_beacon_block_def
    decode_light_client_finality_update_def decode_light_client_optimistic_update_def unknown_digest_def
    attestation_variant_eq(1) Let_def
  by (auto simp: result_bind_eq_Ok from_ssz_default_eq_Ok simp flip: light_client_variant_eq split: option.splits)

lemma decode_attestation_eq:
  "decode_attestation ssz f i d = Ok m \<longleftrightarrow>
     (\<exists>x. m = AttestationMsg i Phase0 x \<and> map_option attestation_variant f = Some Phase0 \<and>
        ssz_read (ssz (AttestationFormat Phase0)) d = Some x) \<or>
     (\<exists>x. m = SingleAttestationMsg i x \<and> map_option attestation_variant f = Some Electra \<and>
        ssz_read (ssz SingleAttestationFormat) d = Some x)"
  unfolding decode_attestation_def unknown_digest_def attestation_variant_eq(2)
  using attestation_variant_eq(3) [of "the f"]
  by (auto simp: result_bind_eq_Ok from_ssz_default_eq_Ok split: option.splits)

lemma decode_data_column_sidecar_eq:
  "decode_data_column_sidecar ssz f i d = Ok m \<longleftrightarrow>
     (\<exists>v x. m = DataColumnSidecarMsg i v x \<and> f = Some v \<and> Fulu \<le> v \<and>
        ssz_read (ssz (DataColumnSidecarFormat v)) d = Some x)"
  unfolding decode_data_column_sidecar_def
  by (auto simp: result_bind_eq_Ok from_ssz_default_eq_Ok less_eq_phase_def split: option.splits phase.splits)

lemma decode_kind_eq:
  "decode_kind ssz f k d = Ok m \<longleftrightarrow>
     message_kind m = k \<and> message_at_fork f m \<and> ssz_read (ssz (message_format m)) d = Some (message_payload m)"
  by (cases k; cases m;
      simp add: decode_variants_eq decode_attestation_eq decode_data_column_sidecar_eq decode_blob_sidecar_def
        decode_execution_payload_bid_def result_bind_eq_Ok from_ssz_default_eq_Ok; blast)

lemma pubsub_encode_eq: "pubsub_encode ssz m = ssz_write (ssz (message_format m)) (message_payload m)"
  by (cases m) simp_all

section \<open>Properties\<close>

text \<open>
  What is relied on of raw snappy: inputs whose bound \<open>32 + n + n / 6\<close> is less than 4 GiB are compressed
  into at most that many bytes, decompressing gives them back, and a successful decompression has the
  length in the header.
\<close>

definition snap_ok :: "snap \<Rightarrow> bool" where
  "snap_ok s \<longleftrightarrow>
     (\<forall>d. 32 + length d + length d div 6 < 2 ^ 32 \<longrightarrow> (\<exists>z. compress_vec s d = Ok z \<and> length z \<le> 32 + length d + length d div 6)) \<and>
     (\<forall>d z. compress_vec s d = Ok z \<longrightarrow> decompress_vec s z = Ok d) \<and>
     (\<forall>d z. decompress_vec s z = Ok d \<longrightarrow> decompress_len s z = Ok (length d))"

lemma inbound_transform_eq_Ok:
  assumes "snap_ok s"
  shows "inbound_transform s st raw = Ok msg \<longleftrightarrow>
    length (gm_data raw) \<le> st_max_compressed_len st \<and> length (gm_data msg) \<le> st_max_uncompressed_len st \<and>
    decompress_vec s (gm_data raw) = Ok (gm_data msg) \<and> gm_source msg = gm_source raw \<and>
    gm_sequence_number msg = gm_sequence_number raw \<and> gm_topic msg = gm_topic raw"
  using assms by (cases msg) (auto simp: inbound_transform_def snap_ok_def result_bind_eq_Ok not_less)

text \<open>
  C11. A gossip message reaches its receiver as it was sent: with the limits of the node
  (compressed messages as long as snappy can make the longest payload, less than 4 GiB), a message of the
  fork of the topic's digest, whose SSZ form is within the payload limit, passes the sender's transform;
  the receiver's transform of what was sent, whatever its source and sequence number, and the
  decoder on the received topic name return the message itself.
\<close>

theorem gossip_delivered:
  assumes "hex_ok h" "snap_ok s" "\<forall>f. list_ssz_ok (ssz f)"
    and "message_topics m GossipSSZSnappy digest = [t]" "length digest = 4" "kind_index (message_kind m) \<le> u64_max"
    and "message_at_fork (get_fork_from_context_bytes ctx digest) m"
    and "pubsub_encode ssz m = Some d" "length d \<le> max_payload" "32 + max_payload + max_payload div 6 < 2 ^ 32"
    and "st = snappy_transform_new max_payload (32 + max_payload + max_payload div 6)"
  shows "\<exists>z. outbound_transform s st (topic_to_string h t) d = Ok z \<and>
    (\<forall>(source :: 'peer option) seq. \<exists>msg.
       inbound_transform s st \<lparr>gm_source = source, gm_data = z, gm_sequence_number = seq, gm_topic = topic_to_string h t\<rparr> = Ok msg
       \<and> gm_source msg = source \<and> pubsub_decode h ssz ctx (gm_topic msg) (gm_data msg) = Ok m)"
proof -
  have t: "t = \<lparr>gt_encoding = GossipSSZSnappy, gt_fork_digest = digest, gt_kind = message_kind m\<rparr>"
    using assms(4) by (simp add: message_topics_def)
  have "32 + length d + length d div 6 < 2 ^ 32"
    using assms(9,10) div_le_mono [OF assms(9), of 6] by linarith
  then obtain z where z: "compress_vec s d = Ok z" "length z \<le> 32 + length d + length d div 6"
    using assms(2) unfolding snap_ok_def by blast
  have fits: "length z \<le> 32 + max_payload + max_payload div 6"
    using z(2) assms(9) div_le_mono [OF assms(9), of 6] by linarith
  have read: "decompress_vec s z = Ok d" using assms(2) z(1) by (simp add: snap_ok_def)
  have topic: "topic_decode h (topic_to_string h t) = Ok t"
    using topic_decode_print [OF assms(1), of t] assms(5,6) by (simp add: t)
  have "ssz_read (ssz (message_format m)) d = Some (message_payload m)"
    using assms(3,8) by (simp add: pubsub_encode_eq list_ssz_ok_def)
  then have decoded: "pubsub_decode h ssz ctx (topic_to_string h t) d = Ok m"
    using assms(7) by (simp add: pubsub_decode_def topic decode_kind_eq) (simp add: t)
  have "inbound_transform s st \<lparr>gm_source = source, gm_data = z, gm_sequence_number = seq, gm_topic = topic_to_string h t\<rparr>
      = Ok \<lparr>gm_source = source, gm_data = d, gm_sequence_number = seq, gm_topic = topic_to_string h t\<rparr>"
    for source :: "'peer option" and seq
    using read fits assms(9) by (simp add: inbound_transform_eq_Ok [OF assms(2)] assms(11) snappy_transform_new_def)
  moreover have "outbound_transform s st (topic_to_string h t) d = Ok z"
    using z(1) assms(9) by (simp add: outbound_transform_def assms(11) snappy_transform_new_def)
  ultimately show ?thesis using decoded by simp
qed

section \<open>Instances\<close>

definition le_bytes4 :: "nat \<Rightarrow> bytes" where
  "le_bytes4 n = map (\<lambda>i. word_of_nat (n div 256 ^ i)) [0..<4]"

text \<open>A stored snappy format, without compression: the length in four bytes, then the data.\<close>

definition demo_snap :: snap where
  "demo_snap = \<lparr>
     decompress_len = (\<lambda>z. if 4 \<le> length z \<and> take 4 z = le_bytes4 (length z - 4) then Ok (length z - 4) else Err ''corrupt''),
     decompress_vec = (\<lambda>z. if 4 \<le> length z \<and> take 4 z = le_bytes4 (length z - 4) then Ok (drop 4 z) else Err ''corrupt''),
     compress_vec = (\<lambda>d. if 32 + length d + length d div 6 < 2 ^ 32 then Ok (le_bytes4 (length d) @ d) else Err ''too big'')\<rparr>"

lemma demo_snap_ok: "snap_ok demo_snap"
  by (auto simp: snap_ok_def demo_snap_def le_bytes4_def split: if_splits)

text \<open>Containers whose SSZ form is the list of their bytes.\<close>

definition demo_gossip_ssz :: "bytes gossip_ssz" where
  "demo_gossip_ssz f = \<lparr>ssz_write = Some, ssz_read = Some\<rparr>"

theorem gossip_delivered_witness:
  "\<exists>z msg. outbound_transform demo_snap (snappy_transform_new 100 148) ''/eth2/0000000a/beacon_attestation_7/ssz_snappy'' [42, 43] = Ok z \<and>
     inbound_transform demo_snap (snappy_transform_new 100 148)
       \<lparr>gm_source = Some (3 :: nat), gm_data = z, gm_sequence_number = None,
        gm_topic = ''/eth2/0000000a/beacon_attestation_7/ssz_snappy''\<rparr> = Ok msg \<and>
     pubsub_decode demo_hex demo_gossip_ssz (demo_context 12) (gm_topic msg) (gm_data msg) = Ok (AttestationMsg 7 Phase0 [42, 43])"
proof -
  let ?m = "AttestationMsg 7 Phase0 [42, 43] :: bytes pubsub_message" and ?d = "[0, 0, 0, 10] :: digest"
  let ?t = "\<lparr>gt_encoding = GossipSSZSnappy, gt_fork_digest = ?d, gt_kind = AttestationKind 7\<rparr>"
  have fork: "get_fork_from_context_bytes (demo_context 12) ?d = Some Altair"
    by (simp add: demo_context_def fork_context_new_eq demo_schedule get_fork_from_context_bytes_def fork_at_fields)
  have 1: "\<forall>f. list_ssz_ok (demo_gossip_ssz f)" by (simp add: list_ssz_ok_def demo_gossip_ssz_def)
  have 2: "message_topics ?m GossipSSZSnappy ?d = [?t]" "length ?d = 4" "kind_index (message_kind ?m) \<le> u64_max"
    by (simp_all add: message_topics_def u64_max_def)
  have 3: "message_at_fork (get_fork_from_context_bytes (demo_context 12) ?d) ?m"
    by (simp add: fork attestation_variant_def less_eq_phase_def)
  have 4: "pubsub_encode demo_gossip_ssz ?m = Some [42, 43]" "length [42 :: 8 word, 43] \<le> 100" "32 + 100 + 100 div 6 < (2 ^ 32 :: nat)"
    "snappy_transform_new 100 148 = snappy_transform_new 100 (32 + 100 + 100 div 6)"
    by (simp_all add: demo_gossip_ssz_def)
  have name: "topic_to_string demo_hex ?t = ''/eth2/0000000a/beacon_attestation_7/ssz_snappy''"
    by code_simp
  from gossip_delivered [where 'peer = nat, OF demo_hex_ok demo_snap_ok 1 2 3 4]
  show ?thesis unfolding name by blast
qed

end
