(* ===== verification/Globals.thy ===== *)
theory Globals
  imports PeerDB Topics
begin

text \<open>
  The state that the parts of the node share, \<open>types/globals.rs\<close>. The locks around its fields are
  left out: every operation here runs under the lock it takes. Custody groups and their subnets are
  computed by other crates, the fields of the record \<open>custody_params\<close>; an \<open>expect\<close> that fails is
  \<open>None\<close>. Sets that are iterated are lists without repetition.
\<close>

record custody_params =
  is_peerdas_scheduled :: bool
  custody_requirement :: nat
  number_of_custody_groups :: nat
  sampling_size_custody_groups :: "nat \<Rightarrow> nat"
  get_custody_groups :: "nat \<Rightarrow> nat \<Rightarrow> nat list option"
  compute_subnets_from_custody_group :: "nat \<Rightarrow> nat list option"
  compute_subnet_for_data_column_sidecar :: "nat \<Rightarrow> nat"

record 'p network_globals =
  ng_config :: custody_params
  ng_node_id :: nat
  ng_peers :: "'p peer_db"
  ng_local_metadata :: meta_data
  gossipsub_subscriptions :: "gossip_topic list"
  ng_sync_state :: sync_state
  ng_sampling_subnets :: "nat list"
  target_subnet_peers :: nat
  ng_options :: "bool \<times> bool \<times> bool"

text \<open>The loop over the custody groups, extending the set of subnets.\<close>

fun extend_subnets :: "custody_params \<Rightarrow> nat list \<Rightarrow> nat list \<Rightarrow> nat list option" where
  "extend_subnets cp [] acc = Some acc"
| "extend_subnets cp (g # gs) acc =
     (case compute_subnets_from_custody_group cp g of
        None \<Rightarrow> None
      | Some ss \<Rightarrow> extend_subnets cp gs (fold List.insert ss acc))"

definition initial_custody_group_count :: "custody_params \<Rightarrow> meta_data \<Rightarrow> nat" where
  "initial_custody_group_count cp md =
     (case custody_group_count md of
        Some cgc \<Rightarrow> if cgc \<le> number_of_custody_groups cp then cgc else custody_requirement cp
      | None \<Rightarrow> custody_requirement cp)"

definition network_globals_new ::
    "custody_params \<Rightarrow> nat \<Rightarrow> nanos \<Rightarrow> meta_data \<Rightarrow> 'p list \<Rightarrow> bool \<Rightarrow> nat \<Rightarrow> bool \<times> bool \<times> bool \<Rightarrow> 'p network_globals option"
  where
  "network_globals_new cp node_id now md trusted disable target opts =
     (case get_custody_groups cp node_id (sampling_size_custody_groups cp (initial_custody_group_count cp md)) of
        None \<Rightarrow> None
      | Some groups \<Rightarrow>
          map_option (\<lambda>ss.
            \<lparr>ng_config = cp, ng_node_id = node_id, ng_peers = db_new now trusted disable, ng_local_metadata = md,
             gossipsub_subscriptions = [], ng_sync_state = Stalled, ng_sampling_subnets = ss,
             target_subnet_peers = target, ng_options = opts\<rparr>)
            (extend_subnets cp groups []))"

definition update_data_column_subnets :: "'p network_globals \<Rightarrow> nat \<Rightarrow> 'p network_globals option" where
  "update_data_column_subnets g sampling_size =
     (case get_custody_groups (ng_config g) (ng_node_id g) sampling_size of
        None \<Rightarrow> None
      | Some groups \<Rightarrow>
          map_option (\<lambda>ss. g\<lparr>ng_sampling_subnets := ss\<rparr>) (extend_subnets (ng_config g) groups (ng_sampling_subnets g)))"

definition ng_connected_peers :: "'p network_globals \<Rightarrow> nat" where
  "ng_connected_peers g = length (connected_peer_ids (ng_peers g))"

definition ng_connected_outbound_only_peers :: "'p network_globals \<Rightarrow> nat" where
  "ng_connected_outbound_only_peers g = length (connected_outbound_only_peers (ng_peers g))"

definition ng_connected_or_dialing_peers :: "'p network_globals \<Rightarrow> nat" where
  "ng_connected_or_dialing_peers g = length (connected_or_dialing_peers (ng_peers g))"

definition ng_client :: "'p network_globals \<Rightarrow> 'p \<Rightarrow> client" where
  "ng_client g p = (case peer_info_of (ng_peers g) p of Some i \<Rightarrow> pi_client i | None \<Rightarrow> client_default)"

definition ng_add_trusted_peer :: "'p network_globals \<Rightarrow> nanos \<Rightarrow> 'p \<Rightarrow> 'p network_globals" where
  "ng_add_trusted_peer g now p = g\<lparr>ng_peers := set_trusted_peer (ng_peers g) now p\<rparr>"

definition ng_remove_trusted_peer :: "'p network_globals \<Rightarrow> nanos \<Rightarrow> 'p \<Rightarrow> 'p network_globals" where
  "ng_remove_trusted_peer g now p = g\<lparr>ng_peers := unset_trusted_peer (ng_peers g) now p\<rparr>"

definition set_sync_state :: "'p network_globals \<Rightarrow> sync_state \<Rightarrow> sync_state \<times> 'p network_globals" where
  "set_sync_state g s = (ng_sync_state g, g\<lparr>ng_sync_state := s\<rparr>)"

definition custody_peers_for_column :: "'p network_globals \<Rightarrow> nat \<Rightarrow> 'p list" where
  "custody_peers_for_column g c =
     good_custody_subnet_peer (compute_subnet_for_data_column_sidecar (ng_config g) c) (ng_peers g)"

definition is_custody_peer_of :: "'p network_globals \<Rightarrow> nat \<Rightarrow> 'p \<Rightarrow> bool" where
  "is_custody_peer_of g c p =
     (case peer_info_of (ng_peers g) p of
        Some i \<Rightarrow> is_assigned_to_custody_subnet i (compute_subnet_for_data_column_sidecar (ng_config g) c)
      | None \<Rightarrow> False)"

definition as_topic_config :: "'p network_globals \<Rightarrow> topic_config" where
  "as_topic_config g =
     (case ng_options g of
        (light, all_subnets, all_columns) \<Rightarrow>
          \<lparr>enable_light_client_server = light, subscribe_all_subnets = all_subnets,
           subscribe_all_data_column_subnets = all_columns, sampling_subnets = ng_sampling_subnets g\<rparr>)"

section \<open>Sampling subnets\<close>

lemma extend_subnets_spec:
  assumes "extend_subnets cp gs acc = Some ss" "distinct acc"
  shows "distinct ss \<and> set ss = set acc \<union> (\<Union>g \<in> set gs. set (the (compute_subnets_from_custody_group cp g)))"
  using assms
proof (induction gs arbitrary: acc)
  case (Cons g gs)
  obtain xs where xs: "compute_subnets_from_custody_group cp g = Some xs"
    "extend_subnets cp gs (fold List.insert xs acc) = Some ss"
    using Cons.prems(1) by (auto split: option.splits)
  have "distinct (fold List.insert xs ys) \<and> set (fold List.insert xs ys) = set xs \<union> set ys" if "distinct ys" for ys
    using that by (induction xs arbitrary: ys) auto
  from Cons.IH [OF xs(2)] this [OF Cons.prems(2)] show ?case by (auto simp: xs(1))
qed simp

text \<open>Growing the custody keeps every subnet that was sampled.\<close>

lemma sampling_subnets_extend:
  assumes "update_data_column_subnets g n = Some g'" "distinct (ng_sampling_subnets g)"
  shows "distinct (ng_sampling_subnets g') \<and> set (ng_sampling_subnets g) \<subseteq> set (ng_sampling_subnets g')"
  using assms extend_subnets_spec by (fastforce simp: update_data_column_subnets_def split: option.splits)

end
