(* ===== verification/PeerManager.thy ===== *)
theory PeerManager
  imports Globals TimeCache "HOL-Library.Monad_Syntax"
begin

text \<open>
  The peer manager of \<open>peer_manager/mod.rs\<close> and its place in the swarm,
  \<open>peer_manager/network_behaviour.rs\<close>: it turns reports, RPC errors and connection events into
  updates of the peer database and events for the swarm, keeps the ping and status timers, asks for
  discovery and prunes excess peers at every heartbeat.

  \<open>Instant::now()\<close> is an argument. A \<open>HashSetDelay\<close> of another crate is the set of its keys; which
  keys have expired is an argument of the poll, as are the ticks of the heartbeat timer, each with
  the random order its shuffles draw. An operation that can panic has an optional result, \<open>None\<close>
  being the panic. Logging and metrics are left out.
\<close>

section \<open>State\<close>

text \<open>What the manager reads of an ENR, as the accessors of \<open>EnrExt\<close> return it.\<close>

record 'p peer_enr =
  pe_enr :: enr
  pe_peer_id :: 'p
  multiaddr_quic :: "multiaddr list"
  multiaddr_tcp :: "multiaddr list"

record subnet_discovery =
  sd_subnet :: subnet
  sd_min_ttl :: "nanos option"

datatype 'p peer_manager_event =
    PeerConnectedIncoming 'p
  | PeerConnectedOutgoing 'p
  | PeerDisconnected 'p
  | StatusPeer 'p
  | PingPeer 'p
  | MetaDataPeer 'p
  | DisconnectPeer 'p goodbye_reason
  | BannedPeer 'p "ip_addr list"
  | UnBannedPeer 'p "ip_addr list"
  | DiscoverPeers nat
  | DiscoverSubnetPeers "subnet_discovery list"

abbreviation PEER_RECONNECTION_TIMEOUT :: nanos where "PEER_RECONNECTION_TIMEOUT \<equiv> secs 600"
abbreviation MIN_SYNC_COMMITTEE_PEERS :: nat where "MIN_SYNC_COMMITTEE_PEERS \<equiv> 2"
abbreviation MIN_SAMPLING_COLUMN_SUBNET_PEERS :: nat where "MIN_SAMPLING_COLUMN_SUBNET_PEERS \<equiv> 2"

text \<open>The \<open>f32\<close> literals 0.1, 0.3, 0.2 and 0.2 in units of \<open>2 ^ - 27\<close>.\<close>

abbreviation PEER_EXCESS_FACTOR :: nat where "PEER_EXCESS_FACTOR \<equiv> 13421773"
abbreviation TARGET_OUTBOUND_ONLY_FACTOR :: nat where "TARGET_OUTBOUND_ONLY_FACTOR \<equiv> 40265320"
abbreviation MIN_OUTBOUND_ONLY_FACTOR :: nat where "MIN_OUTBOUND_ONLY_FACTOR \<equiv> 26843546"
abbreviation PRIORITY_PEER_EXCESS :: nat where "PRIORITY_PEER_EXCESS \<equiv> 26843546"

record 'p peer_manager =
  pm_globals :: "'p network_globals"
  pm_events :: "'p peer_manager_event list"
  inbound_ping_peers :: "'p set"
  outbound_ping_peers :: "'p set"
  status_peers :: "'p set"
  pm_target_peers :: nat
  peers_to_dial :: "'p peer_enr list"
  temporary_banned_peers :: "'p lru_time_cache"
  sync_committee_subnets :: "(nat \<times> nanos) list"
  subnets_by_custody_group :: "nat \<rightharpoonup> nat list"
  discovery_enabled :: bool
  quic_enabled :: bool
  pm_trusted_peers :: "'p peer_enr list"

fun custody_group_subnets :: "custody_params \<Rightarrow> nat list \<Rightarrow> (nat \<rightharpoonup> nat list) option" where
  "custody_group_subnets cp [] = Some Map.empty"
| "custody_group_subnets cp (g # gs) =
     do { ss \<leftarrow> compute_subnets_from_custody_group cp g; m \<leftarrow> custody_group_subnets cp gs; Some (m(g \<mapsto> ss)) }"

definition peer_manager_new :: "bool \<Rightarrow> bool \<Rightarrow> nat \<Rightarrow> 'p network_globals \<Rightarrow> 'p peer_manager option" where
  "peer_manager_new discovery quic target g =
     map_option (\<lambda>m.
       \<lparr>pm_globals = g, pm_events = [], inbound_ping_peers = {}, outbound_ping_peers = {}, status_peers = {},
        pm_target_peers = target, peers_to_dial = [], temporary_banned_peers = lru_new PEER_RECONNECTION_TIMEOUT,
        sync_committee_subnets = [], subnets_by_custody_group = m, discovery_enabled = discovery,
        quic_enabled = quic, pm_trusted_peers = []\<rparr>)
       (if is_peerdas_scheduled (ng_config g)
        then custody_group_subnets (ng_config g) [0..<number_of_custody_groups (ng_config g)]
        else Some Map.empty)"

abbreviation pm_db :: "'p peer_manager \<Rightarrow> 'p peer_db" where
  "pm_db m \<equiv> ng_peers (pm_globals m)"

definition put_db :: "'p peer_manager \<Rightarrow> 'p peer_db \<Rightarrow> 'p peer_manager" where
  "put_db m db = m\<lparr>pm_globals := (pm_globals m)\<lparr>ng_peers := db\<rparr>\<rparr>"

definition push_event :: "'p peer_manager \<Rightarrow> 'p peer_manager_event \<Rightarrow> 'p peer_manager" where
  "push_event m e = m\<lparr>pm_events := pm_events m @ [e]\<rparr>"

section \<open>Limits\<close>

definition max_peers :: "nat \<Rightarrow> nat" where
  "max_peers t = f32_scale_ceil t (f32_add F32_ONE PEER_EXCESS_FACTOR)"

definition max_priority_peers :: "nat \<Rightarrow> nat" where
  "max_priority_peers t = f32_scale_ceil t (f32_add (f32_add F32_ONE PEER_EXCESS_FACTOR) PRIORITY_PEER_EXCESS)"

definition min_outbound_only_peers :: "nat \<Rightarrow> nat" where
  "min_outbound_only_peers t = f32_scale_ceil t MIN_OUTBOUND_ONLY_FACTOR"

definition target_outbound_peers :: "nat \<Rightarrow> nat" where
  "target_outbound_peers t = f32_scale_ceil t TARGET_OUTBOUND_ONLY_FACTOR"

definition max_outbound_dialing_peers :: "nat \<Rightarrow> nat" where
  "max_outbound_dialing_peers t =
     f32_scale_ceil t (f32_add (f32_add F32_ONE PEER_EXCESS_FACTOR) (PRIORITY_PEER_EXCESS div 2))"

section \<open>Reports and bans\<close>

definition handle_ban_operation ::
    "'p peer_manager \<Rightarrow> nanos \<Rightarrow> 'p \<Rightarrow> ban_operation \<Rightarrow> goodbye_reason option \<Rightarrow> 'p peer_manager option" where
  "handle_ban_operation m now p op reason =
     (case op of
        TemporaryBan \<Rightarrow>
          if pm_target_peers m \<le> ng_connected_peers (pm_globals m)
          then do { (_, c) \<leftarrow> raw_insert (temporary_banned_peers m) now p;
                    Some (push_event (m\<lparr>temporary_banned_peers := c\<rparr>) (BannedPeer p [])) }
          else Some m
      | DisconnectThePeer \<Rightarrow>
          Some (push_event m (DisconnectPeer p (case reason of Some r \<Rightarrow> r | None \<Rightarrow> BadScore)))
      | PeerDisconnecting \<Rightarrow> Some m
      | ReadyToBan ips \<Rightarrow>
          do { (was_banned, c) \<leftarrow> raw_remove (temporary_banned_peers m) p;
               let m = m\<lparr>temporary_banned_peers := c\<rparr>;
               Some (if was_banned then m
                     else m\<lparr>pm_events := filter (\<lambda>e. case e of UnBannedPeer q _ \<Rightarrow> q \<noteq> p | _ \<Rightarrow> True)
                                            (pm_events m @ [BannedPeer p ips])\<rparr>) })"

definition handle_score_action ::
    "'p peer_manager \<Rightarrow> nanos \<Rightarrow> 'p \<Rightarrow> score_update_result \<Rightarrow> goodbye_reason option \<Rightarrow> 'p peer_manager option" where
  "handle_score_action m now p action reason =
     (case action of
        BanUpdate op \<Rightarrow> handle_ban_operation m now p op reason
      | DisconnectUpdate \<Rightarrow>
          Some (push_event (m\<lparr>inbound_ping_peers := inbound_ping_peers m - {p},
                             outbound_ping_peers := outbound_ping_peers m - {p}\<rparr>)
                  (DisconnectPeer p BadScore))
      | NoAction \<Rightarrow> Some m
      | UnbannedUpdate ips \<Rightarrow> Some (push_event m (UnBannedPeer p ips)))"

fun handle_score_actions ::
    "'p peer_manager \<Rightarrow> nanos \<Rightarrow> ('p \<times> score_update_result) list \<Rightarrow> 'p peer_manager option" where
  "handle_score_actions m now [] = Some m"
| "handle_score_actions m now ((p, a) # as) =
     do { m' \<leftarrow> handle_score_action m now p a None; handle_score_actions m' now as }"

definition pm_report_peer ::
    "'p peer_manager \<Rightarrow> nanos \<Rightarrow> 'p \<Rightarrow> peer_action \<Rightarrow> goodbye_reason option \<Rightarrow> 'p peer_manager option" where
  "pm_report_peer m now p action reason =
     (let (result, db) = db_report_peer (pm_db m) now p action
      in handle_score_action (put_db m db) now p result reason)"

definition goodbye_peer :: "'p peer_manager \<Rightarrow> nanos \<Rightarrow> 'p \<Rightarrow> goodbye_reason \<Rightarrow> 'p peer_manager option" where
  "goodbye_peer m now p reason =
     pm_report_peer
       (if reason = IrrelevantNetwork then put_db m (snd (db_update_sync_status (pm_db m) p IrrelevantPeer)) else m)
       now p Fatal (Some reason)"

definition pm_update_gossipsub_scores ::
    "('p \<Rightarrow> f64 option) \<Rightarrow> (('p \<times> f64) list \<Rightarrow> ('p \<times> f64) list) \<Rightarrow> 'p peer_manager \<Rightarrow> nanos \<Rightarrow> 'p peer_manager option" where
  "pm_update_gossipsub_scores gossip sort_desc m now =
     (let (actions, db) = update_gossipsub_scores gossip sort_desc (pm_db m) now (pm_target_peers m)
      in handle_score_actions (put_db m db) now actions)"

section \<open>Dialing and discovery\<close>

definition dial_peer :: "'p peer_manager \<Rightarrow> 'p peer_enr \<Rightarrow> bool \<times> 'p peer_manager" where
  "dial_peer m e =
     (if should_dial (pm_db m) (pe_peer_id e) then (True, m\<lparr>peers_to_dial := peers_to_dial m @ [e]\<rparr>) else (False, m))"

text \<open>The number of peers to ask discovery for; the subtraction would overflow below zero.\<close>

definition wanted_peers :: "nat \<Rightarrow> nat \<Rightarrow> nat \<Rightarrow> nat \<Rightarrow> nat option" where
  "wanted_peers t dialing peer_count outbound_only_peer_count =
     (if peer_count < sat_sub t dialing
      then (if peer_count \<le> sat_sub (max_peers t) dialing then Some (sat_sub (max_peers t) dialing - peer_count) else None)
      else if outbound_only_peer_count < min_outbound_only_peers t \<and> peer_count < max_outbound_dialing_peers t
      then Some (sat_sub (sat_sub (max_outbound_dialing_peers t) dialing) peer_count)
      else Some 0)"

definition maintain_peer_count :: "'p peer_manager \<Rightarrow> nat \<Rightarrow> 'p peer_manager option" where
  "maintain_peer_count m dialing =
     (if discovery_enabled m
      then do { wanted \<leftarrow> wanted_peers (pm_target_peers m) dialing (ng_connected_or_dialing_peers (pm_globals m))
                  (ng_connected_outbound_only_peers (pm_globals m));
                Some (if wanted \<noteq> 0 then push_event m (DiscoverPeers wanted) else m) }
      else Some m)"

text \<open>The loop over the results of a query; \<open>connected_or_dialing\<close> is read before it.\<close>

fun dial_discovered ::
    "nat \<Rightarrow> nanos \<Rightarrow> nat \<Rightarrow> 'p peer_manager \<Rightarrow> ('p peer_enr \<times> nanos option) list \<Rightarrow> nat \<times> 'p peer_manager" where
  "dial_discovered connected_or_dialing now to_dial m [] = (to_dial, m)"
| "dial_discovered connected_or_dialing now to_dial m ((e, ttl) # results) =
     (if e \<notin> set (peers_to_dial m) \<and>
         (ttl \<noteq> None \<and> connected_or_dialing + to_dial < max_priority_peers (pm_target_peers m)
          \<or> connected_or_dialing + to_dial < max_peers (pm_target_peers m))
      then let m = (case ttl of Some t \<Rightarrow> put_db m (update_min_ttl (pm_db m) now (pe_peer_id e) t) | None \<Rightarrow> m);
               (dialed, m) = dial_peer m e
           in dial_discovered connected_or_dialing now (if dialed then to_dial + 1 else to_dial) m results
      else dial_discovered connected_or_dialing now to_dial m results)"

definition peers_discovered ::
    "'p peer_manager \<Rightarrow> nanos \<Rightarrow> ('p peer_enr \<times> nanos option) list \<Rightarrow> 'p peer_manager option" where
  "peers_discovered m now results =
     (let (to_dial, m) = dial_discovered (ng_connected_or_dialing_peers (pm_globals m)) now 0 m results
      in if results \<noteq> [] \<and> to_dial = 0 then Some m else maintain_peer_count m to_dial)"

definition add_sync_subnet :: "'p peer_manager \<Rightarrow> nat \<Rightarrow> nanos \<Rightarrow> 'p peer_manager" where
  "add_sync_subnet m s t =
     (case map_of (sync_committee_subnets m) s of
        None \<Rightarrow> m\<lparr>sync_committee_subnets := AList.update s t (sync_committee_subnets m)\<rparr>
      | Some old \<Rightarrow> if old < t then m\<lparr>sync_committee_subnets := AList.update s t (sync_committee_subnets m)\<rparr> else m)"

definition subnets_wanted :: "subnet_discovery list \<Rightarrow> 'p peer_manager \<Rightarrow> 'p peer_manager" where
  "subnets_wanted ss m = (if ss = [] then m else push_event m (DiscoverSubnetPeers ss))"

definition maintain_sync_committee_peers :: "'p peer_manager \<Rightarrow> nanos \<Rightarrow> 'p peer_manager" where
  "maintain_sync_committee_peers m now =
     (let live = filter (\<lambda>(k, t). now < t) (sync_committee_subnets m)
      in subnets_wanted
           (List.map_filter (\<lambda>(k, t).
              if length (good_peers_on_subnet (SyncCommittee k) (pm_db m)) < target_subnet_peers (pm_globals m)
              then Some \<lparr>sd_subnet = SyncCommittee k, sd_min_ttl = Some t\<rparr> else None) live)
           (m\<lparr>sync_committee_subnets := live\<rparr>))"

definition maintain_custody_peers :: "'p peer_manager \<Rightarrow> 'p peer_manager" where
  "maintain_custody_peers m =
     subnets_wanted
       (List.map_filter (\<lambda>s.
          if has_good_peers_in_custody_subnet (pm_db m) s MIN_SAMPLING_COLUMN_SUBNET_PEERS then None
          else Some \<lparr>sd_subnet = DataColumn s, sd_min_ttl = None\<rparr>) (ng_sampling_subnets (pm_globals m)))
       m"

definition maintain_trusted_peers :: "'p peer_manager \<Rightarrow> 'p peer_manager" where
  "maintain_trusted_peers m = fold (\<lambda>e m. snd (dial_peer m e)) (pm_trusted_peers m) m"

definition pm_add_trusted_peer :: "'p peer_manager \<Rightarrow> 'p peer_enr \<Rightarrow> 'p peer_manager" where
  "pm_add_trusted_peer m e = m\<lparr>pm_trusted_peers := List.insert e (pm_trusted_peers m)\<rparr>"

definition pm_remove_trusted_peer :: "'p peer_manager \<Rightarrow> 'p peer_enr \<Rightarrow> 'p peer_manager" where
  "pm_remove_trusted_peer m e = m\<lparr>pm_trusted_peers := removeAll e (pm_trusted_peers m)\<rparr>"

section \<open>Requests and responses\<close>

definition peer_statusd :: "'p peer_manager \<Rightarrow> 'p \<Rightarrow> 'p peer_manager" where
  "peer_statusd m p = m\<lparr>status_peers := insert p (status_peers m)\<rparr>"

definition identify :: "'p peer_manager \<Rightarrow> 'p \<Rightarrow> string \<Rightarrow> string \<Rightarrow> multiaddr list \<Rightarrow> 'p peer_manager" where
  "identify m p agent protocol_ver addrs =
     (case peer_info_of (pm_db m) p of
        Some i \<Rightarrow> put_db m (put_info (pm_db m) p
                    ((snd (set_listening_addresses i addrs))\<lparr>pi_client := client_from_identify_info agent protocol_ver\<rparr>))
      | None \<Rightarrow> m)"

fun rate_limited_action :: "protocol \<Rightarrow> peer_action option" where
  "rate_limited_action LightClientBootstrap = None"
| "rate_limited_action LightClientOptimisticUpdate = None"
| "rate_limited_action LightClientFinalityUpdate = None"
| "rate_limited_action LightClientUpdatesByRange = None"
| "rate_limited_action Goodbye = Some LowToleranceError"
| "rate_limited_action MetaData = Some LowToleranceError"
| "rate_limited_action Status = Some LowToleranceError"
| "rate_limited_action _ = Some MidToleranceError"

fun unsupported_action :: "protocol \<Rightarrow> peer_action option" where
  "unsupported_action Ping = Some Fatal"
| "unsupported_action MetaData = Some Fatal"
| "unsupported_action Status = Some Fatal"
| "unsupported_action _ = None"

fun stream_timeout_action :: "protocol \<Rightarrow> peer_action option" where
  "stream_timeout_action Ping = Some LowToleranceError"
| "stream_timeout_action BlocksByRange = Some MidToleranceError"
| "stream_timeout_action BlocksByRoot = Some MidToleranceError"
| "stream_timeout_action BlobsByRange = Some MidToleranceError"
| "stream_timeout_action BlobsByRoot = Some MidToleranceError"
| "stream_timeout_action DataColumnsByRoot = Some MidToleranceError"
| "stream_timeout_action DataColumnsByRange = Some MidToleranceError"
| "stream_timeout_action _ = None"

fun error_response_action :: "protocol \<Rightarrow> rpc_error_response \<Rightarrow> connection_direction \<Rightarrow> peer_action option" where
  "error_response_action q UnknownErrorResponse d = Some HighToleranceError"
| "error_response_action q ResourceUnavailable d =
     (if q \<in> {BlobsByRoot, DataColumnsByRoot} then None
      else case d of Outgoing \<Rightarrow> Some Fatal | Incoming \<Rightarrow> None)"
| "error_response_action q ServerError d = Some MidToleranceError"
| "error_response_action q InvalidRequest d = Some LowToleranceError"
| "error_response_action q RateLimited d = rate_limited_action q"
| "error_response_action q BlobsNotFoundForBlock d = Some LowToleranceError"

fun rpc_error_action :: "protocol \<Rightarrow> rpc_error \<Rightarrow> connection_direction \<Rightarrow> peer_action option" where
  "rpc_error_action q IncompleteStream d = Some MidToleranceError"
| "rpc_error_action q (InternalError _) d = None"
| "rpc_error_action q HandlerRejected d = Some Fatal"
| "rpc_error_action q (InvalidData _) d = Some Fatal"
| "rpc_error_action q (IoError _) d = Some HighToleranceError"
| "rpc_error_action q (ErrorResponse code _) d = error_response_action q code d"
| "rpc_error_action q SszReadError d = Some Fatal"
| "rpc_error_action q SszWriteError d = Some LowToleranceError"
| "rpc_error_action q UnsupportedProtocol d = unsupported_action q"
| "rpc_error_action q StreamTimeout d = (case d of Incoming \<Rightarrow> None | Outgoing \<Rightarrow> stream_timeout_action q)"
| "rpc_error_action q NegotiationTimeout d = Some LowToleranceError"
| "rpc_error_action q DisconnectedError d = None"

definition handle_rpc_error ::
    "'p peer_manager \<Rightarrow> nanos \<Rightarrow> 'p \<Rightarrow> protocol \<Rightarrow> rpc_error \<Rightarrow> connection_direction \<Rightarrow> 'p peer_manager option" where
  "handle_rpc_error m now p q err d =
     (case rpc_error_action q err d of
        None \<Rightarrow> Some m
      | Some action \<Rightarrow> pm_report_peer m now p action None)"

definition request_newer_metadata :: "'p peer_manager \<Rightarrow> 'p \<Rightarrow> peer_info \<Rightarrow> nat \<Rightarrow> 'p peer_manager" where
  "request_newer_metadata m p i seq =
     (case pi_meta_data i of
        Some md \<Rightarrow> if seq_number md < seq then push_event m (MetaDataPeer p) else m
      | None \<Rightarrow> push_event m (MetaDataPeer p))"

definition ping_request :: "'p peer_manager \<Rightarrow> 'p \<Rightarrow> nat \<Rightarrow> 'p peer_manager" where
  "ping_request m p seq =
     (case peer_info_of (pm_db m) p of
        Some i \<Rightarrow>
          request_newer_metadata
            (case pi_connection_direction i of
               Some Incoming \<Rightarrow> m\<lparr>inbound_ping_peers := insert p (inbound_ping_peers m)\<rparr>
             | Some Outgoing \<Rightarrow> m\<lparr>outbound_ping_peers := insert p (outbound_ping_peers m)\<rparr>
             | None \<Rightarrow> m) p i seq
      | None \<Rightarrow> m)"

definition pong_response :: "'p peer_manager \<Rightarrow> 'p \<Rightarrow> nat \<Rightarrow> 'p peer_manager" where
  "pong_response m p seq =
     (case peer_info_of (pm_db m) p of Some i \<Rightarrow> request_newer_metadata m p i seq | None \<Rightarrow> m)"

text \<open>\<open>node_id_of\<close> stands for \<open>peer_id_to_node_id\<close>, the hash of the public key in a peer id.\<close>

definition compute_peer_custody_groups ::
    "custody_params \<Rightarrow> ('p \<Rightarrow> nat option) \<Rightarrow> 'p \<Rightarrow> nat \<Rightarrow> nat list option" where
  "compute_peer_custody_groups cp node_id_of p cgc =
     (case node_id_of p of
        None \<Rightarrow> None
      | Some n \<Rightarrow>
          if custody_requirement cp \<le> cgc \<and> cgc \<le> number_of_custody_groups cp then get_custody_groups cp n cgc else None)"

definition meta_data_response ::
    "('p \<Rightarrow> nat option) \<Rightarrow> 'p peer_manager \<Rightarrow> nanos \<Rightarrow> 'p \<Rightarrow> meta_data \<Rightarrow> (bool \<times> 'p peer_manager) option" where
  "meta_data_response node_id_of m now p md =
     (case peer_info_of (pm_db m) p of
        None \<Rightarrow> Some (False, m)
      | Some i \<Rightarrow>
          (let known_cgc = (case pi_meta_data i of Some known \<Rightarrow> custody_group_count known | None \<Rightarrow> None);
               i' = i\<lparr>pi_meta_data := Some md\<rparr>;
               m' = put_db m (put_info (pm_db m) p i');
               cp = ng_config (pm_globals m)
           in case (if is_peerdas_scheduled cp then custody_group_count md else None) of
                None \<Rightarrow> Some (False, m')
              | Some cgc \<Rightarrow>
                  (case compute_peer_custody_groups cp node_id_of p cgc of
                     Some groups \<Rightarrow>
                       (let subnets = remdups (concat (map (\<lambda>g. case subnets_by_custody_group m g of Some ss \<Rightarrow> ss | None \<Rightarrow> []) groups))
                        in Some (known_cgc \<noteq> Some cgc,
                                 put_db m (put_info (pm_db m) p (i'\<lparr>custody_subnets := subnets\<rparr>))))
                   | None \<Rightarrow> map_option (Pair False) (goodbye_peer m' now p Fault))))"

section \<open>Connections\<close>

datatype connecting_type = DialingConnection | IngoingConnected multiaddr | OutgoingConnected multiaddr

definition inject_peer_connection ::
    "'p peer_manager \<Rightarrow> nanos \<Rightarrow> 'p \<Rightarrow> connecting_type \<Rightarrow> enr option \<Rightarrow> bool \<times> 'p peer_manager" where
  "inject_peer_connection m now p connection e =
     (case connection of
        DialingConnection \<Rightarrow> (True, put_db m (dialing_peer (pm_db m) now p e))
      | IngoingConnected a \<Rightarrow>
          (True, (put_db m (db_connect_ingoing (pm_db m) now p a e))
                   \<lparr>inbound_ping_peers := insert p (inbound_ping_peers m), status_peers := insert p (status_peers m)\<rparr>)
      | OutgoingConnected a \<Rightarrow>
          (True, (put_db m (db_connect_outgoing (pm_db m) now p a e))
                   \<lparr>outbound_ping_peers := insert p (outbound_ping_peers m), status_peers := insert p (status_peers m)\<rparr>))"

definition pm_inject_disconnect :: "'p peer_manager \<Rightarrow> nanos \<Rightarrow> 'p \<Rightarrow> 'p peer_manager option" where
  "pm_inject_disconnect m now p =
     (let ((ban_operation, purged), db) = inject_disconnect (pm_db m) now p; m = put_db m db
      in do { m \<leftarrow> (case ban_operation of Some op \<Rightarrow> handle_ban_operation m now p op None | None \<Rightarrow> Some m);
              Some (m\<lparr>inbound_ping_peers := inbound_ping_peers m - {p}, outbound_ping_peers := outbound_ping_peers m - {p},
                      status_peers := status_peers m - {p},
                      pm_events := pm_events m @ map (\<lambda>(q, ips). UnBannedPeer q ips) purged\<rparr>) })"

definition disconnect_peer :: "'p peer_manager \<Rightarrow> nanos \<Rightarrow> 'p \<Rightarrow> goodbye_reason \<Rightarrow> 'p peer_manager" where
  "disconnect_peer m now p reason =
     (let m = push_event m (DisconnectPeer p reason) in put_db m (notify_disconnecting (pm_db m) now p False))"

datatype connected_point = Listener multiaddr | Dialer multiaddr

definition on_connection_established :: "'p peer_manager \<Rightarrow> nanos \<Rightarrow> 'p \<Rightarrow> connected_point \<Rightarrow> 'p peer_manager" where
  "on_connection_established m now p endpoint =
     (case endpoint of
        Listener a \<Rightarrow> push_event (snd (inject_peer_connection m now p (IngoingConnected a) None)) (PeerConnectedIncoming p)
      | Dialer a \<Rightarrow> push_event (snd (inject_peer_connection m now p (OutgoingConnected a) None)) (PeerConnectedOutgoing p))"

definition pm_connection_closed :: "'p peer_manager \<Rightarrow> nanos \<Rightarrow> 'p \<Rightarrow> nat \<Rightarrow> 'p peer_manager option" where
  "pm_connection_closed m now p remaining_established =
     (if 0 < remaining_established then Some m
      else pm_inject_disconnect
             (if is_connected_or_disconnecting (pm_db m) p then push_event m (PeerDisconnected p) else m) now p)"

definition pm_dial_failure :: "'p peer_manager \<Rightarrow> nanos \<Rightarrow> 'p option \<Rightarrow> 'p peer_manager option" where
  "pm_dial_failure m now peer =
     (case peer of
        Some p \<Rightarrow> if db_is_connected (pm_db m) p then Some m else pm_inject_disconnect m now p
      | None \<Rightarrow> Some m)"

text \<open>The hooks that can deny a connection.\<close>

datatype connection_denied = InvalidMultiaddr | IpBanned ip_addr | BadScoreDenied | TooManyConnections | BanCause ban_result

definition handle_pending_inbound_connection :: "'p peer_manager \<Rightarrow> multiaddr \<Rightarrow> (unit, connection_denied) result" where
  "handle_pending_inbound_connection m remote_addr =
     (case remote_addr of
        Ip6 ip # _ \<Rightarrow> if is_ip_banned (pm_db m) (IpV6 ip) then Err (IpBanned (IpV6 ip)) else Ok ()
      | Ip4 ip # _ \<Rightarrow> if is_ip_banned (pm_db m) (IpV4 ip) then Err (IpBanned (IpV4 ip)) else Ok ()
      | _ \<Rightarrow> Err InvalidMultiaddr)"

definition without_duty :: "'p peer_manager \<Rightarrow> nanos \<Rightarrow> 'p \<Rightarrow> bool" where
  "without_duty m now p = (case peer_info_of (pm_db m) p of None \<Rightarrow> True | Some i \<Rightarrow> \<not> has_future_duty i now)"

definition handle_established_inbound_connection ::
    "'p peer_manager \<Rightarrow> nanos \<Rightarrow> 'p \<Rightarrow> (unit, connection_denied) result" where
  "handle_established_inbound_connection m now p =
     (if ban_status (pm_db m) p \<noteq> None then Err BadScoreDenied
      else if max_peers (pm_target_peers m) \<le> ng_connected_or_dialing_peers (pm_globals m) \<and> without_duty m now p
      then Err TooManyConnections
      else Ok ())"

definition handle_established_outbound_connection ::
    "'p peer_manager \<Rightarrow> nanos \<Rightarrow> 'p \<Rightarrow> (unit, connection_denied) result" where
  "handle_established_outbound_connection m now p =
     (case ban_status (pm_db m) p of
        Some cause \<Rightarrow> Err (BanCause cause)
      | None \<Rightarrow>
          if max_outbound_dialing_peers (pm_target_peers m) \<le> ng_connected_peers (pm_globals m) \<and> without_duty m now p
          then Err TooManyConnections
          else Ok ())"

section \<open>Pruning\<close>

record peer_subnet_info =
  psi_info :: peer_info
  attestation_subnets :: "nat list"
  sync_committees :: "nat list"
  psi_custody_subnets :: "nat list"

definition peer_subnet_info_of :: "peer_info \<Rightarrow> peer_subnet_info" where
  "peer_subnet_info_of i =
     \<lparr>psi_info = i,
      attestation_subnets = remdups (List.map_filter (\<lambda>s. case s of Attestation n \<Rightarrow> Some n | _ \<Rightarrow> None) (long_lived_subnets i)),
      sync_committees = remdups (List.map_filter (\<lambda>s. case s of SyncCommittee n \<Rightarrow> Some n | _ \<Rightarrow> None) (long_lived_subnets i)),
      psi_custody_subnets = remdups (List.map_filter (\<lambda>s. case s of DataColumn n \<Rightarrow> Some n | _ \<Rightarrow> None) (long_lived_subnets i))\<rparr>"

definition build_peer_subnet_info :: "'p peer_db \<Rightarrow> 'p list \<Rightarrow> ('p \<times> peer_subnet_info) list" where
  "build_peer_subnet_info db to_prune =
     map (\<lambda>(p, i). (p, peer_subnet_info_of i))
       (filter (\<lambda>(p, i). \<not> is_trusted i \<and> p \<notin> set to_prune) (connected_peers db))"

definition push_peer :: "nat \<Rightarrow> 'p \<Rightarrow> (nat \<times> 'p list) list \<Rightarrow> (nat \<times> 'p list) list" where
  "push_peer s p m = AList.update s ((case map_of m s of Some ps \<Rightarrow> ps | None \<Rightarrow> []) @ [p]) m"

definition build_custody_subnet_lookup :: "('p \<times> peer_subnet_info) list \<Rightarrow> (nat \<times> 'p list) list" where
  "build_custody_subnet_lookup infos =
     fold (\<lambda>(p, i) m. fold (\<lambda>s m. push_peer s p m) (psi_custody_subnets i) m) infos []"

definition count_subnet :: "nat \<Rightarrow> (nat \<times> nat) list \<Rightarrow> (nat \<times> nat) list" where
  "count_subnet s m = AList.update s ((case map_of m s of Some n \<Rightarrow> n | None \<Rightarrow> 0) + 1) m"

definition attestation_subnet_counts :: "('p \<times> peer_subnet_info) list \<Rightarrow> (nat \<times> nat) list" where
  "attestation_subnet_counts infos = fold count_subnet (concat (map (\<lambda>(p, i). attestation_subnets i) infos)) []"

definition should_protect_peer ::
    "nat \<Rightarrow> peer_subnet_info \<Rightarrow> nat list \<Rightarrow> (nat \<times> 'p list) list \<Rightarrow> ('p \<times> peer_subnet_info) list \<Rightarrow> nat \<Rightarrow> nat \<Rightarrow> bool" where
  "should_protect_peer t candidate sampling lookup infos outbound_count outbound_pruned \<longleftrightarrow>
     is_outbound_only (psi_info candidate) \<and> sat_sub outbound_count outbound_pruned \<le> target_outbound_peers t
     \<or> list_ex (\<lambda>s. s \<in> set sampling \<and>
          length (case map_of lookup s of Some ps \<Rightarrow> ps | None \<Rightarrow> []) \<le> MIN_SAMPLING_COLUMN_SUBNET_PEERS)
          (psi_custody_subnets candidate)
     \<or> list_ex (\<lambda>c. length (filter (\<lambda>(p, i). c \<in> set (sync_committees i)) infos) \<le> MIN_SYNC_COMMITTEE_PEERS)
          (sync_committees candidate)
     \<or> (let counts = attestation_subnet_counts infos in
        counts \<noteq> [] \<and>
        list_ex (\<lambda>s. map_of counts s = Some (Min (set (map snd counts)))) (attestation_subnets candidate))"

text \<open>
  A shuffle orders the peers by numbers drawn at random; the stable sort after it is by the number of
  custody subnets, then unsynced peers first.
\<close>

definition prune_order :: "('p \<Rightarrow> nat) \<Rightarrow> ('p \<times> peer_subnet_info) list \<Rightarrow> 'p list \<Rightarrow> 'p list" where
  "prune_order draw infos ps =
     sort_key (\<lambda>p. case map_of infos p of
         Some i \<Rightarrow> 2 * custody_subnet_count (psi_info i) + (if is_synced_or_advanced (psi_info i) then 1 else 0)
       | None \<Rightarrow> 0) (sort_key draw ps)"

definition find_prune_candidate ::
    "nat \<Rightarrow> ('p \<Rightarrow> nat) \<Rightarrow> nat \<Rightarrow> (nat \<times> 'p list) list \<Rightarrow> ('p \<times> peer_subnet_info) list \<Rightarrow> nat list \<Rightarrow> nat \<Rightarrow> nat \<Rightarrow> 'p option"
  where
  "find_prune_candidate t draw subnet lookup infos sampling outbound_count outbound_pruned =
     (case map_of lookup subnet of
        None \<Rightarrow> None
      | Some ps \<Rightarrow>
          find (\<lambda>p. case map_of infos p of
                      None \<Rightarrow> False
                    | Some i \<Rightarrow> \<not> should_protect_peer t i sampling lookup infos outbound_count outbound_pruned)
            (prune_order draw infos ps))"

text \<open>\<open>max_by_key\<close> returns the last of the largest.\<close>

fun densest_subnet :: "(nat \<times> 'p list) list \<Rightarrow> (nat \<times> 'p list) option" where
  "densest_subnet [] = None"
| "densest_subnet ((s, ps) # m) =
     (case densest_subnet m of
        Some (s', ps') \<Rightarrow> if length ps \<le> length ps' then Some (s', ps') else Some (s, ps)
      | None \<Rightarrow> if ps = [] then None else Some (s, ps))"

text \<open>The \<open>while\<close> loop, from its state: the peers to prune, how many of them are outbound only, and the two maps.\<close>

partial_function (option) prune_densest ::
    "nat \<Rightarrow> (nat \<Rightarrow> 'p \<Rightarrow> nat) \<Rightarrow> nat \<Rightarrow> nat list \<Rightarrow> nat \<Rightarrow> nat \<Rightarrow> 'p list \<Rightarrow> nat \<Rightarrow>
     ('p \<times> peer_subnet_info) list \<Rightarrow> (nat \<times> 'p list) list \<Rightarrow> 'p list option" where
  "prune_densest t draws excess sampling outbound_count k to_prune outbound_pruned infos lookup =
     (if excess \<le> length to_prune then Some to_prune
      else case densest_subnet lookup of
        None \<Rightarrow> Some to_prune
      | Some (s, _) \<Rightarrow>
          (case find_prune_candidate t (draws k) s lookup infos sampling outbound_count outbound_pruned of
             Some p \<Rightarrow>
               prune_densest t draws excess sampling outbound_count (Suc k) (to_prune @ [p])
                 (case map_of infos p of
                    Some i \<Rightarrow> if is_outbound_only (psi_info i) then outbound_pruned + 1 else outbound_pruned
                  | None \<Rightarrow> outbound_pruned)
                 (AList.delete p infos) (map (\<lambda>(s, ps). (s, filter (\<lambda>q. q \<noteq> p) ps)) lookup)
           | None \<Rightarrow>
               prune_densest t draws excess sampling outbound_count (Suc k) to_prune outbound_pruned infos
                 (AList.update s [] lookup)))"

declare prune_densest.simps [code]

text \<open>The macro \<open>prune_peers\<close>, over the candidates that pass its filters.\<close>

fun prune_peers :: "nat \<Rightarrow> nat \<Rightarrow> nat \<Rightarrow> 'p list \<times> nat \<Rightarrow> ('p \<times> peer_info) list \<Rightarrow> 'p list \<times> nat" where
  "prune_peers t excess outbound_count (to_prune, outbound_pruned) [] = (to_prune, outbound_pruned)"
| "prune_peers t excess outbound_count (to_prune, outbound_pruned) ((p, i) # cands) =
     (if excess \<le> length to_prune then (to_prune, outbound_pruned)
      else if p \<in> set to_prune then prune_peers t excess outbound_count (to_prune, outbound_pruned) cands
      else if is_outbound_only i
      then (if target_outbound_peers t + outbound_pruned < outbound_count
            then prune_peers t excess outbound_count (to_prune @ [p], outbound_pruned + 1) cands
            else prune_peers t excess outbound_count (to_prune, outbound_pruned) cands)
      else prune_peers t excess outbound_count (to_prune @ [p], outbound_pruned) cands)"

definition prune_candidates :: "'p peer_db \<Rightarrow> nanos \<Rightarrow> (peer_info \<Rightarrow> bool) \<Rightarrow> ('p \<times> peer_info) list" where
  "prune_candidates db now f =
     filter (\<lambda>(p, i). \<not> has_future_duty i now \<and> \<not> is_trusted i \<and> f i) (worst_connected_peers db)"

definition peers_to_prune :: "'p peer_manager \<Rightarrow> nanos \<Rightarrow> (nat \<Rightarrow> 'p \<Rightarrow> nat) \<Rightarrow> 'p list option" where
  "peers_to_prune m now draws =
     (let g = pm_globals m; db = pm_db m; t = pm_target_peers m;
          excess = sat_sub (ng_connected_peers g) t;
          outbound_count = ng_connected_outbound_only_peers g;
          st = prune_peers t excess outbound_count ([], 0)
                 (prune_candidates db now (\<lambda>i. f64_lt (score_value (pi_score i)) (Fin 0)));
          (to_prune, outbound_pruned) =
            (if length (fst st) < excess
             then prune_peers t excess outbound_count st (prune_candidates db now (\<lambda>i. \<not> has_long_lived_subnet i))
             else st);
          infos = build_peer_subnet_info db to_prune
      in prune_densest t draws excess (ng_sampling_subnets g) outbound_count 0 to_prune outbound_pruned infos
           (build_custody_subnet_lookup infos))"

definition prune_excess_peers :: "'p peer_manager \<Rightarrow> nanos \<Rightarrow> (nat \<Rightarrow> 'p \<Rightarrow> nat) \<Rightarrow> 'p peer_manager option" where
  "prune_excess_peers m now draws =
     (if ng_connected_peers (pm_globals m) \<le> pm_target_peers m then Some m
      else map_option (\<lambda>ps. fold (\<lambda>p m. disconnect_peer m now p TooManyPeers) ps m) (peers_to_prune m now draws))"

section \<open>The heartbeat and the poll\<close>

definition unban_temporary_banned_peers :: "'p peer_manager \<Rightarrow> nanos \<Rightarrow> 'p peer_manager" where
  "unban_temporary_banned_peers m now =
     (let (expired, c) = remove_expired (temporary_banned_peers m) now
      in m\<lparr>temporary_banned_peers := c, pm_events := pm_events m @ map (\<lambda>p. UnBannedPeer p []) expired\<rparr>)"

definition heartbeat :: "'p peer_manager \<Rightarrow> nanos \<Rightarrow> (nat \<Rightarrow> 'p \<Rightarrow> nat) \<Rightarrow> 'p peer_manager option" where
  "heartbeat m now draws =
     do { m \<leftarrow> maintain_peer_count m 0;
          let m = maintain_trusted_peers m;
          let m = put_db m (cleanup_dialing_peers (pm_db m) now);
          let (actions, db) = update_scores (pm_db m) now;
          m \<leftarrow> handle_score_actions (put_db m db) now actions;
          let m = (if list_ex (\<lambda>t. case gt_kind t of DataColumnSidecarKind _ \<Rightarrow> True | _ \<Rightarrow> False)
                        (gossipsub_subscriptions (pm_globals m))
                   then maintain_custody_peers m else m);
          let m = maintain_sync_committee_peers m now;
          m \<leftarrow> prune_excess_peers m now draws;
          Some (unban_temporary_banned_peers m now) }"

fun heartbeats :: "'p peer_manager \<Rightarrow> nanos \<Rightarrow> (nat \<Rightarrow> 'p \<Rightarrow> nat) list \<Rightarrow> 'p peer_manager option" where
  "heartbeats m now [] = Some m"
| "heartbeats m now (draws # ticks) = do { m' \<leftarrow> heartbeat m now draws; heartbeats m' now ticks }"

datatype 'p poll_result = GenerateEvent "'p peer_manager_event" | Dial 'p "multiaddr list" | PollPending

definition ping_expired :: "'p list \<Rightarrow> 'p list \<Rightarrow> 'p peer_manager \<Rightarrow> 'p peer_manager" where
  "ping_expired inbound outbound m =
     m\<lparr>inbound_ping_peers := inbound_ping_peers m \<union> set inbound,
       outbound_ping_peers := outbound_ping_peers m \<union> set outbound,
       pm_events := pm_events m @ map PingPeer inbound @ map PingPeer outbound\<rparr>"

definition status_expired :: "'p list \<Rightarrow> 'p peer_manager \<Rightarrow> 'p peer_manager" where
  "status_expired expired m =
     (case ng_sync_state (pm_globals m) of
        SyncingFinalized _ _ \<Rightarrow> m
      | SyncingHead _ _ \<Rightarrow> m
      | _ \<Rightarrow> m\<lparr>status_peers := status_peers m \<union> set expired, pm_events := pm_events m @ map StatusPeer expired\<rparr>)"

definition pm_poll ::
    "'p peer_manager \<Rightarrow> nanos \<Rightarrow> (nat \<Rightarrow> 'p \<Rightarrow> nat) list \<Rightarrow> 'p list \<Rightarrow> 'p list \<Rightarrow> 'p list \<Rightarrow> ('p poll_result \<times> 'p peer_manager) option" where
  "pm_poll m now ticks inbound outbound statuses =
     do { m \<leftarrow> heartbeats m now ticks;
          let m = status_expired statuses (ping_expired inbound outbound m);
          case pm_events m of
            e # es \<Rightarrow> Some (GenerateEvent e, m\<lparr>pm_events := es\<rparr>)
          | [] \<Rightarrow>
              (case rev (peers_to_dial m) of
                 [] \<Rightarrow> Some (PollPending, m)
               | e # rest \<Rightarrow>
                   (let m = snd (inject_peer_connection (m\<lparr>peers_to_dial := rev rest\<rparr>) now (pe_peer_id e) DialingConnection
                                   (Some (pe_enr e)))
                    in Some (Dial (pe_peer_id e) ((if quic_enabled m then multiaddr_quic e else []) @ multiaddr_tcp e), m))) }"

end
