(* ===== verification/PeerPruning.thy ===== *)
theory PeerPruning
  imports PeerManager PeerDBProperties
begin

text \<open>
  The pruning of excess peers at a heartbeat, \<open>prune_excess_peers\<close> of \<open>peer_manager/mod.rs\<close>: the loop over
  the densest custody subnets returns, and what it and the loops before it select keeps the limits of
  the manager.
\<close>

section \<open>The densest subnet and its candidate\<close>

lemma densest_subnet_Some:
  "densest_subnet m = Some (s, ps) \<Longrightarrow> (s, ps) \<in> set m \<and> ps \<noteq> []"
  by (induction m arbitrary: s ps rule: densest_subnet.induct) (auto split: option.splits if_splits)

lemma set_prune_order [simp]: "set (prune_order draw infos ps) = set ps"
  by (simp add: prune_order_def)

lemma find_prune_candidate_Some:
  assumes "find_prune_candidate t draw s lookup infos sampling oc op = Some p"
  obtains ps i where "map_of lookup s = Some ps" "p \<in> set ps" "map_of infos p = Some i"
    "\<not> should_protect_peer t i sampling lookup infos oc op"
proof -
  obtain ps where ps: "map_of lookup s = Some ps"
    "find (\<lambda>p. case map_of infos p of None \<Rightarrow> False
        | Some i \<Rightarrow> \<not> should_protect_peer t i sampling lookup infos oc op) (prune_order draw infos ps) = Some p"
    using assms by (auto simp: find_prune_candidate_def split: option.splits)
  then have "p \<in> set ps" "\<exists>i. map_of infos p = Some i \<and> \<not> should_protect_peer t i sampling lookup infos oc op"
    by (auto simp: find_Some_iff split: option.splits) (metis nth_mem set_prune_order)
  then show ?thesis using that ps(1) by blast
qed

section \<open>Termination\<close>

definition lookup_size :: "(nat \<times> 'p list) list \<Rightarrow> nat" where
  "lookup_size m = sum_list (map (\<lambda>x. length (snd x)) m)"

definition without_peer :: "'p \<Rightarrow> (nat \<times> 'p list) list \<Rightarrow> (nat \<times> 'p list) list" where
  "without_peer p m = map (\<lambda>(s, ps). (s, filter (\<lambda>q. q \<noteq> p) ps)) m"

lemma keys_without_peer [simp]: "map fst (without_peer p m) = map fst m"
  by (auto simp: without_peer_def)

lemma lookup_size_without: "(s, ps) \<in> set m \<Longrightarrow> p \<in> set ps \<Longrightarrow> lookup_size (without_peer p m) < lookup_size m"
proof (induction m)
  case (Cons x m)
  have le: "lookup_size (without_peer p m) \<le> lookup_size m" for m :: "(nat \<times> 'a list) list"
    by (induction m) (auto simp: lookup_size_def without_peer_def intro: add_mono length_filter_le)
  have "length (filter (\<lambda>q. q \<noteq> p) xs) < length xs" if "p \<in> set xs" for xs
    using that by (induction xs) (auto simp: less_Suc_eq_le)
  then show ?case
    using Cons le [of m] length_filter_le [of "\<lambda>q. q \<noteq> p" "snd x"]
    by (cases x) (auto simp: lookup_size_def without_peer_def intro: add_less_le_mono add_le_less_mono)
qed simp

lemma lookup_size_clear:
  "(s, ps) \<in> set m \<Longrightarrow> ps \<noteq> [] \<Longrightarrow> distinct (map fst m) \<Longrightarrow> lookup_size (AList.update s [] m) < lookup_size m"
proof (induction m)
  case (Cons x m)
  show ?case
  proof (cases "fst x = s")
    case True
    then have "snd x = ps" using Cons.prems by (cases x) (force simp: image_iff)
    then show ?thesis using True Cons.prems(2) by (cases x) (simp add: lookup_size_def)
  qed (use Cons in \<open>cases x; auto simp: lookup_size_def\<close>)
qed simp

text \<open>Every iteration removes an entry of the lookup.\<close>

lemma prune_densest_returns:
  "distinct (map fst lookup) \<Longrightarrow> \<exists>r. prune_densest t draws excess sampling oc k to_prune op infos lookup = Some r"
proof (induction "lookup_size lookup" arbitrary: k to_prune op infos lookup rule: less_induct)
  case less
  show ?case
  proof (cases "excess \<le> length to_prune \<or> densest_subnet lookup = None")
    case True
    then show ?thesis by (subst prune_densest.simps) auto
  next
    case False
    then obtain s ps where d: "densest_subnet lookup = Some (s, ps)" by auto
    note ds = densest_subnet_Some [OF d]
    show ?thesis
    proof (cases "find_prune_candidate t (draws k) s lookup infos sampling oc op")
      case None
      have "lookup_size (AList.update s [] lookup) < lookup_size lookup"
        using lookup_size_clear ds less.prems by blast
      from less.hyps [OF this] less.prems show ?thesis
        using False by (subst prune_densest.simps) (simp add: d None distinct_update)
    next
      case (Some p)
      have "map_of lookup s = Some ps" using ds less.prems by simp
      with Some have "p \<in> set ps" by (auto elim: find_prune_candidate_Some)
      then have "lookup_size (without_peer p lookup) < lookup_size lookup"
        by (rule lookup_size_without [OF conjunct1 [OF ds]])
      from less.hyps [OF this] less.prems show ?thesis
        using False by (subst prune_densest.simps) (simp add: d Some without_peer_def [symmetric])
    qed
  qed
qed

lemma distinct_lookup: "distinct (map fst (build_custody_subnet_lookup infos))"
proof -
  have "distinct (map fst (fold (\<lambda>s m. push_peer s p m) ss m))" if "distinct (map fst m)" for p ss and m :: "(nat \<times> 'a list) list"
    using that by (induction ss arbitrary: m) (auto simp: push_peer_def distinct_update)
  then have "distinct (map fst (fold (\<lambda>(p, i) m. fold (\<lambda>s m. push_peer s p m) (psi_custody_subnets i) m) infos m))"
    if "distinct (map fst m)" for m :: "(nat \<times> 'a list) list"
    using that by (induction infos arbitrary: m) (auto simp: case_prod_beta)
  then show ?thesis by (simp add: build_custody_subnet_lookup_def)
qed

lemma peers_to_prune_returns: "\<exists>ps. peers_to_prune m now draws = Some ps"
  by (auto simp: peers_to_prune_def Let_def case_prod_beta intro: prune_densest_returns [OF distinct_lookup])

section \<open>What is selected\<close>

definition outbound :: "'p peer_db \<Rightarrow> 'p \<Rightarrow> bool" where
  "outbound db p \<longleftrightarrow> (case peer_info_of db p of Some i \<Rightarrow> is_outbound_only i | None \<Rightarrow> False)"

definition prunable :: "'p peer_db \<Rightarrow> 'p \<Rightarrow> bool" where
  "prunable db p \<longleftrightarrow> (\<exists>i. peer_info_of db p = Some i \<and> is_connected i \<and> \<not> is_trusted i)"

text \<open>The state of the three loops: \<open>oc\<close> outbound-only peers are connected, \<open>op\<close> of them selected.\<close>

definition selection_ok :: "'p peer_db \<Rightarrow> nat \<Rightarrow> nat \<Rightarrow> nat \<Rightarrow> 'p list \<Rightarrow> nat \<Rightarrow> bool" where
  "selection_ok db t excess oc ps op \<longleftrightarrow>
     distinct ps \<and> length ps \<le> excess \<and> (\<forall>p \<in> set ps. prunable db p) \<and>
     op = length (filter (outbound db) ps) \<and> (op = 0 \<or> target_outbound_peers t + op \<le> oc)"

lemma selection_ok_snoc:
  assumes "selection_ok db t excess oc ps op" "length ps < excess" "p \<notin> set ps" "prunable db p"
    "outbound db p \<Longrightarrow> target_outbound_peers t + op < oc"
  shows "selection_ok db t excess oc (ps @ [p]) (if outbound db p then op + 1 else op)"
  using assms by (auto simp: selection_ok_def)

lemma prune_peers_ok:
  assumes "selection_ok db t excess oc (fst st) (snd st)" "\<And>x. x \<in> set cands \<Longrightarrow>
      peer_info_of db (fst x) = Some (snd x) \<and> is_connected (snd x) \<and> \<not> is_trusted (snd x)"
  shows "selection_ok db t excess oc (fst (prune_peers t excess oc st cands)) (snd (prune_peers t excess oc st cands))"
  using assms
proof (induction t excess oc st cands rule: prune_peers.induct)
  case (2 t excess oc ps op p i cands)
  have p: "prunable db p" "outbound db p = is_outbound_only i"
    using 2(6) [of "(p, i)"] by (auto simp: prunable_def outbound_def)
  note rest = 2(6)
  consider "excess \<le> length ps" | "p \<in> set ps" "length ps < excess"
    | "length ps < excess" "p \<notin> set ps" "is_outbound_only i" "\<not> target_outbound_peers t + op < oc"
    | "length ps < excess" "p \<notin> set ps" "is_outbound_only i \<Longrightarrow> target_outbound_peers t + op < oc"
    by linarith
  then show ?case
  proof cases
    case 4
    then have "selection_ok db t excess oc (ps @ [p]) (if is_outbound_only i then op + 1 else op)"
      using selection_ok_snoc [of db t excess oc ps op p] 2(5) p by simp
    then show ?thesis using 2(2,4) 4 rest by (cases "is_outbound_only i") auto
  qed (use 2 in auto)
qed simp

lemma info_outbound: "map_of infos p = Some i \<Longrightarrow> list_all (\<lambda>x. peer_info_of db (fst x) = Some (psi_info (snd x))) infos \<Longrightarrow>
    outbound db p = is_outbound_only (psi_info i)"
  by (auto simp: outbound_def list_all_iff dest!: map_of_SomeD bspec)

lemma prune_densest_ok:
  assumes "prune_densest t draws excess sampling oc k ps op infos lookup = Some r"
    "selection_ok db t excess oc ps op" "distinct (map fst lookup)"
    "list_all (\<lambda>x. peer_info_of db (fst x) = Some (psi_info (snd x)) \<and> prunable db (fst x) \<and> fst x \<notin> set ps) infos"
  shows "\<exists>op'. selection_ok db t excess oc r op'"
  using assms
proof (induction "lookup_size lookup" arbitrary: k ps op infos lookup rule: less_induct)
  case less
  show ?case
  proof (cases "excess \<le> length ps \<or> densest_subnet lookup = None")
    case True
    then have "r = ps" using less.prems(1) by (subst (asm) prune_densest.simps) (auto split: if_splits)
    then show ?thesis using less.prems(2) by auto
  next
    case False
    then obtain s xs where d: "densest_subnet lookup = Some (s, xs)" by auto
    note ds = densest_subnet_Some [OF d]
    show ?thesis
    proof (cases "find_prune_candidate t (draws k) s lookup infos sampling oc op")
      case None
      have small: "lookup_size (AList.update s [] lookup) < lookup_size lookup"
        using lookup_size_clear ds less.prems(3) by blast
      have "prune_densest t draws excess sampling oc (Suc k) ps op infos (AList.update s [] lookup) = Some r"
        using less.prems(1) False by (subst (asm) prune_densest.simps) (simp add: d None)
      from less.hyps [OF small this less.prems(2) _ less.prems(4)] show ?thesis
        using less.prems(3) by (simp add: distinct_update)
    next
      case (Some p)
      then obtain xs' i where c: "p \<in> set xs'" "map_of lookup s = Some xs'" "map_of infos p = Some i"
        "\<not> should_protect_peer t i sampling lookup infos oc op"
        by (auto elim: find_prune_candidate_Some)
      have "(p, i) \<in> set infos" using c(3) by (rule map_of_SomeD)
      then have p: "peer_info_of db p = Some (psi_info i)" "prunable db p" "p \<notin> set ps"
        using less.prems(4) by (auto simp: list_all_iff)
      then have out: "outbound db p = is_outbound_only (psi_info i)" by (simp add: outbound_def)
      have "outbound db p \<Longrightarrow> target_outbound_peers t + op < oc"
        using c(4) unfolding out should_protect_peer_def sat_sub_def by linarith
      then have ok: "selection_ok db t excess oc (ps @ [p]) (if is_outbound_only (psi_info i) then op + 1 else op)"
        using selection_ok_snoc [OF less.prems(2) _ p(3,2)] False out by auto
      have small: "lookup_size (without_peer p lookup) < lookup_size lookup"
        using lookup_size_without [OF map_of_SomeD [OF c(2)] c(1)] .
      have "prune_densest t draws excess sampling oc (Suc k) (ps @ [p])
          (if is_outbound_only (psi_info i) then op + 1 else op) (AList.delete p infos) (without_peer p lookup) = Some r"
        using less.prems(1) False by (subst (asm) prune_densest.simps) (simp add: d Some c(3) without_peer_def)
      moreover have "list_all (\<lambda>x. peer_info_of db (fst x) = Some (psi_info (snd x)) \<and> prunable db (fst x) \<and>
          fst x \<notin> set (ps @ [p])) (AList.delete p infos)"
        using less.prems(4) by (auto simp: list_all_iff AList.delete_eq)
      ultimately show ?thesis using less.hyps [OF small _ ok] less.prems(3) by simp
    qed
  qed
qed

lemma connected_entry:
  assumes "distinct (keys_of db)" "(p, i) \<in> set (peers db)"
  shows "peer_info_of db p = Some i"
  using assms by (simp add: peer_info_of_def keys_of_def)

lemma peers_to_prune_ok:
  assumes "distinct (keys_of (pm_db m))" "peers_to_prune m now draws = Some ps"
  defines "excess \<equiv> ng_connected_peers (pm_globals m) - pm_target_peers m"
  shows "\<exists>op. selection_ok (pm_db m) (pm_target_peers m) excess (ng_connected_outbound_only_peers (pm_globals m)) ps op"
proof -
  let ?db = "pm_db m" and ?t = "pm_target_peers m" and ?oc = "ng_connected_outbound_only_peers (pm_globals m)"
  let ?c = "\<lambda>f. prune_candidates ?db now f"
  define st where "st = prune_peers ?t excess ?oc ([], 0) (?c (\<lambda>i. f64_lt (score_value (pi_score i)) (Fin 0)))"
  define st2 where "st2 = (if length (fst st) < excess then prune_peers ?t excess ?oc st (?c (\<lambda>i. \<not> has_long_lived_subnet i)) else st)"
  have cands: "peer_info_of ?db (fst x) = Some (snd x) \<and> is_connected (snd x) \<and> \<not> is_trusted (snd x)" if "x \<in> set (?c f)" for x f
    using that connected_entry [OF assms(1), of "fst x" "snd x"]
    by (auto simp: prune_candidates_def worst_connected_peers_def)
  have "selection_ok ?db ?t excess ?oc [] 0" by (simp add: selection_ok_def)
  then have "selection_ok ?db ?t excess ?oc (fst st) (snd st)"
    unfolding st_def using prune_peers_ok [of ?db ?t excess ?oc "([], 0)"] cands by simp
  then have ok: "selection_ok ?db ?t excess ?oc (fst st2) (snd st2)"
    unfolding st2_def using prune_peers_ok [OF _ cands] by simp
  let ?infos = "build_peer_subnet_info ?db (fst st2)"
  have "list_all (\<lambda>x. peer_info_of ?db (fst x) = Some (psi_info (snd x)) \<and> prunable ?db (fst x) \<and> fst x \<notin> set (fst st2)) ?infos"
    using connected_entry [OF assms(1)]
    by (auto simp: list_all_iff build_peer_subnet_info_def connected_peers_def peer_subnet_info_of_def prunable_def)
  moreover have "prune_densest ?t draws excess (ng_sampling_subnets (pm_globals m)) ?oc 0 (fst st2) (snd st2) ?infos
      (build_custody_subnet_lookup ?infos) = Some ps"
    using assms(2) unfolding peers_to_prune_def Let_def case_prod_beta sat_sub_def st2_def st_def excess_def .
  ultimately show ?thesis using prune_densest_ok [OF _ ok distinct_lookup] by blast
qed

section \<open>The database after pruning\<close>

lemma ids_where_keys:
  "distinct (keys_of db) \<Longrightarrow> ids_where P db = filter (\<lambda>p. \<exists>i. peer_info_of db p = Some i \<and> P i) (keys_of db)"
  unfolding ids_where_def keys_of_def filter_map comp_def peer_info_of_def
  by (intro arg_cong [where f = "map fst"] filter_cong) (auto dest: eq_key_imp_eq_value)

definition disconnecting :: "peer_info \<Rightarrow> peer_info" where
  "disconnecting i = i\<lparr>connection_status := Disconnecting False\<rparr>"

lemma notify_connected:
  assumes "prunable db p"
  shows "peer_info_of (notify_disconnecting db now p False) q =
      (if q = p then map_option disconnecting (peer_info_of db p) else peer_info_of db q)"
    "keys_of (notify_disconnecting db now p False) = keys_of db"
    "\<not> is_banned (entry_info db now p)"
proof -
  obtain i where i: "peer_info_of db p = Some i" "is_connected i" using assms by (auto simp: prunable_def)
  have "notify_disconnecting db now p False = put_info db p (disconnecting i)"
    using i by (auto simp: notify_disconnecting_def update_connection_state_def to_disconnecting_def disconnecting_def Let_def
        is_connected_def split: peer_connection_status.splits)
  then show "peer_info_of (notify_disconnecting db now p False) q =
      (if q = p then map_option disconnecting (peer_info_of db p) else peer_info_of db q)"
    "keys_of (notify_disconnecting db now p False) = keys_of db"
    using i(1) touches_keys [OF touches_put peer_info_keys [OF i(1)]] by simp_all
  show "\<not> is_banned (entry_info db now p)" using i by (cases "connection_status i") (simp_all add: is_banned_def is_connected_def)
qed

lemma pm_disconnect [simp]:
  "pm_db (disconnect_peer m now p r) = notify_disconnecting (pm_db m) now p False"
  by (simp add: disconnect_peer_def push_event_def put_db_def)

definition disconnect_all :: "nanos \<Rightarrow> 'p list \<Rightarrow> 'p peer_db \<Rightarrow> 'p peer_db" where
  "disconnect_all now = fold (\<lambda>p db. notify_disconnecting db now p False)"

lemma pm_db_disconnects: "pm_db (fold (\<lambda>p m. disconnect_peer m now p r) ps m) = disconnect_all now ps (pm_db m)"
  by (induction ps arbitrary: m) (simp_all add: disconnect_all_def)

lemma disconnect_all_facts:
  assumes "distinct ps" "\<forall>p \<in> set ps. prunable db p"
  shows "peer_info_of (disconnect_all now ps db) q =
      (if q \<in> set ps then map_option disconnecting (peer_info_of db q) else peer_info_of db q) \<and>
    keys_of (disconnect_all now ps db) = keys_of db"
  using assms
proof (induction ps arbitrary: db)
  case (Cons p ps)
  let ?db = "notify_disconnecting db now p False"
  have p: "prunable db p" using Cons.prems by simp
  have "\<forall>q \<in> set ps. prunable ?db q"
    using Cons.prems by (auto simp: prunable_def notify_connected(1) [OF p])
  with Cons.IH [of ?db] Cons.prems(1) show ?case
    by (auto simp: disconnect_all_def notify_connected(1,2) [OF p])
qed (simp add: disconnect_all_def)

lemma length_filter_removed:
  "distinct xs \<Longrightarrow> length (filter (\<lambda>x. x \<notin> set ys) xs) = length xs - length (filter (\<lambda>x. x \<in> set ys) xs)"
  using sum_length_filter_compl [of "\<lambda>x. x \<in> set ys" xs] by simp

lemma length_filter_swap:
  assumes "distinct xs" "distinct ys"
  shows "length (filter (\<lambda>x. x \<in> set ys) xs) = length (filter (\<lambda>y. y \<in> set xs) ys)"
proof -
  have "set (filter (\<lambda>x. x \<in> set ys) xs) = set (filter (\<lambda>y. y \<in> set xs) ys)" by auto
  then show ?thesis using assms by (metis distinct_card distinct_filter)
qed

text \<open>Counting peers whose property ends with their connection.\<close>

lemma count_after:
  assumes "distinct (keys_of db)" "distinct ps" "\<forall>p \<in> set ps. prunable db p" "\<And>i. \<not> P (disconnecting i)"
  shows "length (ids_where P (disconnect_all now ps db)) =
    length (ids_where P db) - length (filter (\<lambda>p. \<exists>i. peer_info_of db p = Some i \<and> P i) ps)"
proof -
  note after = disconnect_all_facts [OF assms(2,3), of now]
  have d: "distinct (ids_where P db)" using assms(1) by (simp add: ids_where_keys)
  have "ids_where P (disconnect_all now ps db) = filter (\<lambda>p. p \<notin> set ps) (ids_where P db)"
    using assms(1,4) by (auto simp: ids_where_keys after intro!: filter_cong)
  moreover have "p \<in> set (ids_where P db) \<longleftrightarrow> (\<exists>i. peer_info_of db p = Some i \<and> P i)" for p
    using assms(1) peer_info_keys by (auto simp: ids_where_keys)
  ultimately show ?thesis using length_filter_removed [OF d] length_filter_swap [OF d assms(2)] by simp
qed

section \<open>Properties\<close>

text \<open>
  C18. Pruning always returns: whatever the peers, their subnets and the random order of the shuffles, the
  \<open>while\<close> loop over the densest custody subnets ends, because every iteration removes a peer from the lookup
  or empties a subnet that had peers.
\<close>

theorem prune_terminates: "\<exists>m'. prune_excess_peers m now draws = Some m'"
  using peers_to_prune_returns [of m now draws] by (auto simp: prune_excess_peers_def)

text \<open>
  C17. Pruning keeps the limits: it never leaves fewer connected peers than the target, nor fewer
  outbound-only peers than their target, when there were as many before, and it does not touch trusted peers or
  peers that are not connected.
\<close>

theorem prune_keeps_limits:
  assumes "reachable_db (pm_db m)" "prune_excess_peers m now draws = Some m'"
  shows "min (pm_target_peers m) (ng_connected_peers (pm_globals m)) \<le> ng_connected_peers (pm_globals m') \<and>
    min (target_outbound_peers (pm_target_peers m)) (ng_connected_outbound_only_peers (pm_globals m))
      \<le> ng_connected_outbound_only_peers (pm_globals m') \<and>
    (\<forall>p i. peer_info_of (pm_db m) p = Some i \<longrightarrow> is_trusted i \<or> \<not> is_connected i \<longrightarrow> peer_info_of (pm_db m') p = Some i)"
proof (cases "ng_connected_peers (pm_globals m) \<le> pm_target_peers m")
  case True
  then show ?thesis using assms(2) by (simp add: prune_excess_peers_def)
next
  case False
  let ?db = "pm_db m" and ?t = "pm_target_peers m" and ?oc = "ng_connected_outbound_only_peers (pm_globals m)"
  obtain ps where ps: "peers_to_prune m now draws = Some ps"
    and m': "m' = fold (\<lambda>p m. disconnect_peer m now p TooManyPeers) ps m"
    using assms(2) False by (auto simp: prune_excess_peers_def)
  have d: "distinct (keys_of ?db)" using reached_inv [OF assms(1)] by (simp add: db_inv_def keys_of_def)
  obtain op where ok: "selection_ok ?db ?t (ng_connected_peers (pm_globals m) - ?t) ?oc ps op"
    using peers_to_prune_ok [OF d ps] by blast
  then have p: "distinct ps" "\<forall>p \<in> set ps. prunable ?db p" by (simp_all add: selection_ok_def)
  have db': "pm_db m' = disconnect_all now ps ?db" by (simp add: m' pm_db_disconnects)
  note count = count_after [OF d p, of _ now, folded db']
  have "filter (\<lambda>p. \<exists>i. peer_info_of ?db p = Some i \<and> is_outbound_only i) ps = filter (outbound ?db) ps"
    by (auto simp: outbound_def intro!: filter_cong split: option.splits)
  then have "ng_connected_outbound_only_peers (pm_globals m') = ?oc - op"
    using count [of is_outbound_only] ok
    by (simp add: ng_connected_outbound_only_peers_def connected_outbound_only_peers_def selection_ok_def
        is_outbound_only_def disconnecting_def)
  moreover have "ng_connected_peers (pm_globals m) - length ps \<le> ng_connected_peers (pm_globals m')"
    using count [of is_connected] length_filter_le [of _ ps]
    by (simp add: ng_connected_peers_def connected_peer_ids_def is_connected_def disconnecting_def diff_le_mono2)
  moreover have "peer_info_of (pm_db m') q = Some i" if "peer_info_of ?db q = Some i" "is_trusted i \<or> \<not> is_connected i" for q i
    using disconnect_all_facts [OF p, of now q] that p(2) by (auto simp: db' prunable_def)
  ultimately show ?thesis using ok by (auto simp: selection_ok_def)
qed

section \<open>Instances\<close>

definition demo_custody :: custody_params where
  "demo_custody = \<lparr>is_peerdas_scheduled = False, custody_requirement = 4, number_of_custody_groups = 128,
     sampling_size_custody_groups = (\<lambda>n. n), get_custody_groups = (\<lambda>_ n. Some [0..<n]),
     compute_subnets_from_custody_group = (\<lambda>g. Some [g]), compute_subnet_for_data_column_sidecar = (\<lambda>c. c)\<rparr>"

definition demo_globals :: "nat peer_db \<Rightarrow> nat network_globals" where
  "demo_globals db = \<lparr>ng_config = demo_custody, ng_node_id = 0, ng_peers = db,
     ng_local_metadata = MetaV1 \<lparr>m1_seq_number = 0, m1_attnets = []\<rparr>, gossipsub_subscriptions = [],
     ng_sync_state = SyncedState, ng_sampling_subnets = [], target_subnet_peers = 3, ng_options = (False, False, False)\<rparr>"

definition demo_manager :: "nat \<Rightarrow> nat peer_db \<Rightarrow> nat peer_manager" where
  "demo_manager target db = \<lparr>pm_globals = demo_globals db, pm_events = [], inbound_ping_peers = {7}, outbound_ping_peers = {},
     status_peers = {7}, pm_target_peers = target, peers_to_dial = [],
     temporary_banned_peers = lru_new PEER_RECONNECTION_TIMEOUT, sync_committee_subnets = [],
     subnets_by_custody_group = Map.empty, discovery_enabled = True, quic_enabled = True, pm_trusted_peers = []\<rparr>"

lemma demo_manager_db [simp]: "pm_db (demo_manager t db) = db" "pm_target_peers (demo_manager t db) = t"
  by (simp_all add: demo_manager_def demo_globals_def)

lemma demo_reachable: "reachable_db (demo_db [0])"
  unfolding reached_def using demo_db_reachable [of "[0]"] by auto

lemma reachable_step: "reachable_db db \<Longrightarrow> db_step db db' \<Longrightarrow> reachable_db db'"
  unfolding reached_def by (blast intro: rtranclp.rtrancl_into_rtrancl)

definition demo_two_peers :: "nat peer_db" where
  "demo_two_peers = db_connect_ingoing (demo_db [0]) 1 8 (demo_addr 5) None"

lemma demo_two_reachable: "reachable_db demo_two_peers"
proof -
  have "db_step (demo_db [0]) demo_two_peers"
    unfolding demo_two_peers_def by (rule db_call.connect_in) (simp add: small_demo demo_db_def)
  with demo_reachable show ?thesis by (rule reachable_step)
qed

lemma demo_two_connected: "ng_connected_peers (demo_globals demo_two_peers) = 2"
  by (simp add: ng_connected_peers_def demo_globals_def connected_peer_ids_def ids_where_def demo_two_peers_def
      db_connect_ingoing_def update_connection_state_def to_connected_def entry_info_def peer_info_of_def demo_db_def
      db_new_def put_info_def set_enr_def connect_ingoing_def peer_info_default_def is_connected_def Let_def)
    (simp add: demo_info_def)

theorem prune_keeps_limits_witness:
  "ng_connected_peers (pm_globals (demo_manager 1 demo_two_peers)) = 2 \<and>
   (\<exists>m'. prune_excess_peers (demo_manager 1 demo_two_peers) 5 (\<lambda>_ _. 0) = Some m' \<and> 1 \<le> ng_connected_peers (pm_globals m'))"
proof -
  let ?m = "demo_manager 1 demo_two_peers"
  have two: "ng_connected_peers (pm_globals ?m) = 2" using demo_two_connected by (simp add: demo_manager_def)
  obtain ps where "peers_to_prune ?m 5 (\<lambda>_ _. 0) = Some ps" using peers_to_prune_returns by blast
  then obtain m' where "prune_excess_peers ?m 5 (\<lambda>_ _. 0) = Some m'" unfolding prune_excess_peers_def two by auto
  with prune_keeps_limits [of ?m 5 "\<lambda>_ _. 0" m'] two demo_two_reachable show ?thesis by auto
qed

definition demo_duty_db :: "nat peer_db" where
  "demo_duty_db = put_info (demo_db [0]) 7 ((demo_info [0])\<lparr>min_ttl := Some 100, custody_subnets := [5]\<rparr>)"

text \<open>
  The last loop prunes peers that validators need: a connected peer with a duty in the future, which the
  first two loops spare, is disconnected when its custody subnet is the densest and nothing else
  protects it.
\<close>

lemma duty_peer_pruned:
  "reachable_db demo_duty_db \<and>
   (\<exists>i. peer_info_of demo_duty_db 7 = Some i \<and> has_future_duty i 10) \<and>
   peers_to_prune (demo_manager 0 demo_duty_db) 10 (\<lambda>_ _. 0) = Some [7]"
proof (intro conjI)
  let ?i = "(demo_info [0])\<lparr>min_ttl := Some 100, custody_subnets := [5]\<rparr>"
  have "update_min_ttl (demo_db [0]) 0 7 100 = put_info (demo_db [0]) 7 ((demo_info [0])\<lparr>min_ttl := Some 100\<rparr>)"
    by (simp add: update_min_ttl_def longer_ttl_def) (simp add: demo_info_def peer_info_default_def)
  then have 1: "db_step (demo_db [0]) (put_info (demo_db [0]) 7 ((demo_info [0])\<lparr>min_ttl := Some 100\<rparr>))"
    using db_call.min_ttl [of False "demo_db [0]" 0 7 100] by simp
  have "db_step (put_info (demo_db [0]) 7 ((demo_info [0])\<lparr>min_ttl := Some 100\<rparr>))
      (put_info (put_info (demo_db [0]) 7 ((demo_info [0])\<lparr>min_ttl := Some 100\<rparr>)) 7 ?i)"
    by (rule db_call.mutate [of _ _ "(demo_info [0])\<lparr>min_ttl := Some 100\<rparr>"]) (simp_all add: like_def)
  moreover have "put_info (put_info (demo_db [0]) 7 ((demo_info [0])\<lparr>min_ttl := Some 100\<rparr>)) 7 ?i = demo_duty_db"
    by (simp add: demo_duty_db_def put_info_def demo_db_def)
  ultimately show "reachable_db demo_duty_db"
    using reachable_step [OF reachable_step [OF demo_reachable 1]] by simp
  show "\<exists>i. peer_info_of demo_duty_db 7 = Some i \<and> has_future_duty i 10"
    by (simp add: demo_duty_db_def has_future_duty_def)
  have db: "peers demo_duty_db = [(7, ?i)]" by (simp add: demo_duty_db_def put_info_def demo_db_def)
  have i: "is_connected ?i" "has_future_duty ?i 10" "\<not> is_trusted ?i" "\<not> is_outbound_only ?i"
    "peer_subnet_info_of ?i = \<lparr>psi_info = ?i, attestation_subnets = [], sync_committees = [], psi_custody_subnets = [5]\<rparr>"
    by (simp_all add: demo_info_def peer_info_default_def is_connected_def has_future_duty_def is_outbound_only_def
        peer_subnet_info_of_def long_lived_subnets_def List.map_filter_simps)
  have none: "prune_candidates demo_duty_db 10 f = []" for f
    by (simp add: prune_candidates_def worst_connected_peers_def db i sort_by_def)
  have "build_peer_subnet_info demo_duty_db [] = [(7, peer_subnet_info_of ?i)]"
    by (simp add: build_peer_subnet_info_def connected_peers_def db i)
  moreover have "build_custody_subnet_lookup [(7 :: nat, peer_subnet_info_of ?i)] = [(5, [7])]"
    by (simp add: build_custody_subnet_lookup_def i push_peer_def)
  moreover have "connected_peer_ids demo_duty_db = [7]" by (simp add: connected_peer_ids_def ids_where_def db i)
  moreover have "find_prune_candidate 0 (\<lambda>_. 0) 5 [(5, [7 :: nat])] [(7, peer_subnet_info_of ?i)] [] oc 0 = Some 7" for oc
    by (simp add: find_prune_candidate_def prune_order_def should_protect_peer_def i attestation_subnet_counts_def)
  ultimately show "peers_to_prune (demo_manager 0 demo_duty_db) 10 (\<lambda>_ _. 0) = Some [7]"
    by (simp add: peers_to_prune_def none sat_sub_def demo_manager_def demo_globals_def ng_connected_peers_def Let_def)
      (subst prune_densest.simps, simp add: i, subst prune_densest.simps, simp)
qed

end
