(* ===== verification/PeerManagerInvariant.thy ===== *)
theory PeerManagerInvariant
  imports PeerPruning
begin

text \<open>
  What the operations of the peer manager keep: the timers of connected peers, the cache of temporary
  bans, and the database, which every operation changes only by public operations of its own.
\<close>

section \<open>Connections in the database\<close>

text \<open>The connected peers, with the direction recorded for them.\<close>

definition conn_dir :: "'p peer_db \<Rightarrow> 'p \<rightharpoonup> connection_direction option" where
  "conn_dir db p =
     (case peer_info_of db p of
        Some i \<Rightarrow> if is_connected i then Some (pi_connection_direction i) else None
      | None \<Rightarrow> None)"

lemma conn_dir_put [simp]:
  "conn_dir (put_info db p i) =
     (conn_dir db)(p := if is_connected i then Some (pi_connection_direction i) else None)"
  by (auto simp: conn_dir_def)

lemma conn_dir_cong: "peers db' = peers db \<Longrightarrow> conn_dir db' = conn_dir db"
  by (simp add: conn_dir_def [abs_def] peer_info_of_def)

lemma conn_dir_counters [simp]:
  "conn_dir (dec_disconnected db) = conn_dir db" "conn_dir (inc_disconnected db) = conn_dir db"
  "conn_dir (sat_inc_disconnected db) = conn_dir db" "conn_dir (uncount_ban db i) = conn_dir db"
  "conn_dir (count_ban db i) = conn_dir db" "conn_dir (db\<lparr>db_banned := b\<rparr>) = conn_dir db"
  by (rule conn_dir_cong; simp add: dec_disconnected_def inc_disconnected_def sat_inc_disconnected_def
      uncount_ban_def count_ban_def)+

lemma conn_dir_entry: "conn_dir db p = (if is_connected (entry_info db now p) then Some (pi_connection_direction (entry_info db now p)) else None)"
  by (auto simp: conn_dir_def entry_info_def is_connected_def peer_info_default_def trusted_peer_info_def split: option.splits)

lemma upd_le [simp]: "m(k := None) \<subseteq>\<^sub>m m" "m k = v \<Longrightarrow> m(k := v) \<subseteq>\<^sub>m m"
  by (auto simp: map_le_def)

text \<open>Only a connection makes a peer connected; a disconnection or a ban ends its connection.\<close>

lemma conn_to:
  "conn_dir (snd (to_disconnected db now p i)) = (conn_dir db)(p := None)"
  "conn_dir (to_disconnecting db p i ban) = (conn_dir db)(p := None)"
  "conn_dir (snd (to_banned db now p i)) = (conn_dir db)(p := None)"
  "conn_dir (to_unbanned db p i) = (conn_dir db)(p := if is_connected i then Some (pi_connection_direction i) else None)"
  "conn_dir (to_dialing db now p i e) = (conn_dir db)(p := if is_connected i then Some (pi_connection_direction i) else None)"
  unfolding to_disconnected_def to_disconnecting_def to_banned_def to_unbanned_def to_dialing_def Let_def
  by (cases "connection_status i"; simp add: is_connected_def set_dialing_peer_def set_enr_def split: option.splits)+

lemma conn_states [simp]:
  "conn_dir (snd (update_connection_state db now p NewDisconnected)) = (conn_dir db)(p := None)"
  "conn_dir (snd (update_connection_state db now p NewBanned)) = (conn_dir db)(p := None)"
  "conn_dir (snd (update_connection_state db now p (NewDisconnecting ban))) = (conn_dir db)(p := None)"
  "conn_dir (snd (update_connection_state db now p NewUnbanned)) = conn_dir db"
  "conn_dir (snd (update_connection_state db now p (NewDialing e))) = conn_dir db"
  using conn_dir_entry [of db p now]
  by (simp_all add: update_connection_state_def Let_def conn_to fun_upd_idem)

lemma connect_connected: "is_connected (connect_ingoing i a)" "is_connected (connect_outgoing i a)"
  by (simp_all add: is_connected_def connect_ingoing_def connect_outgoing_def Let_def split: peer_connection_status.split)

lemma conn_connect:
  assumes "s = NewConnected e a d"
  shows "\<exists>d'. conn_dir (snd (update_connection_state db now p s)) = (conn_dir db)(p \<mapsto> d') \<and>
    (d' = Some d \<or> conn_dir db p = Some d')"
proof -
  let ?i = "set_enr (entry_info db now p) e"
  have "conn_dir (snd (update_connection_state db now p s)) =
    (conn_dir db)(p \<mapsto> pi_connection_direction (case d of Incoming \<Rightarrow> connect_ingoing ?i a | Outgoing \<Rightarrow> connect_outgoing ?i a))"
    by (cases "connection_status ?i"; cases d)
      (simp_all add: assms update_connection_state_def to_connected_def Let_def connect_connected)
  moreover have "pi_connection_direction ?i = pi_connection_direction (entry_info db now p)"
    "connection_status ?i = connection_status (entry_info db now p)"
    by (simp_all add: set_enr_def split: option.splits)
  ultimately show ?thesis
    using conn_dir_entry [of db p now]
    by (auto simp: connect_ingoing_def connect_outgoing_def is_connected_def Let_def
        split: peer_connection_status.splits connection_direction.splits)
qed

lemma conn_delete: "conn_dir (db\<lparr>peers := AList.delete q (peers db)\<rparr>) = (conn_dir db)(q := None)"
  by (auto simp: conn_dir_def fun_eq_iff peer_info_of_def AList.delete_conv')

lemma conn_drop_banned: "conn_dir (snd (drop_banned db)) \<subseteq>\<^sub>m conn_dir db"
proof (cases "oldest_banned db")
  case (Some x)
  obtain p i t where x: "x = (p, i, t)" by (cases x)
  have "conn_dir (snd (drop_banned db)) = (conn_dir db)(p := None)"
    using conn_delete [where db = "uncount_ban db i" and q = p] by (simp add: drop_banned_def Some x Let_def)
  then show ?thesis by simp
qed (simp add: drop_banned_def)

lemma conn_shrink_banned: "conn_dir (snd (shrink_banned db)) \<subseteq>\<^sub>m conn_dir db"
proof (induction db rule: shrink_banned.induct)
  case (1 db)
  show ?case
  proof (cases "MAX_BANNED_PEERS < banned_peers (db_banned db)")
    case True
    then have "conn_dir (snd (shrink_banned (snd (drop_banned db)))) \<subseteq>\<^sub>m conn_dir (snd (drop_banned db))"
      using 1 by (cases "drop_banned db") simp
    then show ?thesis
      using map_le_trans [OF _ conn_drop_banned [of db], of "conn_dir (snd (shrink_banned (snd (drop_banned db))))"] True
      by (subst shrink_banned.simps) (auto split: prod.splits option.splits)
  qed (simp add: shrink_banned.simps)
qed

lemma conn_shrink_disconnected: "conn_dir (shrink_disconnected db) \<subseteq>\<^sub>m conn_dir db"
proof (induction db rule: shrink_disconnected.induct)
  case (1 db)
  have "conn_dir (drop_disconnected db) \<subseteq>\<^sub>m conn_dir db"
    by (simp add: drop_disconnected_def conn_delete split: option.split)
  then show ?case using 1 map_le_trans by (subst shrink_disconnected.simps) auto
qed

lemma conn_inject_disconnect:
  "conn_dir (snd (inject_disconnect db now p)) \<subseteq>\<^sub>m (conn_dir db)(p := None)"
proof -
  obtain op db1 where u: "update_connection_state db now p NewDisconnected = (op, db1)"
    by (cases "update_connection_state db now p NewDisconnected")
  obtain purged db2 where b: "shrink_banned db1 = (purged, db2)" by (cases "shrink_banned db1")
  have "conn_dir db1 = (conn_dir db)(p := None)"
    using conn_states(1) [of db now p] by (simp add: u)
  moreover have "conn_dir (shrink_disconnected db2) \<subseteq>\<^sub>m conn_dir db1"
    using map_le_trans [OF conn_shrink_disconnected conn_shrink_banned [of db1]] by (simp add: b)
  ultimately show ?thesis by (simp add: inject_disconnect_def shrink_to_fit_def u b)
qed

lemma conn_like: "peer_info_of db p = Some i \<Longrightarrow> connection_status i' = connection_status i \<Longrightarrow>
    pi_connection_direction i' = pi_connection_direction i \<Longrightarrow> conn_dir (put_info db p i') = conn_dir db"
  by (auto simp: fun_upd_idem_iff conn_dir_def is_connected_def)

lemma score_fields [simp]:
  "connection_status (apply_peer_action_to_score i a) = connection_status i"
  "pi_connection_direction (apply_peer_action_to_score i a) = pi_connection_direction i"
  "connection_status (decay_peer_score i now) = connection_status i"
  "pi_connection_direction (decay_peer_score i now) = pi_connection_direction i"
  "connection_status (pi_update_gossipsub_score i now x ig) = connection_status i"
  "pi_connection_direction (pi_update_gossipsub_score i now x ig) = pi_connection_direction i"
  by (simp_all add: apply_peer_action_to_score_def decay_peer_score_def pi_update_gossipsub_score_def)

lemma conn_report:
  "conn_dir (snd (db_report_peer db now p act)) \<subseteq>\<^sub>m conn_dir db"
  "fst (db_report_peer db now p act) = DisconnectUpdate \<Longrightarrow> conn_dir (snd (db_report_peer db now p act)) p = None"
proof -
  have "conn_dir (snd (db_report_peer db now p act)) \<subseteq>\<^sub>m conn_dir db \<and>
    (fst (db_report_peer db now p act) = DisconnectUpdate \<longrightarrow> conn_dir (snd (db_report_peer db now p act)) p = None)"
  proof (cases "peer_info_of db p")
    case (Some i)
    let ?a = "apply_peer_action_to_score i act"
    have "conn_dir (put_info db p ?a) = conn_dir db" by (rule conn_like [OF Some]) simp_all
    then show ?thesis
      by (cases "handle_score_transition (pi_score_state i) ?a")
        (simp_all del: conn_dir_put add: db_report_peer_def Some Let_def case_prod_beta of_ban_operation_def
          split: option.split)
  qed (simp add: db_report_peer_def)
  then show "conn_dir (snd (db_report_peer db now p act)) \<subseteq>\<^sub>m conn_dir db"
    "fst (db_report_peer db now p act) = DisconnectUpdate \<Longrightarrow> conn_dir (snd (db_report_peer db now p act)) p = None"
    by blast+
qed

lemma map_le_Some: "m k = Some v \<Longrightarrow> m \<subseteq>\<^sub>m n \<Longrightarrow> n k = Some v"
  by (force simp: map_le_def)

lemma conn_unban [simp]: "conn_dir (snd (unban_peer db now p)) = conn_dir db"
  by (simp add: unban_peer_def Let_def)

lemma unban_peers_facts:
  "conn_dir (snd (unban_peers db now ps)) = conn_dir db \<and> list_all (\<lambda>x. \<exists>ips. snd x = UnbannedUpdate ips) (fst (unban_peers db now ps)) \<and>
   (set ps \<subseteq> set (keys_of db) \<longrightarrow> keys_of (snd (unban_peers db now ps)) = keys_of db)"
proof (induction ps arbitrary: db)
  case (Cons p ps)
  obtain r db1 where u: "unban_peer db now p = (r, db1)" by (cases "unban_peer db now p")
  have "conn_dir db1 = conn_dir db" using conn_unban [of db now p] by (simp add: u)
  moreover have "\<exists>ips. r = UnbannedUpdate ips" using u by (auto simp: unban_peer_def Let_def)
  moreover have "p \<in> set (keys_of db) \<Longrightarrow> keys_of db1 = keys_of db"
    using touches_keys [OF touches_unban, of p db now] by (simp add: u)
  ultimately show ?case using Cons.IH [of db1] by (simp add: u case_prod_beta)
qed simp

lemma update_scores_facts:
  "conn_dir (snd (update_scores db now)) = conn_dir db"
  "(p, a) \<in> set (fst (update_scores db now)) \<Longrightarrow> \<exists>ips. a = UnbannedUpdate ips"
  "keys_of (snd (update_scores db now)) = keys_of db"
proof -
  let ?db = "db\<lparr>peers := map (\<lambda>x. (fst x, decay_peer_score (snd x) now)) (peers db)\<rparr>"
  have "peer_info_of ?db q = map_option (\<lambda>i. decay_peer_score i now) (peer_info_of db q)" for q
    using map_of_map_snd [of "\<lambda>i. decay_peer_score i now" "peers db" q] by (simp add: peer_info_of_def)
  then have "conn_dir ?db = conn_dir db"
    by (simp add: conn_dir_def fun_eq_iff is_connected_def split: option.split)
  moreover have "keys_of ?db = keys_of db" by (simp add: keys_of_def comp_def)
  ultimately show "conn_dir (snd (update_scores db now)) = conn_dir db" "keys_of (snd (update_scores db now)) = keys_of db"
    "(p, a) \<in> set (fst (update_scores db now)) \<Longrightarrow> \<exists>ips. a = UnbannedUpdate ips"
    using unban_peers_facts [of ?db now "map fst (filter (\<lambda>x. handle_score_transition (pi_score_state (snd x))
        (decay_peer_score (snd x) now) = TrUnbanned) (peers db))"]
    by (auto simp: update_scores_def Let_def list_all_iff keys_of_def)
qed

lemma conn_fold_gossip: "conn_dir (snd (fold_gossip db now n ps)) = conn_dir db"
proof (induction db now n ps rule: fold_gossip.induct)
  case (2 db now n p s ps)
  show ?case
  proof (cases "peer_info_of db p")
    case (Some i)
    have "conn_dir (put_info db p (pi_update_gossipsub_score i now s ig)) = conn_dir db" for ig
      by (rule conn_like [OF Some]) simp_all
    then show ?thesis using 2 Some by (simp del: conn_dir_put add: Let_def case_prod_beta)
  qed (use 2 in simp)
qed simp

lemma gossip_transition_facts:
  "conn_dir (snd (apply_gossip_transition db now p t)) \<subseteq>\<^sub>m conn_dir db"
  "fst (apply_gossip_transition db now p t) = DisconnectUpdate \<Longrightarrow> conn_dir (snd (apply_gossip_transition db now p t)) p = None"
  by (cases t; simp add: apply_gossip_transition_def case_prod_beta of_ban_operation_def unban_peer_def Let_def split: option.splits)+

lemma gossip_transitions_Cons:
  "snd (apply_gossip_transitions db now ((p, t) # ts)) = snd (apply_gossip_transitions (snd (apply_gossip_transition db now p t)) now ts)"
  "set (fst (apply_gossip_transitions db now ((p, t) # ts))) \<subseteq>
     insert (p, fst (apply_gossip_transition db now p t))
       (set (fst (apply_gossip_transitions (snd (apply_gossip_transition db now p t)) now ts)))"
  by (simp_all add: case_prod_beta Let_def subset_insertI)

lemma gossip_transitions_facts:
  "conn_dir (snd (apply_gossip_transitions db now ts)) \<subseteq>\<^sub>m conn_dir db \<and>
   (\<forall>p. (p, DisconnectUpdate) \<in> set (fst (apply_gossip_transitions db now ts)) \<longrightarrow>
      conn_dir (snd (apply_gossip_transitions db now ts)) p = None)"
proof (induction ts arbitrary: db)
  case (Cons x ts)
  obtain p t where x: "x = (p, t)" by (cases x)
  define db1 r where "db1 = snd (apply_gossip_transition db now p t)" and "r = fst (apply_gossip_transition db now p t)"
  define db2 rs where "db2 = snd (apply_gossip_transitions db1 now ts)" and "rs = fst (apply_gossip_transitions db1 now ts)"
  have le: "conn_dir db2 \<subseteq>\<^sub>m conn_dir db1" and rest: "\<And>q. (q, DisconnectUpdate) \<in> set rs \<Longrightarrow> conn_dir db2 q = None"
    using Cons.IH [of db1] by (simp_all add: db2_def rs_def)
  have "conn_dir db1 p = None" if "r = DisconnectUpdate"
    using gossip_transition_facts(2) [of db now p t] that by (simp add: db1_def r_def)
  then have own: "conn_dir db2 p = None" if "r = DisconnectUpdate"
    using map_le_Some [OF _ le, of p] that by (cases "conn_dir db2 p") auto
  have "conn_dir db2 \<subseteq>\<^sub>m conn_dir db"
    using map_le_trans [OF le] gossip_transition_facts(1) [of db now p t] by (simp add: db1_def)
  moreover have "conn_dir db2 q = None" if "(q, DisconnectUpdate) \<in> set (fst (apply_gossip_transitions db now (x # ts)))" for q
    using that gossip_transitions_Cons(2) [of db now p t ts] own rest
    unfolding x db1_def [symmetric] r_def [symmetric] rs_def [symmetric] by auto
  ultimately show ?case
    using gossip_transitions_Cons(1) [of db now p t ts] by (simp only: x db1_def db2_def) blast
qed simp

lemma update_gossip_facts:
  "conn_dir (snd (update_gossipsub_scores gossip sort_desc db now t)) \<subseteq>\<^sub>m conn_dir db"
  "(p, DisconnectUpdate) \<in> set (fst (update_gossipsub_scores gossip sort_desc db now t)) \<Longrightarrow>
     conn_dir (snd (update_gossipsub_scores gossip sort_desc db now t)) p = None"
  using gossip_transitions_facts [of "snd (fold_gossip db now n xs)" now ts for n xs ts] conn_fold_gossip [of db now]
  by (auto simp: update_gossipsub_scores_def Let_def case_prod_beta)

lemma cleanup_facts:
  "conn_dir (cleanup_dialing_peers db now) \<subseteq>\<^sub>m conn_dir db" "keys_of (cleanup_dialing_peers db now) = keys_of db"
proof -
  have "set ps \<subseteq> set (keys_of db) \<Longrightarrow>
    conn_dir (fold (\<lambda>p db. snd (update_connection_state db now p NewDisconnected)) ps db) \<subseteq>\<^sub>m conn_dir db \<and>
    keys_of (fold (\<lambda>p db. snd (update_connection_state db now p NewDisconnected)) ps db) = keys_of db" for ps
  proof (induction ps arbitrary: db)
    case (Cons p ps)
    let ?db = "snd (update_connection_state db now p NewDisconnected)"
    have "keys_of ?db = keys_of db" by (rule touches_keys [OF touches_update]) (use Cons.prems in simp)
    then have "conn_dir (fold (\<lambda>p db. snd (update_connection_state db now p NewDisconnected)) ps ?db) \<subseteq>\<^sub>m conn_dir ?db"
      and keys: "keys_of (fold (\<lambda>p db. snd (update_connection_state db now p NewDisconnected)) ps ?db) = keys_of db"
      using Cons.IH [of ?db] Cons.prems by (simp_all del: conn_states)
    moreover have "conn_dir ?db \<subseteq>\<^sub>m conn_dir db" by simp
    ultimately have "conn_dir (fold (\<lambda>p db. snd (update_connection_state db now p NewDisconnected)) ps ?db) \<subseteq>\<^sub>m conn_dir db"
      using map_le_trans by blast
    then show ?case using keys by simp
  qed simp
  from this [of "ids_where (stale_dialing now) db"]
  show "conn_dir (cleanup_dialing_peers db now) \<subseteq>\<^sub>m conn_dir db" "keys_of (cleanup_dialing_peers db now) = keys_of db"
    by (auto simp: cleanup_dialing_peers_def ids_where_def keys_of_def)
qed

section \<open>The invariant of the manager\<close>

text \<open>
  Every connected peer has a status timer and a ping timer for the direction of its connection.
\<close>

definition ping_timer :: "'p peer_manager \<Rightarrow> 'p \<Rightarrow> connection_direction option \<Rightarrow> bool" where
  "ping_timer m p d \<longleftrightarrow>
     (case d of Some Incoming \<Rightarrow> p \<in> inbound_ping_peers m | Some Outgoing \<Rightarrow> p \<in> outbound_ping_peers m | None \<Rightarrow> False)"

definition timed :: "'p peer_manager \<Rightarrow> bool" where
  "timed m \<longleftrightarrow> (\<forall>p d. conn_dir (pm_db m) p = Some d \<longrightarrow> p \<in> status_peers m \<and> ping_timer m p d)"

text \<open>The manager is well formed and was last used by the time \<open>t\<close>.\<close>

definition manager_ok :: "'p peer_manager \<Rightarrow> nanos \<Rightarrow> bool" where
  "manager_ok m t \<longleftrightarrow> cache_ok (temporary_banned_peers m) t \<and> pm_target_peers m \<le> u64_max \<and> timed m \<and> reachable_db (pm_db m)"

text \<open>A successor at time \<open>now\<close>: still well formed, its database reached by operations of the database.\<close>

definition follows :: "'p peer_manager \<Rightarrow> nanos \<Rightarrow> 'p peer_manager \<Rightarrow> bool" where
  "follows m now m' \<longleftrightarrow>
     cache_ok (temporary_banned_peers m') now \<and> pm_target_peers m' = pm_target_peers m \<and> timed m' \<and>
     rtranclp db_step (pm_db m) (pm_db m')"

lemma cache_ok_later: "cache_ok c t \<Longrightarrow> t \<le> now \<Longrightarrow> cache_ok c now"
  by (force simp: cache_ok_def list_all_iff)

lemma manager_ok_later: "manager_ok m t \<Longrightarrow> t \<le> now \<Longrightarrow> manager_ok m now"
  by (auto simp: manager_ok_def intro: cache_ok_later)

lemma reachable_steps: "reachable_db db \<Longrightarrow> rtranclp db_step db db' \<Longrightarrow> reachable_db db'"
  unfolding reached_def by (meson rtranclp_trans)

lemma follows_ok: "manager_ok m now \<Longrightarrow> follows m now m' \<Longrightarrow> manager_ok m' now"
  by (auto simp: manager_ok_def follows_def intro: reachable_steps)

lemma follows_refl: "manager_ok m now \<Longrightarrow> follows m now m"
  by (simp add: manager_ok_def follows_def)

lemma follows_trans: "follows a now b \<Longrightarrow> follows b now c \<Longrightarrow> follows a now c"
  by (auto simp: follows_def)

lemma put_db_fields [simp]:
  "pm_db (put_db m db) = db" "inbound_ping_peers (put_db m db) = inbound_ping_peers m"
  "outbound_ping_peers (put_db m db) = outbound_ping_peers m" "status_peers (put_db m db) = status_peers m"
  "pm_target_peers (put_db m db) = pm_target_peers m" "temporary_banned_peers (put_db m db) = temporary_banned_peers m"
  by (simp_all add: put_db_def)

lemma push_event_fields [simp]:
  "pm_globals (push_event m e) = pm_globals m" "inbound_ping_peers (push_event m e) = inbound_ping_peers m"
  "outbound_ping_peers (push_event m e) = outbound_ping_peers m" "status_peers (push_event m e) = status_peers m"
  "pm_target_peers (push_event m e) = pm_target_peers m" "temporary_banned_peers (push_event m e) = temporary_banned_peers m"
  by (simp_all add: push_event_def)

text \<open>Connections only end and timers are only added: the common case.\<close>

definition timers_sub :: "'p peer_manager \<Rightarrow> 'p peer_manager \<Rightarrow> bool" where
  "timers_sub m m' \<longleftrightarrow>
     inbound_ping_peers m \<subseteq> inbound_ping_peers m' \<and> outbound_ping_peers m \<subseteq> outbound_ping_peers m' \<and> status_peers m \<subseteq> status_peers m'"

lemma timers_sub_timer: "timers_sub m m' \<Longrightarrow> ping_timer m p d \<Longrightarrow> ping_timer m' p d"
  by (auto simp: timers_sub_def ping_timer_def split: option.splits connection_direction.splits)

lemma followsI:
  assumes "manager_ok m now" "conn_dir (pm_db m') \<subseteq>\<^sub>m conn_dir (pm_db m)" "rtranclp db_step (pm_db m) (pm_db m')"
    "timers_sub m m'" "pm_target_peers m' = pm_target_peers m" "cache_ok (temporary_banned_peers m') now"
  shows "follows m now m'"
  using assms map_le_Some [OF _ assms(2)] timers_sub_timer [OF assms(4)]
  by (fastforce simp: manager_ok_def follows_def timed_def timers_sub_def)

lemma follows_same:
  assumes "manager_ok m now" "pm_globals m' = pm_globals m" "timers_sub m m'" "pm_target_peers m' = pm_target_peers m"
    "temporary_banned_peers m' = temporary_banned_peers m"
  shows "follows m now m'"
  using assms by (intro followsI) (simp_all add: manager_ok_def)

section \<open>Bans and score actions\<close>

lemma handle_ban_ok:
  assumes "cache_ok (temporary_banned_peers m) now"
  shows "\<exists>c es. handle_ban_operation m now p op r = Some (m\<lparr>temporary_banned_peers := c, pm_events := es\<rparr>) \<and> cache_ok c now"
proof -
  let ?P = "\<lambda>m'. \<exists>c es. m' = Some (m\<lparr>temporary_banned_peers := c, pm_events := es\<rparr>) \<and> cache_ok c now"
  have keep: "?P (Some m)"
    using assms by (intro exI [of _ "temporary_banned_peers m"] exI [of _ "pm_events m"]) simp
  have push: "?P (Some (push_event m e))" for e
    using assms by (intro exI [of _ "temporary_banned_peers m"] exI) (simp add: push_event_def)
  obtain b c where ins: "raw_insert (temporary_banned_peers m) now p = Some (b, c)" "cache_ok c now"
    using raw_insert_spec [OF assms order_refl] by blast
  obtain b' c' where rem: "raw_remove (temporary_banned_peers m) p = Some (b', c')" "cache_ok c' now"
    using raw_remove_spec [OF assms] by blast
  have "?P (Some (push_event (m\<lparr>temporary_banned_peers := c\<rparr>) e))" for e
    using ins(2) by (intro exI [of _ c] exI) (simp add: push_event_def)
  moreover have "?P (Some (m\<lparr>temporary_banned_peers := c'\<rparr>))"
    using rem(2) by (intro exI [of _ c'] exI [of _ "pm_events m"]) simp
  moreover have "?P (Some (m\<lparr>temporary_banned_peers := c', pm_events := es\<rparr>))" for es
    using rem(2) by blast
  ultimately show ?thesis
    using keep push by (cases op; cases b') (simp_all add: handle_ban_operation_def ins rem Let_def)
qed

end
