(* ===== verification/PeerManagerProperties.thy ===== *)
theory PeerManagerProperties
  imports PeerManagerInvariant
begin

text \<open>
  Runs of the peer manager: every call returns, keeps the timers of the connected peers, and changes
  the peer database only by the operations of the database.
\<close>

section \<open>Score actions\<close>

lemma timed_without:
  assumes "timed m" "conn_dir (pm_db m) p = None" "pm_db m' = pm_db m" "inbound_ping_peers m' = inbound_ping_peers m - {p}"
    "outbound_ping_peers m' = outbound_ping_peers m - {p}" "status_peers m - {p} \<subseteq> status_peers m'"
  shows "timed m'"
  unfolding timed_def
proof (intro allI impI)
  fix q d assume q: "conn_dir (pm_db m') q = Some d"
  then have "q \<noteq> p" using assms(2,3) by auto
  moreover have "q \<in> status_peers m" "ping_timer m q d" using assms(1,3) q by (auto simp: timed_def)
  ultimately show "q \<in> status_peers m' \<and> ping_timer m' q d"
    using assms(4-6) by (auto simp: ping_timer_def split: option.splits connection_direction.splits)
qed

lemma score_action_ok:
  assumes "manager_ok m now" "a = DisconnectUpdate \<Longrightarrow> conn_dir (pm_db m) p = None"
  shows "\<exists>m'. handle_score_action m now p a r = Some m' \<and> follows m now m' \<and> pm_globals m' = pm_globals m"
proof (cases a)
  case (BanUpdate op)
  have "cache_ok (temporary_banned_peers m) now" using assms(1) by (simp add: manager_ok_def)
  from handle_ban_ok [OF this, of p op r] obtain c es where
    h: "handle_ban_operation m now p op r = Some (m\<lparr>temporary_banned_peers := c, pm_events := es\<rparr>)" "cache_ok c now" by blast
  have "follows m now (m\<lparr>temporary_banned_peers := c, pm_events := es\<rparr>)"
    using assms(1) h(2) by (intro followsI) (simp_all add: timers_sub_def)
  with h show ?thesis by (simp add: handle_score_action_def BanUpdate)
next
  case DisconnectUpdate
  let ?m = "push_event (m\<lparr>inbound_ping_peers := inbound_ping_peers m - {p}, outbound_ping_peers := outbound_ping_peers m - {p}\<rparr>)
    (DisconnectPeer p BadScore)"
  have "timed m" "conn_dir (pm_db m) p = None"
    using assms(1) assms(2) [OF DisconnectUpdate] by (simp_all add: manager_ok_def)
  then have "timed ?m" by (rule timed_without) simp_all
  then have "follows m now ?m" using assms(1) by (simp add: follows_def manager_ok_def)
  then show ?thesis by (simp add: handle_score_action_def DisconnectUpdate)
next
  case NoAction
  then show ?thesis using follows_refl [OF assms(1)] by (simp add: handle_score_action_def)
next
  case (UnbannedUpdate ips)
  then show ?thesis using follows_same [OF assms(1), of "push_event m (UnBannedPeer p ips)"]
    by (simp add: handle_score_action_def timers_sub_def)
qed

lemma score_actions_ok:
  assumes "manager_ok m now" "\<And>p. (p, DisconnectUpdate) \<in> set as \<Longrightarrow> conn_dir (pm_db m) p = None"
  shows "\<exists>m'. handle_score_actions m now as = Some m' \<and> follows m now m' \<and> pm_globals m' = pm_globals m"
  using assms
proof (induction as arbitrary: m)
  case (Cons x as)
  obtain p a where x: "x = (p, a)" by (cases x)
  obtain m1 where m1: "handle_score_action m now p a None = Some m1" "follows m now m1" "pm_globals m1 = pm_globals m"
    using score_action_ok [OF Cons.prems(1), of a p None] Cons.prems(2) x by auto
  have "\<exists>m'. handle_score_actions m1 now as = Some m' \<and> follows m1 now m' \<and> pm_globals m' = pm_globals m1"
    using follows_ok [OF Cons.prems(1) m1(2)] Cons.prems(2) m1(3) by (intro Cons.IH) auto
  with m1 show ?case using follows_trans x by fastforce
qed (auto intro: follows_refl)

lemma follows_put:
  assumes "manager_ok m now" "rtranclp db_step (pm_db m) db" "conn_dir db \<subseteq>\<^sub>m conn_dir (pm_db m)"
  shows "follows m now (put_db m db)"
  using assms by (intro followsI) (simp_all add: timers_sub_def manager_ok_def)

lemma pm_report_ok:
  assumes "manager_ok m now" "small (pm_db m)"
  shows "\<exists>m'. pm_report_peer m now p a r = Some m' \<and> follows m now m'"
proof -
  obtain res db where d: "db_report_peer (pm_db m) now p a = (res, db)" by (cases "db_report_peer (pm_db m) now p a")
  have "follows m now (put_db m db)"
    using db_call.report [OF assms(2), of False now p a] conn_report(1) [of "pm_db m" now p a] d
    by (intro follows_put assms) auto
  moreover have "\<exists>m'. handle_score_action (put_db m db) now p res r = Some m' \<and> follows (put_db m db) now m' \<and>
      pm_globals m' = pm_globals (put_db m db)"
    using conn_report(2) [of "pm_db m" now p a] d follows_ok [OF assms(1)] calculation by (intro score_action_ok) auto
  ultimately show ?thesis using d follows_trans by (fastforce simp: pm_report_peer_def)
qed

lemma pm_gossip_ok:
  assumes "manager_ok m now" "small (pm_db m)" "\<And>xs. mset (sort_desc xs) = mset xs"
  shows "\<exists>m'. pm_update_gossipsub_scores gossip sort_desc m now = Some m' \<and> follows m now m'"
proof -
  obtain as db where d: "update_gossipsub_scores gossip sort_desc (pm_db m) now (pm_target_peers m) = (as, db)"
    by (cases "update_gossipsub_scores gossip sort_desc (pm_db m) now (pm_target_peers m)")
  note facts = update_gossip_facts [where gossip = gossip and sort_desc = sort_desc and db = "pm_db m" and now = now and t = "pm_target_peers m", unfolded d fst_conv snd_conv]
  have "db_step (pm_db m) db"
    using db_call.gossip [OF assms(2,3), where score_of = gossip and now = now and target = "pm_target_peers m"] d by simp
  then have f: "follows m now (put_db m db)" using facts(1) by (intro follows_put assms) auto
  have "\<exists>m'. handle_score_actions (put_db m db) now as = Some m' \<and> follows (put_db m db) now m' \<and>
      pm_globals m' = pm_globals (put_db m db)"
    using follows_ok [OF assms(1) f] facts(2) by (intro score_actions_ok) auto
  with f d show ?thesis using follows_trans by (fastforce simp: pm_update_gossipsub_scores_def)
qed

section \<open>Limits\<close>

lemma bit_length_numeral: "bit_length (numeral k) = Suc (bit_length (numeral k div 2))" "bit_length (Suc 0) = 1"
  by (simp_all add: bit_length_pos)

lemma f32_factors:
  "f32_add F32_ONE PEER_EXCESS_FACTOR = 147639504"
  "f32_add 147639504 13421773 = 161061280"
  "f32_add 147639504 PRIORITY_PEER_EXCESS = 174483056"
  by (simp_all add: f32_add_def F32_ONE_def f32_round_def round_shift_def
      bit_length_numeral)

lemma limit_factors:
  "F32_ONE + 32 \<le> f32_add F32_ONE PEER_EXCESS_FACTOR"
  "f32_add F32_ONE PEER_EXCESS_FACTOR \<le> f32_add (f32_add F32_ONE PEER_EXCESS_FACTOR) (PRIORITY_PEER_EXCESS div 2)"
  "f32_add (f32_add F32_ONE PEER_EXCESS_FACTOR) (PRIORITY_PEER_EXCESS div 2)
     \<le> f32_add (f32_add F32_ONE PEER_EXCESS_FACTOR) PRIORITY_PEER_EXCESS"
  by (simp_all add: f32_factors) (simp add: F32_ONE_def)

lemma max_peers_ge: "t \<le> u64_max \<Longrightarrow> t \<le> max_peers t"
  unfolding max_peers_def by (rule f32_scale_ceil_ge [OF _ limit_factors(1)])

lemma wanted_peers_returns: "t \<le> u64_max \<Longrightarrow> \<exists>n. wanted_peers t d k out = Some n"
  using max_peers_ge [of t] by (auto simp: wanted_peers_def sat_sub_def)

lemma maintain_ok:
  assumes "manager_ok m now"
  shows "\<exists>m'. maintain_peer_count m d = Some m' \<and> follows m now m' \<and> pm_globals m' = pm_globals m"
proof (cases "discovery_enabled m")
  case True
  obtain n where n: "wanted_peers (pm_target_peers m) d (ng_connected_or_dialing_peers (pm_globals m))
      (ng_connected_outbound_only_peers (pm_globals m)) = Some n"
    using wanted_peers_returns assms by (metis manager_ok_def)
  have "follows m now (push_event m (DiscoverPeers n))"
    by (rule follows_same [OF assms]) (simp_all add: timers_sub_def)
  then show ?thesis using follows_refl [OF assms] True n by (simp add: maintain_peer_count_def)
qed (use follows_refl [OF assms] in \<open>simp add: maintain_peer_count_def\<close>)

section \<open>Dialing\<close>

lemma dial_peer_ok:
  assumes "manager_ok m now"
  shows "follows m now (snd (dial_peer m e)) \<and> pm_globals (snd (dial_peer m e)) = pm_globals m"
proof -
  have "follows m now (m\<lparr>peers_to_dial := peers_to_dial m @ [e]\<rparr>)"
    by (rule follows_same [OF assms]) (simp_all add: timers_sub_def)
  then show ?thesis using follows_refl [OF assms] by (simp add: dial_peer_def)
qed

lemma trusted_dial_ok:
  assumes "manager_ok m now"
  shows "follows m now (fold (\<lambda>e m. snd (dial_peer m e)) es m) \<and>
    pm_globals (fold (\<lambda>e m. snd (dial_peer m e)) es m) = pm_globals m"
  using assms
proof (induction es arbitrary: m)
  case (Cons e es)
  note d = dial_peer_ok [OF Cons.prems, of e]
  with Cons.IH [OF follows_ok [OF Cons.prems]] show ?case using follows_trans by fastforce
qed (simp add: follows_refl)

lemma longer_ttl_fields [simp]:
  "connection_status (longer_ttl i t) = connection_status i" "pi_connection_direction (longer_ttl i t) = pi_connection_direction i"
  by (simp_all add: longer_ttl_def split: option.split)

lemma conn_min_ttl: "conn_dir (update_min_ttl db now p t) = conn_dir db"
proof (cases "peer_info_of db p")
  case (Some i)
  then show ?thesis
    using conn_like [OF Some, of "longer_ttl i t"] by (simp add: update_min_ttl_def)
next
  case None
  then show ?thesis
    by (simp add: update_min_ttl_def conn_dir_def is_connected_def peer_info_default_def fun_eq_iff)
qed

lemma discovered_ok:
  assumes "manager_ok m now"
  shows "follows m now (snd (dial_discovered c now n m rs))"
  using assms
proof (induction rs arbitrary: m n)
  case (Cons x rs)
  obtain e ttl where x: "x = (e, ttl)" by (cases x)
  define m1 where "m1 = (case ttl of Some t \<Rightarrow> put_db m (update_min_ttl (pm_db m) now (pe_peer_id e) t) | None \<Rightarrow> m)"
  have "follows m now (put_db m (update_min_ttl (pm_db m) now q t))" for q t
    by (rule follows_put [OF Cons.prems]) (simp_all add: conn_min_ttl r_into_rtranclp db_call.min_ttl)
  then have f1: "follows m now m1" using follows_refl [OF Cons.prems] by (simp add: m1_def split: option.split)
  note d = dial_peer_ok [OF follows_ok [OF Cons.prems f1], of e]
  obtain b m2 where b: "dial_peer m1 e = (b, m2)" by (cases "dial_peer m1 e")
  have f2: "follows m now m2" using d f1 follows_trans unfolding b by auto
  have "follows m now (snd (dial_discovered c now k m2 rs))" for k
    using Cons.IH [OF follows_ok [OF Cons.prems f2]] f2 follows_trans by blast
  then show ?case using Cons.IH [OF Cons.prems] b by (simp add: x m1_def [symmetric] Let_def)
qed (simp add: follows_refl)

lemma peers_discovered_ok:
  assumes "manager_ok m now"
  shows "\<exists>m'. peers_discovered m now rs = Some m' \<and> follows m now m'"
proof -
  obtain n m1 where d: "dial_discovered (ng_connected_or_dialing_peers (pm_globals m)) now 0 m rs = (n, m1)"
    by (cases "dial_discovered (ng_connected_or_dialing_peers (pm_globals m)) now 0 m rs")
  have f: "follows m now m1" using discovered_ok [OF assms, of "ng_connected_or_dialing_peers (pm_globals m)" 0 rs] d by simp
  with maintain_ok [OF follows_ok [OF assms f], of n] d show ?thesis
    using follows_trans by (fastforce simp: peers_discovered_def)
qed

section \<open>Pruning and the heartbeat\<close>

lemma disconnects_fields:
  fixes now r ps m
  defines "m' \<equiv> fold (\<lambda>p m. disconnect_peer m now p r) ps m"
  shows "inbound_ping_peers m' = inbound_ping_peers m \<and> outbound_ping_peers m' = outbound_ping_peers m \<and>
    status_peers m' = status_peers m \<and> pm_target_peers m' = pm_target_peers m \<and>
    temporary_banned_peers m' = temporary_banned_peers m"
  unfolding m'_def by (induction ps arbitrary: m) (simp_all add: disconnect_peer_def)

lemma disconnect_all_steps:
  assumes "small db" "distinct ps" "\<forall>p \<in> set ps. prunable db p"
  shows "rtranclp db_step db (disconnect_all now ps db)"
  using assms
proof (induction ps arbitrary: db)
  case (Cons p ps)
  let ?db = "notify_disconnecting db now p False"
  have p: "prunable db p" using Cons.prems by simp
  have "\<forall>q \<in> set ps. prunable ?db q"
    using Cons.prems by (auto simp: prunable_def notify_connected(1) [OF p])
  moreover have "small ?db" using Cons.prems(1) by (simp add: small_keys notify_connected(2) [OF p])
  ultimately have "rtranclp db_step ?db (disconnect_all now ps ?db)" using Cons.prems(2) by (intro Cons.IH) auto
  moreover have "db_step db ?db" using Cons.prems(1) by (rule db_call.disconnecting) simp
  ultimately show ?case by (simp add: disconnect_all_def)
qed (simp add: disconnect_all_def)

text \<open>A successor with the same keys in its database.\<close>

definition follows_keys :: "'p peer_manager \<Rightarrow> nanos \<Rightarrow> 'p peer_manager \<Rightarrow> bool" where
  "follows_keys m now m' \<longleftrightarrow> follows m now m' \<and> keys_of (pm_db m') = keys_of (pm_db m)"

lemma follows_keys_trans: "follows_keys a now b \<Longrightarrow> follows_keys b now c \<Longrightarrow> follows_keys a now c"
  by (auto simp: follows_keys_def intro: follows_trans)

lemma follows_keys_refl: "manager_ok m now \<Longrightarrow> follows_keys m now m"
  by (simp add: follows_keys_def follows_refl)

lemma follows_keys_ok:
  "manager_ok m now \<Longrightarrow> follows_keys m now m' \<Longrightarrow> manager_ok m' now"
  "small (pm_db m) \<Longrightarrow> follows_keys m now m' \<Longrightarrow> small (pm_db m')"
  by (auto simp: follows_keys_def small_keys intro: follows_ok)

lemma prune_ok:
  assumes "manager_ok m now" "small (pm_db m)"
  shows "\<exists>m'. prune_excess_peers m now draws = Some m' \<and> follows_keys m now m'"
proof (cases "ng_connected_peers (pm_globals m) \<le> pm_target_peers m")
  case False
  let ?db = "pm_db m"
  obtain ps where ps: "peers_to_prune m now draws = Some ps" using peers_to_prune_returns by blast
  have r: "reachable_db ?db" using assms(1) by (simp add: manager_ok_def)
  have d: "distinct (keys_of ?db)" using reached_inv [OF r] by (simp add: db_inv_def keys_of_def)
  have p: "distinct ps" "\<forall>p \<in> set ps. prunable ?db p"
    using peers_to_prune_ok [OF d ps] by (auto simp: selection_ok_def)
  define m' where "m' = fold (\<lambda>p m. disconnect_peer m now p TooManyPeers) ps m"
  note db' = pm_db_disconnects [of now TooManyPeers ps m, folded m'_def]
  note fields = disconnects_fields [of now TooManyPeers ps m, folded m'_def]
  note after = disconnect_all_facts [OF p, of now]
  have "conn_dir (disconnect_all now ps ?db) \<subseteq>\<^sub>m conn_dir ?db"
    by (auto simp: map_le_def conn_dir_def after disconnecting_def is_connected_def split: option.splits if_splits)
  then have "follows m now m'"
    using disconnect_all_steps [OF assms(2) p, of now] fields assms(1)
    by (intro followsI) (simp_all add: db' timers_sub_def manager_ok_def)
  moreover have "keys_of (pm_db m') = keys_of ?db" using after by (simp add: db')
  ultimately show ?thesis using False ps by (simp add: prune_excess_peers_def m'_def follows_keys_def)
qed (simp add: prune_excess_peers_def follows_keys_refl assms)

lemma unban_temporary_ok:
  assumes "manager_ok m now"
  shows "follows_keys m now (unban_temporary_banned_peers m now)"
proof -
  obtain ks c where r: "remove_expired (temporary_banned_peers m) now = (ks, c)"
    by (cases "remove_expired (temporary_banned_peers m) now")
  have "cache_ok c now"
    using remove_expired_spec [OF _ order_refl r] assms by (simp add: manager_ok_def)
  then show ?thesis
    unfolding follows_keys_def using assms
    by (intro conjI followsI) (simp_all add: unban_temporary_banned_peers_def r timers_sub_def)
qed

lemma follows_keys_same:
  assumes "manager_ok m now" "pm_globals m' = pm_globals m" "timers_sub m m'" "pm_target_peers m' = pm_target_peers m"
    "temporary_banned_peers m' = temporary_banned_peers m"
  shows "follows_keys m now m'"
  using follows_same [OF assms] assms(2) by (simp add: follows_keys_def)

lemma maintain_subnets_ok:
  assumes "manager_ok m now"
  shows "follows_keys m now (maintain_custody_peers m)" "follows_keys m now (maintain_sync_committee_peers m now)"
  by (rule follows_keys_same [OF assms];
      simp add: maintain_custody_peers_def maintain_sync_committee_peers_def subnets_wanted_def timers_sub_def Let_def)+

lemma cleanup_ok:
  assumes "manager_ok m now" "small (pm_db m)"
  shows "follows_keys m now (put_db m (cleanup_dialing_peers (pm_db m) now))"
  unfolding follows_keys_def
proof
  show "follows m now (put_db m (cleanup_dialing_peers (pm_db m) now))"
    by (rule follows_put [OF assms(1) _ cleanup_facts(1)]) (rule r_into_rtranclp, rule db_call.cleanup [OF assms(2)])
qed (simp add: cleanup_facts(2))

lemma scores_ok:
  assumes "manager_ok m now" "small (pm_db m)" "update_scores (pm_db m) now = (as, db)"
  shows "\<exists>m'. handle_score_actions (put_db m db) now as = Some m' \<and> follows_keys m now m'"
proof -
  note facts = update_scores_facts [where db = "pm_db m" and now = now, unfolded assms(3) fst_conv snd_conv]
  have "db_step (pm_db m) db" using db_call.scores [OF assms(2), of False now] assms(3) by simp
  then have f: "follows_keys m now (put_db m db)"
    using follows_put [OF assms(1) r_into_rtranclp, of db] facts(1,3) by (simp add: follows_keys_def)
  have "(q, DisconnectUpdate) \<notin> set as" for q using facts(2) by fastforce
  then obtain m' where m': "handle_score_actions (put_db m db) now as = Some m'" "follows (put_db m db) now m'"
      "pm_globals m' = pm_globals (put_db m db)"
    using score_actions_ok [OF follows_keys_ok(1) [OF assms(1) f], of as] by blast
  then have "follows_keys (put_db m db) now m'" by (simp add: follows_keys_def)
  with m'(1) follows_keys_trans [OF f] show ?thesis by blast
qed

lemma heartbeat_ok:
  assumes "manager_ok m now" "small (pm_db m)"
  shows "\<exists>m'. heartbeat m now draws = Some m' \<and> follows_keys m now m'"
proof -
  obtain m1 where m1: "maintain_peer_count m 0 = Some m1" "follows_keys m now m1"
    using maintain_ok [OF assms(1), of 0] by (auto simp: follows_keys_def)
  note ok1 = follows_keys_ok(1) [OF assms(1) m1(2)]
  define m2 where "m2 = maintain_trusted_peers m1"
  have m2: "follows_keys m now m2"
    using trusted_dial_ok [OF ok1, of "pm_trusted_peers m1"] m1(2)
    by (intro follows_keys_trans [OF m1(2)]) (simp add: m2_def maintain_trusted_peers_def follows_keys_def)
  define m3 where "m3 = put_db m2 (cleanup_dialing_peers (pm_db m2) now)"
  have m3: "follows_keys m now m3"
    unfolding m3_def
    by (rule follows_keys_trans [OF m2 cleanup_ok [OF follows_keys_ok(1) [OF assms(1) m2] follows_keys_ok(2) [OF assms(2) m2]]])
  obtain as db where u: "update_scores (pm_db m3) now = (as, db)" by (cases "update_scores (pm_db m3) now")
  obtain m4 where m4: "handle_score_actions (put_db m3 db) now as = Some m4" "follows_keys m3 now m4"
    using scores_ok [OF follows_keys_ok(1) [OF assms(1) m3] follows_keys_ok(2) [OF assms(2) m3] u] by blast
  have f4: "follows_keys m now m4" by (rule follows_keys_trans [OF m3 m4(2)])
  define m5 where "m5 = (if list_ex (\<lambda>t. case gt_kind t of DataColumnSidecarKind _ \<Rightarrow> True | _ \<Rightarrow> False)
      (gossipsub_subscriptions (pm_globals m4)) then maintain_custody_peers m4 else m4)"
  have f5: "follows_keys m now m5"
    using f4 follows_keys_trans [OF f4 maintain_subnets_ok(1) [OF follows_keys_ok(1) [OF assms(1) f4]]] by (simp add: m5_def)
  define m6 where "m6 = maintain_sync_committee_peers m5 now"
  have f6: "follows_keys m now m6"
    unfolding m6_def by (rule follows_keys_trans [OF f5 maintain_subnets_ok(2) [OF follows_keys_ok(1) [OF assms(1) f5]]])
  obtain m7 where m7: "prune_excess_peers m6 now draws = Some m7" "follows_keys m6 now m7"
    using prune_ok [OF follows_keys_ok(1) [OF assms(1) f6] follows_keys_ok(2) [OF assms(2) f6], of draws] by blast
  have f7: "follows_keys m now m7" by (rule follows_keys_trans [OF f6 m7(2)])
  have "heartbeat m now draws = Some (unban_temporary_banned_peers m7 now)"
    unfolding heartbeat_def m1(1) Option.bind.bind_lunit Let_def m2_def [symmetric] m3_def [symmetric] u prod.case m4(1)
      m5_def [symmetric] m6_def [symmetric] m7(1) ..
  then show ?thesis
    using follows_keys_trans [OF f7 unban_temporary_ok [OF follows_keys_ok(1) [OF assms(1) f7]]] by simp
qed

lemma heartbeats_ok:
  assumes "manager_ok m now" "small (pm_db m)"
  shows "\<exists>m'. heartbeats m now ticks = Some m' \<and> follows_keys m now m'"
  using assms
proof (induction ticks arbitrary: m)
  case (Cons d ticks)
  obtain m1 where m1: "heartbeat m now d = Some m1" "follows_keys m now m1" using heartbeat_ok [OF Cons.prems] by blast
  with Cons.IH [OF follows_keys_ok(1) [OF Cons.prems(1) m1(2)] follows_keys_ok(2) [OF Cons.prems(2) m1(2)]]
  show ?case using follows_keys_trans by fastforce
qed (simp add: follows_keys_refl)

section \<open>Connections and the poll\<close>

lemma dial_inject_ok:
  assumes "manager_ok m now" "small (pm_db m)"
  shows "follows m now (snd (inject_peer_connection m now p DialingConnection e))"
proof -
  have "db_step (pm_db m) (dialing_peer (pm_db m) now p e)" by (rule db_call.dial [OF assms(2)])
  moreover have "conn_dir (dialing_peer (pm_db m) now p e) = conn_dir (pm_db m)" by (simp add: dialing_peer_def)
  ultimately have "follows m now (put_db m (dialing_peer (pm_db m) now p e))"
    by (intro follows_put [OF assms(1)]) auto
  then show ?thesis by (simp add: inject_peer_connection_def)
qed

text \<open>A connection adds the timers that its peer needs.\<close>

lemma follows_connect:
  assumes "manager_ok m now" "small (pm_db m)" "db_step (pm_db m) (pm_db m')"
    "conn_dir (pm_db m') = (conn_dir (pm_db m))(p \<mapsto> d')" "d' = Some d \<or> conn_dir (pm_db m) p = Some d'"
    "timers_sub m m'" "p \<in> status_peers m'" "ping_timer m' p (Some d)" "pm_target_peers m' = pm_target_peers m"
    "temporary_banned_peers m' = temporary_banned_peers m"
  shows "follows m now m'"
proof -
  have t: "timed m" using assms(1) by (simp add: manager_ok_def)
  have "q \<in> status_peers m' \<and> ping_timer m' q e" if q: "conn_dir (pm_db m') q = Some e" for q e
  proof (cases "conn_dir (pm_db m) q = Some e")
    case True
    then have "q \<in> status_peers m" "ping_timer m q e" using t by (auto simp: timed_def)
    then show ?thesis using assms(6) timers_sub_timer [OF assms(6), of q e] by (auto simp: timers_sub_def)
  next
    case False
    then have "q = p" "e = Some d" using q assms(4,5) by (auto split: if_splits)
    then show ?thesis using assms(7,8) by simp
  qed
  then show ?thesis using assms(1,3,9,10) by (simp add: follows_def manager_ok_def timed_def)
qed

lemma established_ok:
  assumes "manager_ok m now" "small (pm_db m)"
  shows "follows m now (on_connection_established m now p endpoint)"
proof (cases endpoint)
  case (Listener a)
  let ?m = "on_connection_established m now p (Listener a)"
  obtain d' where d: "conn_dir (db_connect_ingoing (pm_db m) now p a None) = (conn_dir (pm_db m))(p \<mapsto> d')"
    "d' = Some Incoming \<or> conn_dir (pm_db m) p = Some d'"
    using conn_connect [OF refl, of "pm_db m" now p None a Incoming] unfolding db_connect_ingoing_def by blast
  have db: "pm_db ?m = db_connect_ingoing (pm_db m) now p a None"
    by (simp add: on_connection_established_def inject_peer_connection_def put_db_def)
  show ?thesis unfolding Listener
    by (rule follows_connect [OF assms, where d = Incoming and p = p and d' = d'])
      (simp_all add: db d db_call.connect_in [OF assms(2)] on_connection_established_def inject_peer_connection_def timers_sub_def
        ping_timer_def subset_insertI)
next
  case (Dialer a)
  let ?m = "on_connection_established m now p (Dialer a)"
  obtain d' where d: "conn_dir (db_connect_outgoing (pm_db m) now p a None) = (conn_dir (pm_db m))(p \<mapsto> d')"
    "d' = Some Outgoing \<or> conn_dir (pm_db m) p = Some d'"
    using conn_connect [OF refl, of "pm_db m" now p None a Outgoing] unfolding db_connect_outgoing_def by blast
  have db: "pm_db ?m = db_connect_outgoing (pm_db m) now p a None"
    by (simp add: on_connection_established_def inject_peer_connection_def put_db_def)
  show ?thesis unfolding Dialer
    by (rule follows_connect [OF assms, where d = Outgoing and p = p and d' = d'])
      (simp_all add: db d db_call.connect_out [OF assms(2)] on_connection_established_def inject_peer_connection_def timers_sub_def
        ping_timer_def subset_insertI)
qed

lemma pm_inject_disconnect_ok:
  assumes "manager_ok m now" "small (pm_db m)"
  shows "\<exists>m'. pm_inject_disconnect m now p = Some m' \<and> follows m now m'"
proof -
  obtain op purged db where i: "inject_disconnect (pm_db m) now p = ((op, purged), db)"
    by (cases "inject_disconnect (pm_db m) now p") auto
  have conn: "conn_dir db \<subseteq>\<^sub>m (conn_dir (pm_db m))(p := None)"
    using conn_inject_disconnect [of "pm_db m" now p] by (simp add: i)
  have le: "conn_dir db \<subseteq>\<^sub>m conn_dir (pm_db m)" using map_le_trans [OF conn upd_le(1)] .
  have step: "db_step (pm_db m) db"
    using db_call.disconnect [of "pm_db m" False now p] assms(2) by (simp add: i)
  have f: "follows m now (put_db m db)" by (rule follows_put [OF assms(1) _ le]) (simp add: step r_into_rtranclp)
  note ok = follows_ok [OF assms(1) f]
  have none: "conn_dir db p = None" using conn by (metis fun_upd_same map_le_def domIff)
  obtain c es where h: "(case op of Some op \<Rightarrow> handle_ban_operation (put_db m db) now p op None | None \<Rightarrow> Some (put_db m db)) =
      Some ((put_db m db)\<lparr>temporary_banned_peers := c, pm_events := es\<rparr>)" "cache_ok c now"
  proof (cases op)
    case None
    then show ?thesis using that [where c = "temporary_banned_peers m" and es = "pm_events (put_db m db)"] assms(1) by (simp add: manager_ok_def put_db_def)
  next
    case (Some x)
    have "cache_ok (temporary_banned_peers (put_db m db)) now" using ok by (simp only: manager_ok_def)
    from handle_ban_ok [OF this, of p x None] Some that show ?thesis by auto
  qed
  define m1 where "m1 = (put_db m db)\<lparr>temporary_banned_peers := c, pm_events := es\<rparr>"
  define m2 where "m2 = m1\<lparr>inbound_ping_peers := inbound_ping_peers m1 - {p}, outbound_ping_peers := outbound_ping_peers m1 - {p},
    status_peers := status_peers m1 - {p}, pm_events := pm_events m1 @ map (\<lambda>(q, ips). UnBannedPeer q ips) purged\<rparr>"
  have "timed (put_db m db)" using ok by (simp add: manager_ok_def)
  then have "timed m2"
    by (rule timed_without [where p = p]) (simp_all add: none m2_def m1_def)
  then have "follows m now m2"
    using h(2) f by (simp add: follows_def m2_def m1_def)
  moreover have "pm_inject_disconnect m now p = Some m2"
    by (simp add: pm_inject_disconnect_def i Let_def h(1) m1_def [symmetric] m2_def)
  ultimately show ?thesis by blast
qed

lemma closed_ok:
  assumes "manager_ok m now" "small (pm_db m)"
  shows "\<exists>m'. pm_connection_closed m now p n = Some m' \<and> follows m now m'"
proof (cases "0 < n")
  case False
  define m1 where "m1 = (if is_connected_or_disconnecting (pm_db m) p then push_event m (PeerDisconnected p) else m)"
  have m1: "pm_globals m1 = pm_globals m" by (simp add: m1_def)
  have f: "follows m now m1" by (rule follows_same [OF assms(1) m1]) (simp_all add: m1_def timers_sub_def)
  have "small (pm_db m1)" using assms(2) m1 by simp
  from pm_inject_disconnect_ok [OF follows_ok [OF assms(1) f] this, of p] obtain m'
    where "pm_inject_disconnect m1 now p = Some m'" "follows m1 now m'" by blast
  then show ?thesis using False follows_trans [OF f, of m'] by (simp add: pm_connection_closed_def m1_def)
qed (simp add: pm_connection_closed_def follows_refl assms)

lemma poll_ok:
  assumes "manager_ok m now" "small (pm_db m)"
  shows "\<exists>r m'. pm_poll m now ticks inb outb sts = Some (r, m') \<and> follows m now m'"
proof -
  obtain m1 where m1: "heartbeats m now ticks = Some m1" "follows_keys m now m1" using heartbeats_ok [OF assms] by blast
  define m2 where "m2 = status_expired sts (ping_expired inb outb m1)"
  have g: "pm_globals m2 = pm_globals m1"
    by (simp add: m2_def status_expired_def ping_expired_def split: sync_state.split)
  have "follows_keys m1 now m2"
    by (rule follows_keys_same [OF follows_keys_ok(1) [OF assms(1) m1(2)] g])
      (auto simp: m2_def status_expired_def ping_expired_def timers_sub_def split: sync_state.split)
  with m1(2) have f: "follows_keys m now m2" by (rule follows_keys_trans)
  note ok = follows_keys_ok(1) [OF assms(1) f] and small = follows_keys_ok(2) [OF assms(2) f]
  have ev: "follows m2 now (m2\<lparr>pm_events := es\<rparr>)" for es
    by (rule follows_same [OF ok]) (simp_all add: timers_sub_def)
  have pd: "follows m2 now (m2\<lparr>peers_to_dial := es\<rparr>)" for es
    by (rule follows_same [OF ok]) (simp_all add: timers_sub_def)
  have "follows m2 now (snd (inject_peer_connection (m2\<lparr>peers_to_dial := es\<rparr>) now p DialingConnection e))" for es p e
    using dial_inject_ok [OF follows_ok [OF ok pd [of es]]] pd [of es] small follows_trans by fastforce
  then have "\<exists>r m'. pm_poll m now ticks inb outb sts = Some (r, m') \<and> follows m2 now m'"
    using ev follows_refl [OF ok]
    by (auto simp: pm_poll_def m1(1) Let_def m2_def [symmetric] split: list.split)
  then show ?thesis using f follows_trans unfolding follows_keys_def by blast
qed

section \<open>Requests and responses\<close>

text \<open>Changes of one info that the database does not count.\<close>

lemma mutate_ok:
  assumes "manager_ok m now" "peer_info_of (pm_db m) p = Some i" "like i' i" "pi_score i' = pi_score i" "is_trusted i' = is_trusted i"
    "pi_connection_direction i' = pi_connection_direction i"
  shows "follows_keys m now (put_db m (put_info (pm_db m) p i'))"
proof -
  have "db_step (pm_db m) (put_info (pm_db m) p i')" by (rule db_call.mutate [OF assms(2-5)])
  moreover have "conn_dir (put_info (pm_db m) p i') = conn_dir (pm_db m)"
    by (rule conn_like [OF assms(2)]) (use assms(3,6) in \<open>simp_all add: like_def\<close>)
  ultimately have "follows m now (put_db m (put_info (pm_db m) p i'))"
    by (intro follows_put [OF assms(1)]) (simp_all add: r_into_rtranclp del: conn_dir_put)
  then show ?thesis using touches_keys [OF touches_put peer_info_keys [OF assms(2)]] by (simp add: follows_keys_def)
qed

definition goodbye_base :: "'p peer_manager \<Rightarrow> 'p \<Rightarrow> goodbye_reason \<Rightarrow> 'p peer_manager" where
  "goodbye_base m p r = (if r = IrrelevantNetwork then put_db m (snd (db_update_sync_status (pm_db m) p IrrelevantPeer)) else m)"

lemma goodbye_base_ok:
  assumes "manager_ok m now"
  shows "follows_keys m now (goodbye_base m p r)"
    "peer_info_of (pm_db m) p = Some i \<Longrightarrow> \<exists>i0. peer_info_of (pm_db (goodbye_base m p r)) p = Some i0 \<and> is_connected i0 = is_connected i \<and>
       pi_score i0 = pi_score i \<and> is_trusted i0 = is_trusted i"
    "pm_events (goodbye_base m p r) = pm_events m" "temporary_banned_peers (goodbye_base m p r) = temporary_banned_peers m"
    "db_banned (pm_db (goodbye_base m p r)) = db_banned (pm_db m)"
    "disconnected_peers (pm_db (goodbye_base m p r)) = disconnected_peers (pm_db m)"
proof -
  note keep = update_sync_status_def Let_def case_prod_beta like_def is_connected_def
  have "follows_keys m now (put_db m (put_info (pm_db m) p (snd (update_sync_status i IrrelevantPeer))))"
    if "peer_info_of (pm_db m) p = Some i" for i
    by (rule mutate_ok [OF assms that]) (simp_all add: keep)
  then show "follows_keys m now (goodbye_base m p r)"
    using follows_keys_refl [OF assms]
    by (cases "peer_info_of (pm_db m) p") (simp_all add: goodbye_base_def db_update_sync_status_def case_prod_beta Let_def put_db_def)
qed (auto simp: goodbye_base_def db_update_sync_status_def update_sync_status_def is_connected_def put_db_def Let_def case_prod_beta
      split: option.split)

lemma goodbye_ok:
  assumes "manager_ok m now" "small (pm_db m)"
  shows "\<exists>m'. goodbye_peer m now p r = Some m' \<and> follows m now m'"
proof -
  note m0 = goodbye_base_ok(1) [OF assms(1), of p r]
  then show ?thesis
    using pm_report_ok [OF follows_keys_ok(1) [OF assms(1) m0] follows_keys_ok(2) [OF assms(2) m0], of p Fatal "Some r"]
      follows_trans unfolding goodbye_peer_def goodbye_base_def [symmetric] follows_keys_def by blast
qed

lemma meta_data_ok:
  assumes "manager_ok m now" "small (pm_db m)"
  shows "\<exists>b m'. meta_data_response node_id_of m now p md = Some (b, m') \<and> follows m now m'"
proof (cases "peer_info_of (pm_db m) p")
  case (Some i)
  define m1 where "m1 = put_db m (put_info (pm_db m) p (i\<lparr>pi_meta_data := Some md\<rparr>))"
  have m1: "follows_keys m now m1"
    unfolding m1_def by (rule mutate_ok [OF assms(1) Some]) (simp_all add: like_def)
  have m2: "follows m now (put_db m (put_info (pm_db m) p (i\<lparr>pi_meta_data := Some md, custody_subnets := ss\<rparr>)))" for ss
    using mutate_ok [OF assms(1) Some, of "i\<lparr>pi_meta_data := Some md, custody_subnets := ss\<rparr>"] by (simp add: like_def follows_keys_def)
  obtain m3 where m3: "goodbye_peer m1 now p Fault = Some m3" "follows m now m3"
    using goodbye_ok [OF follows_keys_ok(1) [OF assms(1) m1] follows_keys_ok(2) [OF assms(2) m1], of p Fault] m1 follows_trans
    unfolding follows_keys_def by blast
  show ?thesis
    using m1 m2 m3 unfolding meta_data_response_def Some option.case Let_def m1_def [symmetric] follows_keys_def
    by (auto split: option.split)
qed (auto simp: meta_data_response_def follows_refl assms)

lemma rpc_error_ok:
  assumes "manager_ok m now" "small (pm_db m)"
  shows "\<exists>m'. handle_rpc_error m now p q err d = Some m' \<and> follows m now m'"
  using pm_report_ok [OF assms] follows_refl [OF assms(1)] by (simp add: handle_rpc_error_def split: option.split)

lemma request_metadata_fields:
  "pm_globals (request_newer_metadata m p i seq) = pm_globals m"
  "timers_sub m m' \<Longrightarrow> timers_sub m (request_newer_metadata m' p i seq)"
  "pm_target_peers (request_newer_metadata m p i seq) = pm_target_peers m"
  "temporary_banned_peers (request_newer_metadata m p i seq) = temporary_banned_peers m"
  by (simp_all add: request_newer_metadata_def timers_sub_def split: option.split)

lemma ping_ok:
  assumes "manager_ok m now"
  shows "follows m now (ping_request m p seq)" "follows m now (pong_response m p seq)"
  by (rule follows_same [OF assms];
      auto simp: ping_request_def pong_response_def request_metadata_fields timers_sub_def
        intro!: request_metadata_fields(2) [unfolded timers_sub_def] split: option.split connection_direction.split)+

lemma identify_ok:
  assumes "manager_ok m now"
  shows "follows m now (identify m p agent ver addrs)"
proof (cases "peer_info_of (pm_db m) p")
  case (Some i)
  have "follows_keys m now (put_db m (put_info (pm_db m) p
      ((snd (set_listening_addresses i addrs))\<lparr>pi_client := client_from_identify_info agent ver\<rparr>)))"
    by (rule mutate_ok [OF assms Some]) (simp_all add: set_listening_addresses_def like_def)
  then show ?thesis by (simp add: identify_def Some follows_keys_def)
qed (simp add: identify_def follows_refl assms)

lemma disconnect_ok:
  assumes "manager_ok m now" "small (pm_db m)"
  shows "follows m now (disconnect_peer m now p r)"
proof (rule followsI [OF assms(1)])
  show "rtranclp db_step (pm_db m) (pm_db (disconnect_peer m now p r))"
    using db_call.disconnecting [OF assms(2), of False now p False] by simp
  show "conn_dir (pm_db (disconnect_peer m now p r)) \<subseteq>\<^sub>m conn_dir (pm_db m)"
    by (simp add: notify_disconnecting_def)
qed (use assms(1) in \<open>simp_all add: disconnect_peer_def timers_sub_def manager_ok_def\<close>)

section \<open>Runs\<close>

text \<open>
  \<open>pm_call now m r\<close>: a call of the manager \<open>m\<close> at time \<open>now\<close> gives \<open>r\<close>, where \<open>None\<close> is a panic. The table of
  peers has a length of 64 bits. The last two cases are changes of the shared state by other parts of the node.
\<close>

inductive pm_call :: "nanos \<Rightarrow> 'p peer_manager \<Rightarrow> 'p peer_manager option \<Rightarrow> bool" for now m where
  goodbye: "small (pm_db m) \<Longrightarrow> pm_call now m (goodbye_peer m now p r)"
| report: "small (pm_db m) \<Longrightarrow> pm_call now m (pm_report_peer m now p a reason)"
| rpc_error: "small (pm_db m) \<Longrightarrow> pm_call now m (handle_rpc_error m now p q err d)"
| gossip: "small (pm_db m) \<Longrightarrow> (\<And>xs. mset (sort_desc xs) = mset xs) \<Longrightarrow>
    pm_call now m (pm_update_gossipsub_scores score_of sort_desc m now)"
| discovered: "pm_call now m (peers_discovered m now results)"
| dial: "pm_call now m (Some (snd (dial_peer m e)))"
| sync_subnet: "pm_call now m (Some (add_sync_subnet m sn ttl))"
| trusted: "pm_call now m (Some (pm_add_trusted_peer m e))"
| untrusted: "pm_call now m (Some (pm_remove_trusted_peer m e))"
| statusd: "pm_call now m (Some (peer_statusd m p))"
| identified: "pm_call now m (Some (identify m p agent ver addrs))"
| ping: "pm_call now m (Some (ping_request m p seq))"
| pong: "pm_call now m (Some (pong_response m p seq))"
| meta_data: "small (pm_db m) \<Longrightarrow> pm_call now m (map_option snd (meta_data_response node_id_of m now p md))"
| disconnecting: "small (pm_db m) \<Longrightarrow> pm_call now m (Some (disconnect_peer m now p r))"
| established: "small (pm_db m) \<Longrightarrow> pm_call now m (Some (on_connection_established m now p endpoint))"
| closed: "small (pm_db m) \<Longrightarrow> pm_call now m (pm_connection_closed m now p remaining)"
| dial_failed: "small (pm_db m) \<Longrightarrow> pm_call now m (pm_dial_failure m now peer)"
| polled: "small (pm_db m) \<Longrightarrow> pm_call now m (map_option snd (pm_poll m now ticks inb outb sts))"
| shared_peers: "db_step (pm_db m) db \<Longrightarrow> conn_dir db \<subseteq>\<^sub>m conn_dir (pm_db m) \<Longrightarrow> pm_call now m (Some (put_db m db))"
| shared_state: "ng_peers g = pm_db m \<Longrightarrow> pm_call now m (Some (m\<lparr>pm_globals := g\<rparr>))"

inductive pm_run :: "nanos \<Rightarrow> 'p peer_manager \<Rightarrow> bool" where
  start: "peer_manager_new discovery quic target g = Some m \<Longrightarrow> target \<le> u64_max \<Longrightarrow>
    ng_peers g = db_new t0 trusted disable \<Longrightarrow> pm_run now m"
| step: "pm_run t m \<Longrightarrow> t \<le> now \<Longrightarrow> pm_call now m (Some m') \<Longrightarrow> pm_run now m'"

lemma call_ok:
  assumes "pm_call now m r" "manager_ok m now"
  shows "\<exists>m'. r = Some m' \<and> follows m now m'"
  using assms(1)
proof cases
  case (meta_data node_id_of p md)
  then show ?thesis using meta_data_ok [OF assms(2), of node_id_of p md] by auto
next
  case (polled ticks inb outb sts)
  then show ?thesis using poll_ok [OF assms(2), of ticks inb outb sts] by auto
next
  case (dial_failed peer)
  then show ?thesis
    using pm_inject_disconnect_ok [OF assms(2)] follows_refl [OF assms(2)] by (auto simp: pm_dial_failure_def split: option.split)
next
  case (shared_peers db)
  then show ?thesis using follows_put [OF assms(2), of db] by auto
next
  case (shared_state g)
  then show ?thesis using assms(2) by (auto intro!: followsI [OF assms(2)] simp: timers_sub_def manager_ok_def)
next
  case (sync_subnet sn ttl)
  then show ?thesis
    by (auto intro!: follows_same [OF assms(2)] simp: add_sync_subnet_def timers_sub_def split: option.split)
next
  case (goodbye p reason)
  then show ?thesis using goodbye_ok [OF assms(2)] by simp
next
  case (report p a reason)
  then show ?thesis using pm_report_ok [OF assms(2)] by simp
next
  case (rpc_error p q err d)
  then show ?thesis using rpc_error_ok [OF assms(2)] by simp
next
  case (gossip sort_desc score_of)
  then show ?thesis using pm_gossip_ok [OF assms(2), of sort_desc score_of] by simp
next
  case (disconnecting p reason)
  then show ?thesis using disconnect_ok [OF assms(2)] by simp
next
  case (established p endpoint)
  then show ?thesis using established_ok [OF assms(2)] by simp
next
  case (closed p remaining)
  then show ?thesis using closed_ok [OF assms(2)] by simp
next
  case (statusd p)
  then show ?thesis by (auto intro!: follows_same [OF assms(2)] simp: peer_statusd_def timers_sub_def)
qed (simp_all add: peers_discovered_ok dial_peer_ok identify_ok ping_ok assms(2) follows_same timers_sub_def
      pm_add_trusted_peer_def pm_remove_trusted_peer_def)

lemma map_of_fold_update: "map_of (fold (\<lambda>p. AList.update p v) ps xs) x = (if x \<in> set ps then Some v else map_of xs x)"
  by (induction ps arbitrary: xs) (simp_all add: AList.update_conv')

lemma conn_db_new: "conn_dir (db_new t0 trusted disable) = Map.empty"
  by (auto simp: conn_dir_def [abs_def] peer_info_of_def db_new_def map_of_fold_update trusted_peer_info_def peer_info_default_def
      is_connected_def)

lemma run_ok: "pm_run t m \<Longrightarrow> manager_ok m t"
proof (induction rule: pm_run.induct)
  case (start discovery quic target g m t0 trusted disable now)
  let ?db = "db_new t0 trusted disable :: 'a peer_db"
  have "reachable_db ?db" by (auto simp: reached_def)
  then show ?case using start by (auto simp: conn_db_new peer_manager_new_def manager_ok_def timed_def cache_ok_def lru_new_def)
next
  case (step t m now m')
  then show ?case using call_ok [of now m "Some m'"] manager_ok_later follows_ok by blast
qed

section \<open>Properties\<close>

text \<open>
  C13. In every run of the peer manager, every call returns, and the peer database it leaves is reached
  from the one it found by operations of the database alone. What is proved of reachable databases
  holds for the database of a running manager. Nothing is asked of the callers: they may disconnect
  banned peers and trust any number of peers. The one bound is that the table of peers and the target
  have a length of 64 bits.
\<close>

theorem manager_never_panics:
  assumes "pm_run t m" "t \<le> now" "pm_call now m r"
  shows "\<exists>m'. r = Some m' \<and> rtranclp db_step (pm_db m) (pm_db m') \<and> reachable_db (pm_db m')"
proof -
  have ok: "manager_ok m now" using manager_ok_later [OF run_ok [OF assms(1)] assms(2)] .
  obtain m' where "r = Some m'" "follows m now m'" using call_ok [OF assms(3) ok] by blast
  moreover have "manager_ok m' now" by (rule follows_ok [OF ok calculation(2)])
  ultimately show ?thesis by (simp add: follows_def manager_ok_def)
qed

definition demo_start :: "nat peer_manager" where
  "demo_start = (demo_manager 10 (db_new 0 [] False))\<lparr>inbound_ping_peers := {}, status_peers := {}\<rparr>"

definition demo_joined :: "nat peer_manager" where
  "demo_joined = on_connection_established demo_start 5 7 (Listener [])"

lemma demo_runs: "pm_run 0 demo_start" "pm_run 5 demo_joined"
proof -
  show s: "pm_run 0 demo_start"
    by (rule pm_run.start [where g = "demo_globals (db_new 0 [] False)" and target = 10 and discovery = True and quic = True])
      (simp_all add: peer_manager_new_def demo_start_def demo_manager_def demo_globals_def demo_custody_def u64_max_def)
  have "small (pm_db demo_start)" by (simp add: demo_start_def small_def db_new_def u64_max_def)
  with pm_run.step [OF s _ pm_call.established, of 5 7 "Listener []"] show "pm_run 5 demo_joined" by (simp add: demo_joined_def)
qed

lemma demo_joined_info: "peers (pm_db demo_joined) = [(7, connect_ingoing (peer_info_default 5) [])]"
  by (simp add: demo_joined_def demo_start_def on_connection_established_def inject_peer_connection_def db_connect_ingoing_def
      update_connection_state_def to_connected_def entry_info_def peer_info_of_def db_new_def put_info_def set_enr_def
      peer_info_default_def Let_def)

theorem manager_never_panics_witness:
  "\<exists>m'. map_option snd (pm_poll demo_joined 9 [\<lambda>_ _. 0] [7] [] []) = Some m' \<and> reachable_db (pm_db m')"
proof -
  have "small (pm_db demo_joined)" by (simp add: small_def demo_joined_info u64_max_def)
  then have "pm_call 9 demo_joined (map_option snd (pm_poll demo_joined 9 [\<lambda>_ _. 0] [7] [] []))" by (rule pm_call.polled)
  from manager_never_panics [OF demo_runs(2) _ this] show ?thesis by auto
qed

text \<open>
  C14. In every run of the peer manager, each connected peer has its status timer and the ping timer of
  the direction of its connection, so it is asked for its status and pinged.
\<close>

theorem connected_peers_timed:
  assumes "pm_run t m" "peer_info_of (pm_db m) p = Some i" "is_connected i"
  shows "p \<in> status_peers m \<and>
    (pi_connection_direction i = Some Incoming \<and> p \<in> inbound_ping_peers m \<or>
     pi_connection_direction i = Some Outgoing \<and> p \<in> outbound_ping_peers m)"
proof -
  have "timed m" using run_ok [OF assms(1)] by (simp add: manager_ok_def)
  moreover have "conn_dir (pm_db m) p = Some (pi_connection_direction i)" using assms(2,3) by (simp add: conn_dir_def)
  ultimately have "p \<in> status_peers m" "ping_timer m p (pi_connection_direction i)" by (auto simp: timed_def)
  then show ?thesis by (auto simp: ping_timer_def split: option.splits connection_direction.splits)
qed

theorem connected_peers_timed_witness: "7 \<in> status_peers demo_joined \<and> 7 \<in> inbound_ping_peers demo_joined"
  using connected_peers_timed [OF demo_runs(2), of 7 "connect_ingoing (peer_info_default 5) []"] demo_joined_info
  by (simp add: peer_info_of_def connect_connected) (simp add: connect_ingoing_def peer_info_default_def Let_def)

text \<open>
  C16. The limits of the manager are in order for every target of 64 bits, although they are computed
  with single precision floats: the target, the limit for inbound peers, the limit for outbound peers
  and the limit for peers that validators need; the outbound minimum, the outbound target and the target.
\<close>

theorem limits_ordered:
  assumes "t \<le> u64_max"
  shows "t \<le> max_peers t \<and> max_peers t \<le> max_outbound_dialing_peers t \<and> max_outbound_dialing_peers t \<le> max_priority_peers t \<and>
    min_outbound_only_peers t \<le> target_outbound_peers t \<and> target_outbound_peers t \<le> t"
proof -
  have "MIN_OUTBOUND_ONLY_FACTOR \<le> TARGET_OUTBOUND_ONLY_FACTOR" "TARGET_OUTBOUND_ONLY_FACTOR \<le> 2 ^ 26"
    by simp_all
  then show ?thesis
    using max_peers_ge [OF assms] limit_factors(2,3)
    by (auto simp: max_peers_def max_outbound_dialing_peers_def max_priority_peers_def min_outbound_only_peers_def
        target_outbound_peers_def intro!: f32_scale_ceil_mono f32_scale_ceil_le)
qed

theorem limits_ordered_witness: "100 \<le> max_peers 100 \<and> max_peers 100 \<le> max_priority_peers 100"
  using limits_ordered [of 100] by (auto simp: u64_max_def)

text \<open>
  C15. A goodbye bans a connected peer: the manager asks the swarm to disconnect it, and when the
  connection has closed it reports the disconnection and the ban. In the manager this leaves, the peer
  is not dialed and its inbound connections are denied. The peer is not trusted, its score is not in the
  banned range yet (a banned score makes no new ban) and it is not banned temporarily, and fewer than
  \<open>MAX_BANNED_PEERS\<close> peers are counted as banned and at most \<open>MAX_DC_PEERS\<close> as disconnected, so that closing the
  connection drops no peer from the table.
\<close>

theorem goodbye_bans:
  assumes "pm_run t m" "t \<le> now" "peer_info_of (pm_db m) p = Some i" "is_connected i" "\<not> is_trusted i"
    "pi_score_state i \<noteq> BannedState" "cache_times (temporary_banned_peers m) p = None"
    "banned_peers (db_banned (pm_db m)) < MAX_BANNED_PEERS" "disconnected_peers (pm_db m) \<le> MAX_DC_PEERS"
  shows "\<exists>m1 m2 ips. goodbye_peer m now p reason = Some m1 \<and> pm_connection_closed m1 now' p 0 = Some m2 \<and>
    pm_events m1 = pm_events m @ [DisconnectPeer p reason] \<and>
    pm_events m2 = filter (\<lambda>e. case e of UnBannedPeer q _ \<Rightarrow> q \<noteq> p | _ \<Rightarrow> True)
      (pm_events m @ [DisconnectPeer p reason, PeerDisconnected p, BannedPeer p ips]) \<and>
    \<not> should_dial (pm_db m2) p \<and> handle_established_inbound_connection m2 later p = Err BadScoreDenied"
proof -
  have ok: "manager_ok m now" using manager_ok_later [OF run_ok [OF assms(1)] assms(2)] .
  let ?m0 = "goodbye_base m p reason"
  note base = goodbye_base_ok [OF ok, where p = p and r = reason]
  obtain i0 where i0: "peer_info_of (pm_db ?m0) p = Some i0" "is_connected i0" "\<not> is_trusted i0" "pi_score i0 = pi_score i"
    using base(2) [OF assms(3)] assms(4,5) by auto
  have r: "reachable_db (pm_db ?m0)" using follows_keys_ok(1) [OF ok base(1)] by (simp add: manager_ok_def)
  have st: "pi_score_state i0 \<noteq> BannedState" using assms(6) by (simp add: pi_score_state_def i0(4))
  define rep where "rep = db_report_peer (pm_db ?m0) now p Fatal"
  define dis where "dis = inject_disconnect (snd rep) now' p"
  obtain ips where f: "fst rep = BanUpdate DisconnectThePeer" "is_connected_or_disconnecting (snd rep) p"
    "fst dis = (Some (ReadyToBan ips), [])" "ban_status (snd dis) p = Some BadScoreBan" "\<not> should_dial (snd dis) p"
    using fatal_report_then_disconnect [OF r i0(1-3) st, of now now'] assms(8,9) base(5,6)
    unfolding rep_def dis_def by auto
  define m1 where "m1 = push_event (put_db ?m0 (snd rep)) (DisconnectPeer p reason)"
  have g: "goodbye_peer m now p reason = Some m1"
    using f(1) by (simp add: goodbye_peer_def goodbye_base_def [symmetric] pm_report_peer_def rep_def case_prod_beta
        handle_score_action_def handle_ban_operation_def m1_def)
  have "cache_ok (temporary_banned_peers m) now" using ok by (simp add: manager_ok_def)
  from raw_remove_spec [OF this, of p] obtain c where c: "raw_remove (temporary_banned_peers m) p = Some (False, c)"
    using assms(7) by auto
  have fields: "pm_db m1 = snd rep" "temporary_banned_peers m1 = temporary_banned_peers m" "pm_events m1 = pm_events m @ [DisconnectPeer p reason]"
    using base(3,4) by (simp_all add: m1_def push_event_def put_db_def)
  have d: "inject_disconnect (snd rep) now' p = ((Some (ReadyToBan ips), []), snd dis)" using f(3) by (metis dis_def prod.collapse)
  obtain m2 where m2: "pm_connection_closed m1 now' p 0 = Some m2" "pm_db m2 = snd dis"
    "pm_events m2 = filter (\<lambda>e. case e of UnBannedPeer q _ \<Rightarrow> q \<noteq> p | _ \<Rightarrow> True)
      (pm_events m @ [DisconnectPeer p reason, PeerDisconnected p, BannedPeer p ips])"
    using f(2) by (simp add: pm_connection_closed_def pm_inject_disconnect_def fields d c handle_ban_operation_def Let_def push_event_def
        put_db_def)
  then show ?thesis
    using g fields(3) f(4,5) by (auto simp: handle_established_inbound_connection_def)
qed

theorem goodbye_bans_witness:
  "\<exists>m1. goodbye_peer demo_joined 6 7 Fault = Some m1 \<and> (\<exists>m2. pm_connection_closed m1 8 7 0 = Some m2 \<and> \<not> should_dial (pm_db m2) 7)"
proof -
  let ?i = "connect_ingoing (peer_info_default 5) []"
  have "\<not> is_trusted ?i" "pi_score_state ?i \<noteq> BannedState"
    by (simp_all add: connect_ingoing_def peer_info_default_def Let_def pi_score_state_def score_state_def real_score_default_def
        state_of_value_def score_constants score_default_def)
  moreover have "peer_info_of (pm_db demo_joined) 7 = Some ?i"
    by (simp add: demo_joined_info peer_info_of_def)
  moreover have "cache_times (temporary_banned_peers demo_joined) 7 = None" "db_banned (pm_db demo_joined) = banned_peers_count_default"
    "disconnected_peers (pm_db demo_joined) = 0"
    by (simp_all add: demo_joined_def demo_start_def demo_manager_def on_connection_established_def inject_peer_connection_def
        cache_times_def lru_new_def demo_globals_def db_connect_ingoing_def update_connection_state_def to_connected_def entry_info_def
        peer_info_of_def db_new_def put_info_def put_db_def push_event_def set_enr_def peer_info_default_def Let_def)
  ultimately show ?thesis
    using goodbye_bans [OF demo_runs(2), of 6 7 ?i Fault 8 9] connect_connected(1)
    by (auto simp: banned_peers_count_default_def MAX_BANNED_PEERS_def MAX_DC_PEERS_def)
qed

end
