(* ===== verification/GossipCache.thy ===== *)
theory GossipCache
  imports Topics
begin

text \<open>
  The cache of gossip messages that could not be published, \<open>service/gossip_cache.rs\<close>. The delay queue
  is that of another crate: an entry has a key, which \<open>insert\<close> hands out, here an argument that is
  in use by no other entry, and a deadline; \<open>remove\<close> and \<open>reset\<close> panic on a key that is gone, which is
  \<open>None\<close>, as are failed debug assertions. Which entry has expired is an argument of the poll. The setters of the
  builder are the updates of its fields.
\<close>

section \<open>State\<close>

record gossip_timeouts =
  beacon_block :: "nanos option"
  blob_sidecar :: "nanos option"
  data_column_sidecar :: "nanos option"
  aggregates :: "nanos option"
  attestation :: "nanos option"
  voluntary_exit :: "nanos option"
  proposer_slashing :: "nanos option"
  attester_slashing :: "nanos option"
  signed_contribution_and_proof :: "nanos option"
  sync_committee_message :: "nanos option"
  bls_to_execution_change :: "nanos option"
  light_client_finality_update :: "nanos option"
  light_client_optimistic_update :: "nanos option"
  execution_payload_bid :: "nanos option"

record gossip_cache_builder = gossip_timeouts +
  default_timeout :: "nanos option"

type_synonym gossip_data = "8 word list"

record gossip_cache = gossip_timeouts +
  expirations :: "(nat \<times> (gossip_topic \<times> gossip_data) \<times> nanos) list"
  topic_msgs :: "(gossip_topic \<times> (gossip_data \<times> nat) list) list"

definition or_else :: "'a option \<Rightarrow> 'a option \<Rightarrow> 'a option" where
  "or_else x y = (case x of Some a \<Rightarrow> Some a | None \<Rightarrow> y)"

definition gossip_cache_build :: "gossip_cache_builder \<Rightarrow> gossip_cache" where
  "gossip_cache_build b =
     (let default = default_timeout b in
      \<lparr>beacon_block = or_else (beacon_block b) default,
       blob_sidecar = or_else (blob_sidecar b) default,
       data_column_sidecar = or_else (data_column_sidecar b) default,
       aggregates = or_else (aggregates b) default,
       attestation = or_else (attestation b) default,
       voluntary_exit = or_else (voluntary_exit b) default,
       proposer_slashing = or_else (proposer_slashing b) default,
       attester_slashing = or_else (attester_slashing b) default,
       signed_contribution_and_proof = or_else (signed_contribution_and_proof b) default,
       sync_committee_message = or_else (sync_committee_message b) default,
       bls_to_execution_change = or_else (bls_to_execution_change b) default,
       light_client_finality_update = or_else (light_client_finality_update b) default,
       light_client_optimistic_update = or_else (light_client_optimistic_update b) default,
       execution_payload_bid = or_else (execution_payload_bid b) default,
       expirations = [], topic_msgs = []\<rparr>)"

section \<open>Operations\<close>

definition expire_timeout :: "gossip_cache \<Rightarrow> gossip_kind \<Rightarrow> nanos option" where
  "expire_timeout c k =
     (case k of
        BeaconBlockKind \<Rightarrow> beacon_block c
      | BlobSidecarKind _ \<Rightarrow> blob_sidecar c
      | DataColumnSidecarKind _ \<Rightarrow> data_column_sidecar c
      | BeaconAggregateAndProofKind \<Rightarrow> aggregates c
      | AttestationKind _ \<Rightarrow> attestation c
      | VoluntaryExitKind \<Rightarrow> voluntary_exit c
      | ProposerSlashingKind \<Rightarrow> proposer_slashing c
      | AttesterSlashingKind \<Rightarrow> attester_slashing c
      | SignedContributionAndProofKind \<Rightarrow> signed_contribution_and_proof c
      | SyncCommitteeMessageKind _ \<Rightarrow> sync_committee_message c
      | BlsToExecutionChangeKind \<Rightarrow> bls_to_execution_change c
      | LightClientFinalityUpdateKind \<Rightarrow> light_client_finality_update c
      | LightClientOptimisticUpdateKind \<Rightarrow> light_client_optimistic_update c
      | ExecutionPayloadBidKind \<Rightarrow> execution_payload_bid c)"

definition cached_for :: "gossip_cache \<Rightarrow> gossip_topic \<Rightarrow> (gossip_data \<times> nat) list" where
  "cached_for c topic = (case map_of (topic_msgs c) topic of Some ms \<Rightarrow> ms | None \<Rightarrow> [])"

definition cache_insert :: "gossip_cache \<Rightarrow> nanos \<Rightarrow> nat \<Rightarrow> gossip_topic \<Rightarrow> gossip_data \<Rightarrow> gossip_cache option" where
  "cache_insert c now new_key topic d =
     (case expire_timeout c (gt_kind topic) of
        None \<Rightarrow> Some c
      | Some t \<Rightarrow>
          (case map_of (cached_for c topic) d of
             Some k \<Rightarrow>
               (case map_of (expirations c) k of
                  Some (x, _) \<Rightarrow> Some (c\<lparr>expirations := AList.update k (x, now + t) (expirations c)\<rparr>)
                | None \<Rightarrow> None)
           | None \<Rightarrow>
               Some (c\<lparr>expirations := expirations c @ [(new_key, (topic, d), now + t)],
                       topic_msgs := AList.update topic (cached_for c topic @ [(d, new_key)]) (topic_msgs c)\<rparr>)))"

fun remove_keys :: "nat list \<Rightarrow> (nat \<times> 'v) list \<Rightarrow> (nat \<times> 'v) list option" where
  "remove_keys [] q = Some q"
| "remove_keys (k # ks) q = (if map_of q k = None then None else remove_keys ks (AList.delete k q))"

definition cache_retrieve :: "gossip_cache \<Rightarrow> gossip_topic \<Rightarrow> (gossip_data list option \<times> gossip_cache) option" where
  "cache_retrieve c topic =
     (case map_of (topic_msgs c) topic of
        None \<Rightarrow> Some (None, c)
      | Some ms \<Rightarrow>
          map_option (\<lambda>q. (Some (map fst ms), c\<lparr>expirations := q, topic_msgs := AList.delete topic (topic_msgs c)\<rparr>))
            (remove_keys (map snd ms) (expirations c)))"

text \<open>The poll with the expired key \<open>k\<close>; both debug assertions are checked.\<close>

definition cache_poll_next :: "gossip_cache \<Rightarrow> nat \<Rightarrow> (gossip_topic \<times> gossip_cache) option" where
  "cache_poll_next c k =
     (case map_of (expirations c) k of
        None \<Rightarrow> None
      | Some ((topic, d), _) \<Rightarrow>
          (case map_of (topic_msgs c) topic of
             None \<Rightarrow> None
           | Some ms \<Rightarrow>
               if map_of ms d \<noteq> Some k then None
               else let ms' = AList.delete d ms in
                    Some (topic, c\<lparr>expirations := AList.delete k (expirations c),
                                   topic_msgs := (if ms' = [] then AList.delete topic (topic_msgs c)
                                                  else AList.update topic ms' (topic_msgs c))\<rparr>)))"

section \<open>Invariant and abstraction\<close>

text \<open>The messages and their timers name each other.\<close>

definition cache_key :: "gossip_cache \<Rightarrow> gossip_topic \<Rightarrow> gossip_data \<Rightarrow> nat option" where
  "cache_key c t d = map_of (cached_for c t) d"

definition gossip_cache_ok :: "gossip_cache \<Rightarrow> bool" where
  "gossip_cache_ok c \<longleftrightarrow>
     (\<forall>t ms. map_of (topic_msgs c) t = Some ms \<longrightarrow> ms \<noteq> [] \<and> distinct (map fst ms)) \<and>
     (\<forall>k t d. (\<exists>u. map_of (expirations c) k = Some ((t, d), u)) \<longleftrightarrow> cache_key c t d = Some k)"

text \<open>What the cache holds: a deadline for every message.\<close>

definition deadlines :: "gossip_cache \<Rightarrow> (gossip_topic \<times> gossip_data) \<rightharpoonup> nanos" where
  "deadlines c = (\<lambda>(t, d). Option.bind (cache_key c t d) (\<lambda>k. map_option snd (map_of (expirations c) k)))"

lemma cache_ok_key:
  assumes "gossip_cache_ok c"
  shows "cache_key c t d = Some k \<longleftrightarrow> (\<exists>u. map_of (expirations c) k = Some ((t, d), u))"
  using assms by (simp add: gossip_cache_ok_def)

lemma deadlines_Some:
  assumes "gossip_cache_ok c"
  shows "deadlines c (t, d) = Some u \<longleftrightarrow> (\<exists>k. map_of (expirations c) k = Some ((t, d), u))"
  using cache_ok_key [OF assms, of t d] by (fastforce simp: deadlines_def bind_eq_Some_conv)

lemma cached_for_update [simp]:
  "cached_for (c\<lparr>expirations := q, topic_msgs := AList.update t ms (topic_msgs c)\<rparr>) = (cached_for c)(t := ms)"
  "cached_for (c\<lparr>expirations := q, topic_msgs := AList.delete t (topic_msgs c)\<rparr>) = (cached_for c)(t := [])"
  "cached_for (c\<lparr>expirations := q\<rparr>) = cached_for c"
  by (simp_all add: cached_for_def [abs_def] AList.update_conv' AList.delete_conv' fun_eq_iff)

lemma build_ok: "gossip_cache_ok (gossip_cache_build b)" "deadlines (gossip_cache_build b) = Map.empty"
  by (simp_all add: gossip_cache_build_def gossip_cache_ok_def deadlines_def cache_key_def cached_for_def Let_def fun_eq_iff)

lemma deadlines_eqI:
  assumes "gossip_cache_ok c" "\<And>t d u. (\<exists>k. map_of (expirations c) k = Some ((t, d), u)) \<longleftrightarrow> m (t, d) = Some u"
  shows "deadlines c = m"
proof
  fix x :: "gossip_topic \<times> gossip_data"
  obtain t d where x: "x = (t, d)" by (cases x)
  have "deadlines c x = Some u \<longleftrightarrow> m x = Some u" for u using deadlines_Some [OF assms(1)] assms(2) x by simp
  then show "deadlines c x = m x" by (metis not_None_eq)
qed

lemma expire_timeout_keep [simp]:
  "expire_timeout (c\<lparr>expirations := q\<rparr>) = expire_timeout c"
  "expire_timeout (c\<lparr>expirations := q, topic_msgs := ms\<rparr>) = expire_timeout c"
  by (auto simp: expire_timeout_def fun_eq_iff split: gossip_kind.split)

text \<open>A new message gets the new key; a known one keeps its key with a new deadline.\<close>

lemma insert_new_ok:
  fixes u :: nanos
  assumes "gossip_cache_ok c" "map_of (expirations c) new_key = None" "cache_key c topic d = None"
  defines "c' \<equiv> c\<lparr>expirations := expirations c @ [(new_key, (topic, d), u)],
      topic_msgs := AList.update topic (cached_for c topic @ [(d, new_key)]) (topic_msgs c)\<rparr>"
  shows "gossip_cache_ok c' \<and> deadlines c' = (deadlines c)((topic, d) \<mapsto> u)"
proof -
  note key = cache_ok_key [OF assms(1)]
  have dist: "distinct (map fst (cached_for c topic))" "d \<notin> fst ` set (cached_for c topic)"
    using assms(1,3) by (auto simp: gossip_cache_ok_def cached_for_def cache_key_def map_of_eq_None_iff split: option.splits)
  have e: "map_of (expirations c') = (map_of (expirations c))(new_key \<mapsto> ((topic, d), u))"
    using assms(2) by (auto simp: c'_def fun_eq_iff map_add_def split: option.split)
  have k: "cache_key c' t d' = (if t = topic \<and> d' = d then Some new_key else cache_key c t d')" for t d'
    using assms(3) by (simp add: c'_def cache_key_def map_add_def split: option.split)
  have "ms \<noteq> [] \<and> distinct (map fst ms)" if "map_of (topic_msgs c') t = Some ms" for t ms
    using that dist assms(1) by (auto simp: c'_def AList.update_conv' gossip_cache_ok_def split: if_splits)
  moreover have "cache_key c t d' \<noteq> Some new_key" for t d' using key [of t d'] assms(2) by simp
  then have "(\<exists>w. map_of (expirations c') k' = Some ((t, d'), w)) \<longleftrightarrow> cache_key c' t d' = Some k'" for k' t d'
    using key [of t d' k'] assms(2,3) unfolding e k by auto
  ultimately have ok: "gossip_cache_ok c'" unfolding gossip_cache_ok_def by blast
  have "(\<exists>k. map_of (expirations c') k = Some ((t, d'), w)) \<longleftrightarrow> ((deadlines c)((topic, d) \<mapsto> u)) (t, d') = Some w" for t d' w
  proof (cases "(t, d') = (topic, d)")
    case True
    have "map_of (expirations c) k \<noteq> Some ((topic, d), w)" for k using key [of topic d k] assms(3) by auto
    then show ?thesis using True unfolding e by auto
  next
    case False
    then have "map_of (expirations c') k = Some ((t, d'), w) \<longleftrightarrow> map_of (expirations c) k = Some ((t, d'), w)" for k
      using assms(2) unfolding e by auto
    then show ?thesis using False deadlines_Some [OF assms(1), of t d' w] by auto
  qed
  then show ?thesis using deadlines_eqI [OF ok] ok by blast
qed

lemma insert_known_ok:
  fixes u :: nanos
  assumes "gossip_cache_ok c" "cache_key c topic d = Some k"
  defines "c' \<equiv> c\<lparr>expirations := AList.update k ((topic, d), u) (expirations c)\<rparr>"
  shows "gossip_cache_ok c' \<and> deadlines c' = (deadlines c)((topic, d) \<mapsto> u)"
proof -
  note key = cache_ok_key [OF assms(1)]
  obtain v where v: "map_of (expirations c) k = Some ((topic, d), v)" using key assms(2) by auto
  have e: "map_of (expirations c') = (map_of (expirations c))(k \<mapsto> ((topic, d), u))" by (simp add: c'_def AList.update_conv')
  have ck: "cache_key c' = cache_key c" by (simp add: c'_def cache_key_def fun_eq_iff)
  have "(\<exists>w. map_of (expirations c') k' = Some ((t, d'), w)) \<longleftrightarrow> cache_key c' t d' = Some k'" for k' t d'
    using key [of t d' k'] v unfolding e ck by auto
  then have ok: "gossip_cache_ok c'" using assms(1) unfolding gossip_cache_ok_def by (simp add: c'_def)
  have "(\<exists>k. map_of (expirations c') k = Some ((t, d'), w)) \<longleftrightarrow> ((deadlines c)((topic, d) \<mapsto> u)) (t, d') = Some w" for t d' w
  proof (cases "(t, d') = (topic, d)")
    case True
    have "k' = k" if "map_of (expirations c) k' = Some ((topic, d), w)" for k'
      using key [of topic d k'] assms(2) that by auto
    then show ?thesis using True unfolding e by (auto split: if_splits)
  next
    case False
    then have "map_of (expirations c') k' = Some ((t, d'), w) \<longleftrightarrow> map_of (expirations c) k' = Some ((t, d'), w)" for k'
      using v unfolding e by auto
    then show ?thesis using False deadlines_Some [OF assms(1), of t d' w] by auto
  qed
  then show ?thesis using deadlines_eqI [OF ok] ok by blast
qed

lemma cache_insert_ok:
  assumes "gossip_cache_ok c" "map_of (expirations c) new_key = None"
  shows "\<exists>c'. cache_insert c now new_key topic d = Some c' \<and> gossip_cache_ok c' \<and> expire_timeout c' = expire_timeout c \<and>
    deadlines c' = (case expire_timeout c (gt_kind topic) of None \<Rightarrow> deadlines c | Some t \<Rightarrow> (deadlines c)((topic, d) \<mapsto> now + t))"
proof (cases "expire_timeout c (gt_kind topic)")
  case (Some t)
  show ?thesis
  proof (cases "cache_key c topic d")
    case None
    then show ?thesis using insert_new_ok [OF assms None, of "now + t"] Some by (simp add: cache_insert_def cache_key_def)
  next
    case (Some k)
    then obtain v where "map_of (expirations c) k = Some ((topic, d), v)" using cache_ok_key [OF assms(1)] by auto
    then show ?thesis
      using insert_known_ok [OF assms(1) Some, of "now + t"] Some \<open>expire_timeout c (gt_kind topic) = Some t\<close>
      by (simp add: cache_insert_def cache_key_def)
  qed
qed (use assms(1) in \<open>simp add: cache_insert_def\<close>)

text \<open>Taking messages out: those whose keys are removed go, the others stay.\<close>

lemma remove_keys_Some:
  assumes "distinct ks" "\<And>k. k \<in> set ks \<Longrightarrow> map_of q k \<noteq> None"
  shows "\<exists>q'. remove_keys ks q = Some q' \<and> map_of q' = (\<lambda>k. if k \<in> set ks then None else map_of q k)"
  using assms
proof (induction ks arbitrary: q)
  case (Cons k ks)
  have "\<And>j. j \<in> set ks \<Longrightarrow> map_of (AList.delete k q) j \<noteq> None" using Cons.prems by (auto simp: AList.delete_conv')
  from Cons.IH [OF _ this] Cons.prems show ?case by (auto simp: AList.delete_conv' fun_eq_iff)
qed simp

lemma cache_shrink_ok:
  assumes "gossip_cache_ok c"
    "\<And>k. map_of (expirations c') k = (case map_of (expirations c) k of Some ((t, d), u) \<Rightarrow> if gone t d then None else Some ((t, d), u) | None \<Rightarrow> None)"
    "\<And>t d. cache_key c' t d = (if gone t d then None else cache_key c t d)"
    "\<And>t ms. map_of (topic_msgs c') t = Some ms \<Longrightarrow> ms \<noteq> [] \<and> distinct (map fst ms)"
  shows "gossip_cache_ok c' \<and> deadlines c' = (\<lambda>(t, d). if gone t d then None else deadlines c (t, d))"
proof -
  have m: "map_of (expirations c') k = Some ((t, d), u) \<longleftrightarrow> \<not> gone t d \<and> map_of (expirations c) k = Some ((t, d), u)" for k t d u
    unfolding assms(2) by (auto split: option.split prod.split)
  have "gossip_cache_ok c'"
    unfolding gossip_cache_ok_def using assms(4) cache_ok_key [OF assms(1)] by (auto simp: m assms(3))
  moreover have "(\<exists>k. map_of (expirations c') k = Some ((t, d), u)) \<longleftrightarrow>
      (case (t, d) of (t, d) \<Rightarrow> if gone t d then None else deadlines c (t, d)) = Some u" for t d u
    using deadlines_Some [OF assms(1), of t d u] by (simp add: m)
  ultimately show ?thesis using deadlines_eqI by blast
qed

lemma cached_keys:
  assumes "gossip_cache_ok c" "map_of (topic_msgs c) topic = Some ms"
  shows "(d, k) \<in> set ms \<longleftrightarrow> (\<exists>u. map_of (expirations c) k = Some ((topic, d), u))" "distinct (map snd ms)"
    "k \<in> snd ` set ms \<longleftrightarrow> (\<exists>d u. map_of (expirations c) k = Some ((topic, d), u))"
proof -
  have ms: "cached_for c topic = ms" "distinct (map fst ms)"
    using assms by (auto simp: cached_for_def gossip_cache_ok_def)
  have k: "(d, k) \<in> set ms \<longleftrightarrow> (\<exists>u. map_of (expirations c) k = Some ((topic, d), u))" for d k
    using cache_ok_key [OF assms(1), of topic d k] ms by (simp add: cache_key_def)
  then show "(d, k) \<in> set ms \<longleftrightarrow> (\<exists>u. map_of (expirations c) k = Some ((topic, d), u))" .
  have "k \<in> snd ` set ms \<longleftrightarrow> (\<exists>d. (d, k) \<in> set ms)" for k by force
  then show "k \<in> snd ` set ms \<longleftrightarrow> (\<exists>d u. map_of (expirations c) k = Some ((topic, d), u))" by (simp add: k)
  have same: "a = b" if ab: "(a, n) \<in> set ms" "(b, n) \<in> set ms" for a b n
  proof -
    obtain u where "map_of (expirations c) n = Some ((topic, a), u)" using iffD1 [OF k ab(1)] ..
    moreover obtain v where "map_of (expirations c) n = Some ((topic, b), v)" using iffD1 [OF k ab(2)] ..
    ultimately show ?thesis by simp
  qed
  have "inj_on snd (set ms)"
  proof (rule inj_onI)
    fix x y assume xy: "x \<in> set ms" "y \<in> set ms" "snd x = snd y"
    have "(fst x, snd x) \<in> set ms" "(fst y, snd y) \<in> set ms" using xy(1,2) by simp_all
    then have "fst x = fst y" unfolding xy(3) by (rule same)
    then show "x = y" using xy(3) by (rule prod_eqI)
  qed
  then show "distinct (map snd ms)" using ms(2) by (simp add: distinct_map)
qed

lemma cache_retrieve_ok:
  assumes "gossip_cache_ok c"
  shows "\<exists>r c'. cache_retrieve c topic = Some (r, c') \<and> gossip_cache_ok c' \<and> expire_timeout c' = expire_timeout c \<and>
    (let ds = (case r of Some ds \<Rightarrow> ds | None \<Rightarrow> []) in set ds = {d. deadlines c (topic, d) \<noteq> None} \<and> distinct ds) \<and>
    deadlines c' = (\<lambda>(t, d). if t = topic then None else deadlines c (t, d))"
proof -
  have "deadlines c (topic, d) \<noteq> None \<longleftrightarrow> cache_key c topic d \<noteq> None" for d
    using deadlines_Some [OF assms, of topic d] cache_ok_key [OF assms, of topic d] by (metis not_None_eq)
  then have dom: "{d. deadlines c (topic, d) \<noteq> None} = fst ` set (cached_for c topic)"
    by (auto simp: cache_key_def map_of_eq_None_iff)
  show ?thesis
  proof (cases "map_of (topic_msgs c) topic")
    case None
    then have e: "cached_for c topic = []" by (simp add: cached_for_def)
    then have "deadlines c = (\<lambda>(t, d). if t = topic then None else deadlines c (t, d))" using dom by (auto simp: fun_eq_iff)
    then show ?thesis using None assms dom e by (simp add: cache_retrieve_def)
  next
    case (Some ms)
    note keys = cached_keys [OF assms Some]
    have ms: "cached_for c topic = ms" "distinct (map fst ms)"
      using assms Some by (auto simp: cached_for_def gossip_cache_ok_def)
    obtain q where q: "remove_keys (map snd ms) (expirations c) = Some q"
      "map_of q = (\<lambda>k. if k \<in> snd ` set ms then None else map_of (expirations c) k)"
      using remove_keys_Some [OF keys(2), of "expirations c"] keys(3) by fastforce
    let ?c = "c\<lparr>expirations := q, topic_msgs := AList.delete topic (topic_msgs c)\<rparr>"
    have 1: "map_of (expirations ?c) k = (case map_of (expirations c) k of
        Some ((t, e), w) \<Rightarrow> if t = topic then None else Some ((t, e), w) | None \<Rightarrow> None)" for k
      using q(2) keys(3) [of k] by (auto split: option.split)
    have 2: "cache_key ?c t e = (if t = topic then None else cache_key c t e)" for t e by (simp add: cache_key_def)
    have 3: "ns \<noteq> [] \<and> distinct (map fst ns)" if "map_of (topic_msgs ?c) t = Some ns" for t ns
      using that assms by (auto simp: gossip_cache_ok_def AList.delete_conv' split: if_splits)
    have "gossip_cache_ok ?c \<and> deadlines ?c = (\<lambda>(t, d). if t = topic then None else deadlines c (t, d))"
      by (rule cache_shrink_ok [OF assms 1 2 3])
    then show ?thesis using dom ms by (simp add: cache_retrieve_def Some q(1))
  qed
qed

lemma cache_poll_ok:
  assumes "gossip_cache_ok c" "map_of (expirations c) k = Some ((topic, d), u)"
  shows "\<exists>c'. cache_poll_next c k = Some (topic, c') \<and> gossip_cache_ok c' \<and> expire_timeout c' = expire_timeout c \<and>
    deadlines c' = (deadlines c)((topic, d) := None)"
proof -
  have key: "cache_key c topic d = Some k" using cache_ok_key [OF assms(1)] assms(2) by blast
  then obtain ms where ms: "map_of (topic_msgs c) topic = Some ms" "map_of ms d = Some k"
    by (auto simp: cache_key_def cached_for_def split: option.splits)
  define c' where "c' = c\<lparr>expirations := AList.delete k (expirations c),
    topic_msgs := (if AList.delete d ms = [] then AList.delete topic (topic_msgs c)
                   else AList.update topic (AList.delete d ms) (topic_msgs c))\<rparr>"
  have "map_of (expirations c) k' = Some ((topic, d), w) \<longleftrightarrow> k' = k \<and> w = u" for k' w
    using cache_ok_key [OF assms(1), of topic d k'] key assms(2) by auto
  then have 1: "map_of (expirations c') k' = (case map_of (expirations c) k' of
      Some ((t, e), w) \<Rightarrow> if t = topic \<and> e = d then None else Some ((t, e), w) | None \<Rightarrow> None)" for k'
    by (cases "k' = k"; cases "map_of (expirations c) k'") (auto simp: c'_def AList.delete_conv' assms(2))
  have f: "cached_for c' = (cached_for c)(topic := AList.delete d ms)" by (simp add: c'_def)
  have 2: "cache_key c' t e = (if t = topic \<and> e = d then None else cache_key c t e)" for t e
    using ms(1) by (simp add: cache_key_def f AList.delete_conv') (simp add: cached_for_def)
  have 3: "ns \<noteq> [] \<and> distinct (map fst ns)" if "map_of (topic_msgs c') t = Some ns" for t ns
    using that assms(1) ms(1)
    by (auto simp: c'_def gossip_cache_ok_def AList.delete_conv' AList.update_conv' distinct_delete split: if_splits)
  have "gossip_cache_ok c' \<and> deadlines c' = (\<lambda>(t, e). if t = topic \<and> e = d then None else deadlines c (t, e))"
    by (rule cache_shrink_ok [OF assms(1) 1 2 3])
  moreover have "(\<lambda>(t, e). if t = topic \<and> e = d then None else deadlines c (t, e)) = (deadlines c)((topic, d) := None)"
    by (auto simp: fun_eq_iff)
  moreover have "cache_poll_next c k = Some (topic, c')" by (simp add: cache_poll_next_def assms(2) ms c'_def Let_def)
  ultimately show ?thesis by (simp add: c'_def)
qed

section \<open>Runs\<close>

datatype cache_call = Cache_Insert nanos nat gossip_topic gossip_data | Cache_Retrieve gossip_topic | Cache_Expire nat

fun cache_apply :: "cache_call \<Rightarrow> gossip_cache \<Rightarrow> (gossip_data list \<times> gossip_cache) option" where
  "cache_apply (Cache_Insert now k t d) c = map_option (Pair []) (cache_insert c now k t d)"
| "cache_apply (Cache_Retrieve t) c = map_option (\<lambda>(r, c'). (case r of Some ds \<Rightarrow> ds | None \<Rightarrow> [], c')) (cache_retrieve c t)"
| "cache_apply (Cache_Expire k) c = map_option (\<lambda>(t, c'). ([], c')) (cache_poll_next c k)"

text \<open>What the delay queue promises: new keys are not in use, and only entries it holds expire.\<close>

fun cache_allowed :: "gossip_cache \<Rightarrow> cache_call \<Rightarrow> bool" where
  "cache_allowed c (Cache_Insert now k t d) = (map_of (expirations c) k = None)"
| "cache_allowed c (Cache_Retrieve t) = True"
| "cache_allowed c (Cache_Expire k) = (map_of (expirations c) k \<noteq> None)"

inductive cache_run :: "gossip_cache_builder \<Rightarrow> gossip_cache \<Rightarrow> bool" for b where
  start: "cache_run b (gossip_cache_build b)"
| step: "cache_run b c \<Longrightarrow> cache_allowed c call \<Longrightarrow> cache_apply call c = Some (out, c') \<Longrightarrow> cache_run b c'"

text \<open>The specification: a map from messages to deadlines.\<close>

fun cache_spec :: "(gossip_kind \<rightharpoonup> nanos) \<Rightarrow> cache_call \<Rightarrow> (gossip_topic \<times> gossip_data \<rightharpoonup> nanos) \<Rightarrow> gossip_data list \<Rightarrow>
    (gossip_topic \<times> gossip_data \<rightharpoonup> nanos) \<Rightarrow> bool" where
  "cache_spec timeout (Cache_Insert now k t d) m out m' \<longleftrightarrow>
     m' = (case timeout (gt_kind t) of None \<Rightarrow> m | Some u \<Rightarrow> m((t, d) \<mapsto> now + u)) \<and> out = []"
| "cache_spec timeout (Cache_Retrieve t) m out m' \<longleftrightarrow>
     set out = {d. m (t, d) \<noteq> None} \<and> distinct out \<and> m' = (\<lambda>(t', d). if t' = t then None else m (t', d))"
| "cache_spec timeout (Cache_Expire k) m out m' \<longleftrightarrow> out = [] \<and> (\<exists>x. m x \<noteq> None \<and> m' = m(x := None))"

lemma cache_apply_ok:
  assumes "gossip_cache_ok c" "cache_allowed c call"
  shows "\<exists>out c'. cache_apply call c = Some (out, c') \<and> gossip_cache_ok c' \<and> expire_timeout c' = expire_timeout c \<and>
    cache_spec (expire_timeout c) call (deadlines c) out (deadlines c')"
proof (cases call)
  case (Cache_Insert now k t d)
  then show ?thesis using cache_insert_ok [OF assms(1), of k now t d] assms(2) by auto
next
  case (Cache_Retrieve t)
  then show ?thesis using cache_retrieve_ok [OF assms(1), of t] by (fastforce simp: Let_def)
next
  case (Cache_Expire k)
  then obtain t d u where e: "map_of (expirations c) k = Some ((t, d), u)" using assms(2) by auto
  then have "deadlines c (t, d) \<noteq> None" using deadlines_Some [OF assms(1), of t d u] by auto
  then show ?thesis using cache_poll_ok [OF assms(1) e] Cache_Expire by fastforce
qed

lemma cache_run_ok: "cache_run b c \<Longrightarrow> gossip_cache_ok c \<and> expire_timeout c = expire_timeout (gossip_cache_build b)"
proof (induction rule: cache_run.induct)
  case (step c call out c')
  then show ?case using cache_apply_ok [of c call] by auto
qed (simp add: build_ok)

text \<open>
  C19. The gossip cache is a map from messages to deadlines: in every run no operation panics and no
  assertion fails, an insertion sets the deadline of its message when the kind of the topic has a
  timeout, a retrieval returns each cached message of its topic once and forgets them, and an
  expiry forgets one message.
\<close>

theorem gossip_cache_refines:
  assumes "cache_run b c" "cache_allowed c call"
  shows "\<exists>out c'. cache_apply call c = Some (out, c') \<and>
    cache_spec (expire_timeout (gossip_cache_build b)) call (deadlines c) out (deadlines c')"
  using cache_apply_ok [OF _ assms(2)] cache_run_ok [OF assms(1)] by fastforce

definition demo_builder :: gossip_cache_builder where
  "demo_builder = \<lparr>beacon_block = Some 7, blob_sidecar = None, data_column_sidecar = None, aggregates = None, attestation = None,
     voluntary_exit = None, proposer_slashing = None, attester_slashing = None, signed_contribution_and_proof = None,
     sync_committee_message = None, bls_to_execution_change = None, light_client_finality_update = None,
     light_client_optimistic_update = None, execution_payload_bid = None, default_timeout = Some 5\<rparr>"

theorem gossip_cache_refines_witness:
  "\<exists>c'. cache_apply (Cache_Insert 10 3 \<lparr>gt_encoding = GossipSSZSnappy, gt_fork_digest = [], gt_kind = VoluntaryExitKind\<rparr> [1])
     (gossip_cache_build demo_builder) = Some ([], c') \<and>
     deadlines c' (\<lparr>gt_encoding = GossipSSZSnappy, gt_fork_digest = [], gt_kind = VoluntaryExitKind\<rparr>, [1]) = Some 15"
proof -
  let ?t = "\<lparr>gt_encoding = GossipSSZSnappy, gt_fork_digest = [], gt_kind = VoluntaryExitKind\<rparr>"
  have "cache_allowed (gossip_cache_build demo_builder) (Cache_Insert 10 3 ?t [1])"
    by (simp add: gossip_cache_build_def Let_def)
  moreover have "expire_timeout (gossip_cache_build demo_builder) VoluntaryExitKind = Some 5"
    by (simp add: expire_timeout_def gossip_cache_build_def demo_builder_def or_else_def Let_def)
  ultimately show ?thesis using gossip_cache_refines [OF cache_run.start] by fastforce
qed

end
