(* ===== verification/Spec2Isabelle.thy ===== *)
theory Spec2Isabelle
  imports RpcConfig RpcRateLimiter Methods TimeCache PeerDBProperties CodecProperties HandlerAnswers Pubsub PeerManagerProperties GossipCache
begin

text \<open>
  Verification of \<open>eth2_libp2p\<close>, the networking crate of an Ethereum consensus client. File names are
  relative to \<open>src/src\<close>.

  \<^bold>\<open>The program.\<close> The crate gives a beacon node its peer-to-peer network on top of libp2p. Its parts are
  behaviours that one swarm drives:
  \<^item> the request/response protocols (\<open>rpc/\<close>): a behaviour (\<open>rpc/mod.rs\<close>) with a limiter for our requests and one
    for our responses, a handler per connection (\<open>rpc/handler.rs\<close>) and the codec of its substreams
    (\<open>rpc/codec.rs\<close>, over the tables of \<open>rpc/protocol.rs\<close> and the messages of \<open>rpc/methods.rs\<close>);
  \<^item> gossip (\<open>types/topics.rs\<close>, \<open>types/pubsub.rs\<close>, \<open>service/gossip_cache.rs\<close>), whose topics depend on the fork
    (\<open>types/fork_context.rs\<close>);
  \<^item> the peer manager (\<open>peer_manager/\<close>), which keeps a database of peers with scores and bans, decides whom to
    dial, to disconnect and to ban, and turns RPC failures into reports;
  \<^item> discovery and the service that connects the behaviours to the application, which are not modelled.
  The application sends requests and responses through the RPC behaviour, which passes them to a handler; what
  the handlers read comes back as events. The peer manager sees connections, failures and answers, and the
  behaviours share the database of peers in the network globals.

  \<^bold>\<open>Conventions.\<close> One definition models one function of the source, with its name where HOL has no constant of that
  name (a prefix such as \<open>pm_\<close>, \<open>db_\<close> or \<open>rpc_\<close> tells the components apart otherwise). A \<open>struct\<close> is a \<open>record\<close>, an
  \<open>enum\<close> a \<open>datatype\<close>, a method takes the state and returns it changed. \<open>Result\<close> is a sum (\<open>Ok\<close>, \<open>Err\<close>); the outer
  \<open>None\<close> of an \<open>option\<close> is a panic of the source. Instants are nanoseconds and are arguments of the operations
  that read the clock. Hash maps whose order is observed are association lists, with the order as part of the
  state. Counters are natural numbers with the saturating or overflowing arithmetic of \<open>u64\<close> written out where
  the source can reach it (\<open>Prelude\<close>). Code of other crates is a parameter with named laws: SSZ, snappy and
  varints (\<open>wire\<close> with \<open>wire_ok\<close>, \<open>snap\<close> with \<open>snap_ok\<close>, hex with \<open>hex_ok\<close>), the digests of forks, what polling
  substreams, timers and delay queues returns, the outcome of shuffles. Each of these laws has an instance
  in the witness of a property that uses it. Logging, metrics and wakers are left out throughout.

  \<^bold>\<open>Foundations.\<close>
  \<^item> \<open>Prelude\<close>: results, saturating arithmetic, time, association lists.
  \<^item> \<open>Float64\<close>, \<open>Float32\<close>: the \<open>f64\<close> of scores as exact reals with infinities and not-a-number (rounding is not
    modelled there), the \<open>f32\<close> of the peer limits with rounding to 24 bits.
  \<^item> \<open>Comparison\<close>: the locale \<open>comparison\<close>, sorting and maxima by a comparison function; interpreted for scores
    (\<open>Score\<close>) and for peers (\<open>PeerDB\<close>).

  \<^bold>\<open>Requests and responses.\<close>
  \<^item> \<open>RateLimiter\<close> (\<open>rpc/rate_limiter.rs\<close>): the generic cell rate algorithm. It never grants more than the bucket
    and the refill of a window, equals a bucket of tokens, and its waiting times are exact.
  \<^item> \<open>RpcConfig\<close> (\<open>rpc/config.rs\<close>), \<open>RpcRateLimiter\<close> (the limiter of all protocols and its builder): texts of quotas
    are parsed back, and every quota is enforced whatever else happens.
  \<^item> \<open>Protocol\<close>, \<open>Methods\<close> (\<open>rpc/protocol.rs\<close>, \<open>rpc/methods.rs\<close>): protocol names and versions, limits, messages,
    codes and terminators, with the agreement of the tables.
  \<^item> \<open>ForkContext\<close> (\<open>types/fork_context.rs\<close>): the schedule, the current fork, context bytes.
  \<^item> \<open>Codec\<close>, \<open>CodecProperties\<close> (\<open>rpc/codec.rs\<close> and the upgrades of \<open>rpc/protocol.rs\<close>): both codecs as functions of the
    bytes received so far. The locale \<open>chunked\<close> (\<open>chunked_stream\<close>) says what a decoder of a stream must do on every
    part of a message; it is interpreted for both decoders, and gives that requests and sequences of
    responses arrive unchanged however the bytes are split. Nothing outside the limits is accepted.
  \<^item> \<open>DelayedQueue\<close>: the locale of a limiter with a queue per key, interpreted in \<open>ResponseLimiter\<close>
    (\<open>rpc/response_limiter.rs\<close>) and \<open>SelfLimiter\<close> (\<open>rpc/self_limiter.rs\<close>): first in first out, and whoever waits has a
    timer.
  \<^item> \<open>RpcBehaviour\<close>, \<open>RpcBehaviourProperties\<close> (\<open>rpc/mod.rs\<close>): all calls and events; \<open>rpc_execute\<close> is a run. No request
    is lost or duplicated, and the limits on concurrent requests hold in every run.
  \<^item> \<open>Handler\<close>, \<open>HandlerInvariant\<close>, \<open>HandlerProperties\<close>, \<open>HandlerAnswers\<close> (\<open>rpc/handler.rs\<close>): \<open>connection_moves\<close> are the
    commands, events and polls of one connection, \<open>connection_runs\<close> its runs with a swarm that answers only dials
    that were asked for. The locale \<open>timed_streams\<close> has what inbound and outbound substreams share. No run without
    light client updates by range panics, no request of ours is lost, no peer delivers more chunks than asked for,
    and answers are written in order, within the number asked for and with nothing after an error.

  \<^bold>\<open>Gossip.\<close>
  \<^item> \<open>Topics\<close> (\<open>types/topics.rs\<close>): names, parsing, the topics of a fork and those a node subscribes to.
  \<^item> \<open>Pubsub\<close> (\<open>types/pubsub.rs\<close>): messages, the snappy transform, encoder and decoder, and their round trip.
  \<^item> \<open>GossipCache\<close> (\<open>service/gossip_cache.rs\<close>): refines a map from messages to deadlines.

  \<^bold>\<open>Peers.\<close>
  \<^item> \<open>Score\<close> (\<open>peer_manager/peerdb/score.rs\<close>): scores, their decay, how long bans last.
  \<^item> \<open>PeerInfo\<close> (\<open>peer_info.rs\<close>, \<open>client.rs\<close>, \<open>sync_status.rs\<close>, \<open>types/subnet.rs\<close>): the record of a peer.
  \<^item> \<open>PeerDB\<close>, \<open>PeerDBInvariant\<close>, \<open>PeerDBProperties\<close> (\<open>peer_manager/peerdb.rs\<close>): the table, the counters and the
    connection states. \<open>db_call\<close> is one public operation; \<open>reachable_db\<close> are the databases any sequence of them
    makes of a new one, \<open>orderly_db\<close> those made without telling a banned peer to disconnect and with at most
    \<open>MAX_DC_PEERS\<close> trusted peers at a disconnection. The counters bound the table in the former and are
    exact in the latter; the first exception is a defect of the code that one of the properties states.
  \<^item> \<open>Globals\<close> (\<open>types/globals.rs\<close>), \<open>TimeCache\<close> (\<open>common/time_cache.rs\<close>; the locale \<open>expiring_set\<close> has its contract).
  \<^item> \<open>PeerManager\<close>, \<open>PeerPruning\<close>, \<open>PeerManagerInvariant\<close>, \<open>PeerManagerProperties\<close> (\<open>peer_manager/mod.rs\<close>,
    \<open>peer_manager/network_behaviour.rs\<close>): \<open>pm_call\<close> is any call of the manager or any change of the shared state by
    others, \<open>pm_run\<close> a run. Every call returns and changes the database by its own operations only; connected
    peers have their timers; a goodbye leads to a ban; pruning keeps its limits and ends.

  \<^bold>\<open>Fuel and termination.\<close> The loops of the source are recursive functions with termination proofs, except the
  last loop of the pruning, \<open>prune_densest\<close>, which is a partial function: a property shows that it always
  returns. \<open>all_items\<close>, which reads a whole stream, takes as fuel the number of polls; one more than the number of
  responses is enough by the theorem that uses it. The size of the table of peers is assumed to be less than
  \<open>2 ^ 64\<close> (\<open>small\<close>), as the length of a collection is in the source.

  \<^bold>\<open>Not modelled.\<close>
  \<^item> \<open>discovery/\<close>: queries of discv5 and the local ENR; most of it drives that crate, which is not part of the
    repository.
  \<^item> \<open>service/mod.rs\<close>, \<open>service/behaviour.rs\<close>, \<open>service/api_types.rs\<close>, \<open>service/utils.rs\<close>: the event loop around the swarm,
    start-up, transports and keys. Its calls into the parts above are among the calls the properties range
    over.
  \<^item> \<open>service/gossipsub_scoring_parameters.rs\<close>: parameters handed to gossipsub, of which only the greylist threshold
    matters here.
  \<^item> \<open>rpc/outbound.rs\<close>: passes a request to the codec and awaits the socket.
  \<^item> \<open>config.rs\<close>, \<open>listen_addr.rs\<close>, \<open>defaults.rs\<close>, \<open>factory.rs\<close>, \<open>misc.rs\<close>, \<open>lib.rs\<close>, \<open>task_executor.rs\<close>, \<open>metrics.rs\<close> and the
    rest of \<open>common/\<close>: plain data, start-up, operating system calls and counters for monitoring.
\<close>

end
